(* ===== verification/Prelude.thy ===== *)
theory Prelude
  imports Main "HOL-Library.Word" "HOL-Library.Multiset"
begin

text \<open>
  Shared vocabulary of the development: the names of the model's scalar types, Rust's fixed-width
  integer arithmetic written on \<open>int\<close> with the wrap-around explicit, strings as UTF-8 byte
  sequences, and the generic lemmas on updated and filtered lists that every SQL statement of the
  model uses.
\<close>

section \<open>Scalars\<close>

text \<open>
  A UUID is a 128-bit number; \<open>Uuid::nil()\<close> (also \<open>Uuid::default()\<close>) is 0. An instant is the
  number of microseconds since the Unix epoch, the resolution of a TIMESTAMPTZ column.
\<close>

type_synonym uuid = nat
type_synonym time = int

definition nil_uuid :: uuid where
  "nil_uuid = 0"

definition seconds :: "int \<Rightarrow> time" where
  "seconds n = n * 1000000"

lemma seconds_mono [simp]: "seconds a \<le> seconds b \<longleftrightarrow> a \<le> b"
  by (simp add: seconds_def)

lemma seconds_nonneg [simp]: "0 \<le> seconds a \<longleftrightarrow> 0 \<le> a"
  by (simp add: seconds_def)

section \<open>Fixed-width integers\<close>

text \<open>
  The release build (the only one the Dockerfile makes) wraps on overflow. The wrapped value of an
  \<open>i32\<close> or \<open>i64\<close> operation is the two's complement reading of the low 32 or 64 bits.
\<close>

definition i32_max :: int where "i32_max = 2147483647"
definition i32_min :: int where "i32_min = -2147483648"
definition i64_max :: int where "i64_max = 9223372036854775807"
definition i64_min :: int where "i64_min = -9223372036854775808"
definition u64_max :: int where "u64_max = 18446744073709551615"

definition is_i32 :: "int \<Rightarrow> bool" where
  "is_i32 k \<longleftrightarrow> i32_min \<le> k \<and> k \<le> i32_max"

definition is_i64 :: "int \<Rightarrow> bool" where
  "is_i64 k \<longleftrightarrow> i64_min \<le> k \<and> k \<le> i64_max"

definition wrap_i32 :: "int \<Rightarrow> int" where
  "wrap_i32 k = signed_take_bit 31 k"

definition wrap_i64 :: "int \<Rightarrow> int" where
  "wrap_i64 k = signed_take_bit 63 k"

definition saturate_i32 :: "int \<Rightarrow> int" where
  "saturate_i32 k = max i32_min (min i32_max k)"

definition saturate_i64 :: "int \<Rightarrow> int" where
  "saturate_i64 k = max i64_min (min i64_max k)"

definition saturate_u64 :: "int \<Rightarrow> int" where
  "saturate_u64 k = max 0 (min u64_max k)"

lemmas int_limits = i32_max_def i32_min_def i64_max_def i64_min_def u64_max_def

lemma wrap_i32_word: "wrap_i32 k = sint (word_of_int k :: 32 word)"
  by (simp add: wrap_i32_def sint_sbintrunc')

lemma wrap_i64_word: "wrap_i64 k = sint (word_of_int k :: 64 word)"
  by (simp add: wrap_i64_def sint_sbintrunc')

lemma wrap_i32_id [simp]: "is_i32 k \<Longrightarrow> wrap_i32 k = k"
  by (simp add: is_i32_def wrap_i32_def int_limits signed_take_bit_int_eq_self)

lemma wrap_i64_id [simp]: "is_i64 k \<Longrightarrow> wrap_i64 k = k"
  by (simp add: is_i64_def wrap_i64_def int_limits signed_take_bit_int_eq_self)

lemma is_i32_wrap [simp]: "is_i32 (wrap_i32 k)"
  using signed_take_bit_int_greater_eq_minus_exp [of 31 k]
    signed_take_bit_int_less_exp [of 31 k]
  by (simp add: is_i32_def wrap_i32_def int_limits)

lemma is_i64_wrap [simp]: "is_i64 (wrap_i64 k)"
  using signed_take_bit_int_greater_eq_minus_exp [of 63 k]
    signed_take_bit_int_less_exp [of 63 k]
  by (simp add: is_i64_def wrap_i64_def int_limits)

section \<open>Strings\<close>

text \<open>
  A Rust \<open>String\<close> is a sequence of UTF-8 bytes, one \<open>char\<close> of HOL each, so that \<open>length\<close> is
  \<open>str::len\<close>. A continuation byte is \<open>0b10xxxxxx\<close>; the number of characters (what VARCHAR(n)
  limits) is the number of bytes that are not continuation bytes.
\<close>

definition is_continuation :: "char \<Rightarrow> bool" where
  "is_continuation c \<longleftrightarrow> 128 \<le> (of_char c :: nat) \<and> (of_char c :: nat) < 192"

definition char_count :: "string \<Rightarrow> nat" where
  "char_count s = length (filter (\<lambda>c. \<not> is_continuation c) s)"

definition is_char_boundary :: "string \<Rightarrow> nat \<Rightarrow> bool" where
  "is_char_boundary s i \<longleftrightarrow>
     i = 0 \<or> i = length s \<or> (i < length s \<and> \<not> is_continuation (s ! i))"

text \<open>The decimal text of a number, as \<open>format!("{}")\<close> writes it.\<close>

definition digit :: "nat \<Rightarrow> char" where
  "digit d = char_of (48 + d)"

fun decimal :: "nat \<Rightarrow> string" where
  "decimal n = (if n < 10 then [digit n] else decimal (n div 10) @ [digit (n mod 10)])"

declare decimal.simps [simp del]

section \<open>Lists of rows\<close>

text \<open>The rows a WHERE clause selects, and the rows after the SET clause of an UPDATE.\<close>

definition update_where :: "('r \<Rightarrow> bool) \<Rightarrow> ('r \<Rightarrow> 'r) \<Rightarrow> 'r list \<Rightarrow> 'r list" where
  "update_where p g t = map (\<lambda>r. if p r then g r else r) t"

definition count_where :: "('r \<Rightarrow> bool) \<Rightarrow> 'r list \<Rightarrow> nat" where
  "count_where p t = length (filter p t)"

lemma length_update_where [simp]: "length (update_where p g t) = length t"
  by (simp add: update_where_def)

lemma map_update_where:
  "(\<And>r. f (g r) = f r) \<Longrightarrow> map f (update_where p g t) = map f t"
  by (simp add: update_where_def)

lemma set_update_where:
  "set (update_where p g t) = (\<lambda>r. if p r then g r else r) ` set t"
  by (simp add: update_where_def)

lemma update_where_none: "(\<And>r. r \<in> set t \<Longrightarrow> \<not> p r) \<Longrightarrow> update_where p g t = t"
  by (simp add: update_where_def map_idI)

lemma list_all_update_where:
  assumes "list_all q t" and "\<And>r. q r \<Longrightarrow> p r \<Longrightarrow> q (g r)"
  shows "list_all q (update_where p g t)"
  using assms by (auto simp: list_all_iff set_update_where)

lemma count_where_set:
  "i < length xs \<Longrightarrow> count_where P (xs[i := a]) + (if P (xs ! i) then 1 else 0) = count_where P xs + (if P a then 1 else 0)"
proof (induction xs arbitrary: i)
  case (Cons b xs)
  then show ?case by (cases i) (auto simp: count_where_def)
qed simp

lemma count_where_zero: "count_where p t = 0 \<longleftrightarrow> (\<forall>r\<in>set t. \<not> p r)"
  by (simp add: count_where_def filter_empty_conv)

lemma update_where_cases:
  assumes "r' \<in> set (update_where p g t)"
  obtains r where "r \<in> set t" "r' = (if p r then g r else r)"
  using assms by (auto simp: set_update_where)

lemma find_update_where:
  assumes "\<And>r. q (g r) = q r"
  shows "List.find q (update_where p g t) =
           map_option (\<lambda>r. if p r then g r else r) (List.find q t)"
  using assms by (induction t) (auto simp: update_where_def)

lemma find_unique:
  assumes "distinct (map f t)" and "r \<in> set t"
  shows "List.find (\<lambda>s. f s = f r) t = Some r"
  using assms by (induction t) auto

lemma find_append_None: "List.find q t = None \<Longrightarrow> List.find q (t @ u) = List.find q u"
  by (induction t) auto

lemma find_append_Some: "List.find q t = Some r \<Longrightarrow> List.find q (t @ u) = Some r"
  by (induction t) (auto split: if_splits)

lemma find_SomeD: "List.find q t = Some r \<Longrightarrow> r \<in> set t \<and> q r"
  by (induction t) (auto split: if_splits)

section \<open>Invariants of step relations\<close>

text \<open>What every step keeps holds after any number of steps.\<close>

locale kept_by =
  fixes step :: "'s \<Rightarrow> 's \<Rightarrow> bool" and holds :: "'s \<Rightarrow> bool"
  assumes step: "step s s' \<Longrightarrow> holds s \<Longrightarrow> holds s'"
begin

lemma steps: "step\<^sup>*\<^sup>* s s' \<Longrightarrow> holds s \<Longrightarrow> holds s'"
  by (induction rule: rtranclp_induct) (auto intro: step)

end

end
