(* ===== verification/Config.thy ===== *)
theory Config
  imports Prelude
begin

text \<open>
  \<open>src/config.rs\<close>: the configuration read from environment variables, the parsing of its integers
  (\<open>str::parse\<close> of the standard library, digit by digit with overflow checks), and the search for a
  free port.
\<close>

section \<open>Integers\<close>

definition digit_of :: "char \<Rightarrow> nat option" where
  "digit_of c = (let b = of_char c in if 48 \<le> b \<and> b \<le> (57::nat) then Some (b - 48) else None)"

text \<open>The loop of \<open>from_str_radix\<close> with \<open>checked_mul\<close> and \<open>checked_add\<close> (\<open>checked_sub\<close> for a negative
  number, \<open>sign = -1\<close>) in the range of the type.\<close>

definition checked :: "int \<Rightarrow> int \<Rightarrow> int \<Rightarrow> int option" where
  "checked lo hi k = (if lo \<le> k \<and> k \<le> hi then Some k else None)"

fun parse_digits :: "int \<Rightarrow> int \<Rightarrow> int \<Rightarrow> int \<Rightarrow> string \<Rightarrow> int option" where
  "parse_digits lo hi sign acc [] = Some acc"
| "parse_digits lo hi sign acc (c # cs) =
     Option.bind (digit_of c) (\<lambda>d.
     Option.bind (checked lo hi (acc * 10)) (\<lambda>m.
     Option.bind (checked lo hi (m + sign * int d)) (\<lambda>a.
       parse_digits lo hi sign a cs)))"

text \<open>An optional sign and at least one digit; a \<open>-\<close> is a sign for signed types only (\<open>lo < 0\<close>).\<close>

definition parse_int :: "int \<Rightarrow> int \<Rightarrow> string \<Rightarrow> int option" where
  "parse_int lo hi s =
     (case s of
        [] \<Rightarrow> None
      | c # cs \<Rightarrow>
          if c = CHR ''+'' then (if cs = [] then None else parse_digits lo hi 1 0 cs)
          else if c = CHR ''-'' \<and> lo < 0 then (if cs = [] then None else parse_digits lo hi (-1) 0 cs)
          else parse_digits lo hi 1 0 s)"

section \<open>The environment\<close>

text \<open>
  An IP address is only passed on and is kept as its text. \<open>SocketAddr::from_str\<close> is an argument (\<open>parse_addr\<close>); a variable
  that is missing or not Unicode is \<open>None\<close>.
\<close>

type_synonym socket_addr = "string \<times> nat"
type_synonym env_vars = "string \<Rightarrow> string option"

datatype config_error = MissingDatabaseUrl | InvalidVariable string

text \<open>Durations in seconds.\<close>

record config =
  c_database_url :: string
  c_api_listen_addr :: socket_addr
  c_worker_count :: nat
  c_worker_queue_size :: nat
  c_heap_lookahead_limit :: int
  c_lease_duration :: nat
  c_lease_reaper_interval :: nat
  c_max_retry_backoff_secs :: int
  c_webhook_timeout :: nat
  c_webhook_max_retries :: int
  c_script_safe_dir :: string
  c_shutdown_timeout :: nat

definition parse_var :: "(string \<Rightarrow> 'a option) \<Rightarrow> env_vars \<Rightarrow> string \<Rightarrow> 'a \<Rightarrow> config_error + 'a" where
  "parse_var parse env key def_value =
     (case env key of
        None \<Rightarrow> Inr def_value
      | Some v \<Rightarrow> (case parse v of None \<Rightarrow> Inl (InvalidVariable key) | Some a \<Rightarrow> Inr a))"

definition parse_usize :: "env_vars \<Rightarrow> string \<Rightarrow> nat \<Rightarrow> config_error + nat" where
  "parse_usize = parse_var (\<lambda>v. map_option nat (parse_int 0 u64_max v))"

definition parse_u64 :: "env_vars \<Rightarrow> string \<Rightarrow> nat \<Rightarrow> config_error + nat" where
  "parse_u64 = parse_var (\<lambda>v. map_option nat (parse_int 0 u64_max v))"

definition parse_i64 :: "env_vars \<Rightarrow> string \<Rightarrow> int \<Rightarrow> config_error + int" where
  "parse_i64 = parse_var (parse_int i64_min i64_max)"

definition parse_i32 :: "env_vars \<Rightarrow> string \<Rightarrow> int \<Rightarrow> config_error + int" where
  "parse_i32 = parse_var (parse_int i32_min i32_max)"

definition or_else :: "config_error + 'a \<Rightarrow> ('a \<Rightarrow> config_error + 'b) \<Rightarrow> config_error + 'b" where
  "or_else r k = (case r of Inl e \<Rightarrow> Inl e | Inr a \<Rightarrow> k a)"

definition default_api_port :: nat where
  "default_api_port = 2401"

definition from_env :: "(string \<Rightarrow> socket_addr option) \<Rightarrow> env_vars \<Rightarrow> config_error + config" where
  "from_env parse_addr env =
     or_else (case env ''DATABASE_URL'' of None \<Rightarrow> Inl MissingDatabaseUrl | Some u \<Rightarrow> Inr u) (\<lambda>url.
     or_else
       (let text = (case env ''API_LISTEN_ADDR'' of
                      None \<Rightarrow> ''0.0.0.0:'' @ decimal default_api_port | Some a \<Rightarrow> a)
        in case parse_addr text of
             None \<Rightarrow> Inl (InvalidVariable ''API_LISTEN_ADDR'') | Some a \<Rightarrow> Inr a) (\<lambda>addr.
     or_else (parse_usize env ''WORKER_COUNT'' 10) (\<lambda>workers.
     or_else (parse_usize env ''WORKER_QUEUE_SIZE'' 1000) (\<lambda>queue.
     or_else (parse_i64 env ''HEAP_LOOKAHEAD_LIMIT'' 10000) (\<lambda>lookahead.
     or_else (parse_u64 env ''LEASE_DURATION_SECS'' 30) (\<lambda>lease.
     or_else (parse_u64 env ''LEASE_REAPER_INTERVAL_SECS'' 10) (\<lambda>interval.
     or_else (parse_i64 env ''MAX_RETRY_BACKOFF_SECS'' 3600) (\<lambda>backoff.
     or_else (parse_u64 env ''WEBHOOK_TIMEOUT_SECS'' 5) (\<lambda>hook_timeout.
     or_else (parse_i32 env ''WEBHOOK_MAX_RETRIES'' 3) (\<lambda>hook_retries.
     or_else (parse_u64 env ''SHUTDOWN_TIMEOUT_SECS'' 30) (\<lambda>shutdown.
       Inr \<lparr>c_database_url = url, c_api_listen_addr = addr, c_worker_count = workers,
            c_worker_queue_size = queue, c_heap_lookahead_limit = lookahead,
            c_lease_duration = lease, c_lease_reaper_interval = interval,
            c_max_retry_backoff_secs = backoff, c_webhook_timeout = hook_timeout,
            c_webhook_max_retries = hook_retries,
            c_script_safe_dir = (case env ''SCRIPT_SAFE_DIR'' of
                                   None \<Rightarrow> ''/opt/daemon/scripts'' | Some d \<Rightarrow> d),
            c_shutdown_timeout = shutdown\<rparr>)))))))))))"

section \<open>Binding the listener\<close>

datatype bind_result = Bound | AddrInUse | BindFailed

datatype bind_error = NoAvailablePort nat | BindError

text \<open>The answer of the operating system for a port is an argument.\<close>

function bind_from :: "(nat \<Rightarrow> bind_result) \<Rightarrow> nat \<Rightarrow> nat \<Rightarrow> bind_error + nat" where
  "bind_from bind start_port port =
     (case bind port of
        Bound \<Rightarrow> Inr port
      | AddrInUse \<Rightarrow>
          if 65535 \<le> port then Inl (NoAvailablePort start_port)
          else bind_from bind start_port (port + 1)
      | BindFailed \<Rightarrow> Inl BindError)"
  by pat_completeness auto
termination
  by (relation "measure (\<lambda>(bind, start, port). 65535 - port)") auto

declare bind_from.simps [simp del]

definition bind_api_listener ::
  "(socket_addr \<Rightarrow> bind_result) \<Rightarrow> socket_addr \<Rightarrow> bind_error + socket_addr" where
  "bind_api_listener bind requested =
     map_sum id (Pair (fst requested))
       (bind_from (\<lambda>port. bind (fst requested, port)) (snd requested) (snd requested))"

section \<open>What parsing accepts\<close>

text \<open>The value of a digit string.\<close>

fun digits_value :: "int \<Rightarrow> string \<Rightarrow> int option" where
  "digits_value acc [] = Some acc"
| "digits_value acc (c # cs) = Option.bind (digit_of c) (\<lambda>d. digits_value (acc * 10 + int d) cs)"

definition int_value :: "bool \<Rightarrow> string \<Rightarrow> int option" where
  "int_value with_sign s =
     (case s of
        [] \<Rightarrow> None
      | c # cs \<Rightarrow>
          if c = CHR ''+'' then (if cs = [] then None else digits_value 0 cs)
          else if c = CHR ''-'' \<and> with_sign
            then (if cs = [] then None else map_option uminus (digits_value 0 cs))
          else digits_value 0 s)"

lemma digits_value_ge: "digits_value acc s = Some v \<Longrightarrow> 0 \<le> acc \<Longrightarrow> acc \<le> v"
proof (induction s arbitrary: acc)
  case (Cons c cs)
  then obtain d where d: "digit_of c = Some d" "digits_value (acc * 10 + int d) cs = Some v"
    by (auto simp: bind_eq_Some_conv)
  then show ?case using Cons.IH [of "acc * 10 + int d"] Cons.prems by auto
qed simp

lemma checked_in: "lo \<le> k \<Longrightarrow> k \<le> hi \<Longrightarrow> checked lo hi k = Some k"
  and checked_out: "k < lo \<or> hi < k \<Longrightarrow> checked lo hi k = None"
  by (auto simp: checked_def)

text \<open>The checked loop gives the value when it is in range: the partial results are no greater.\<close>

lemma parse_digits_up:
  assumes "lo \<le> 0" "0 \<le> acc" "acc \<le> hi"
  shows "parse_digits lo hi 1 acc s = Option.bind (digits_value acc s) (checked lo hi)"
  using assms(2,3)
proof (induction s arbitrary: acc)
  case Nil
  then show ?case using assms(1) by (simp add: checked_in)
next
  case (Cons c cs)
  show ?case
  proof (cases "digit_of c")
    case (Some d)
    let ?a = "acc * 10 + int d"
    have step: "parse_digits lo hi 1 acc (c # cs) = (if ?a \<le> hi then parse_digits lo hi 1 ?a cs else None)"
      using Some Cons.prems assms(1) by (auto simp: checked_def)
    show ?thesis
    proof (cases "?a \<le> hi")
      case True
      then show ?thesis using Some step Cons.IH [of ?a] Cons.prems by simp
    next
      case False
      then have "Option.bind (digits_value ?a cs) (checked lo hi) = None"
        using digits_value_ge [of ?a cs] Cons.prems
        by (cases "digits_value ?a cs") (auto intro: checked_out)
      then show ?thesis using Some False step by simp
    qed
  qed simp
qed

lemma parse_digits_down:
  assumes "0 \<le> hi" "0 \<le> acc" "lo \<le> - acc"
  shows "parse_digits lo hi (-1) (- acc) s =
    Option.bind (map_option uminus (digits_value acc s)) (checked lo hi)"
  using assms(2,3)
proof (induction s arbitrary: acc)
  case Nil
  then show ?case using assms(1) by (simp add: checked_in)
next
  case (Cons c cs)
  show ?case
  proof (cases "digit_of c")
    case (Some d)
    let ?a = "acc * 10 + int d"
    have "(- acc) * 10 + (- 1) * int d = - ?a" by simp
    then have step: "parse_digits lo hi (-1) (- acc) (c # cs) =
        (if lo \<le> - ?a then parse_digits lo hi (-1) (- ?a) cs else None)"
      using Some Cons.prems assms(1)
      by (cases "lo \<le> - acc * 10") (auto simp: checked_in checked_out)
    show ?thesis
    proof (cases "lo \<le> - ?a")
      case True
      then show ?thesis using Some step Cons.IH [of ?a] Cons.prems by simp
    next
      case False
      then have "Option.bind (map_option uminus (digits_value ?a cs)) (checked lo hi) = None"
        using digits_value_ge [of ?a cs] Cons.prems
        by (cases "digits_value ?a cs") (auto intro: checked_out)
      then show ?thesis using Some False step by simp
    qed
  qed simp
qed

text \<open>Parsing a configured integer gives exactly the number the text denotes, when that number is
  in the range of the type, and an error otherwise; no intermediate overflow check rejects a number
  that fits.\<close>

theorem parse_int_exact:
  assumes "lo \<le> 0" "0 \<le> hi"
  shows "parse_int lo hi s = Option.bind (int_value (lo < 0) s) (checked lo hi)"
  using parse_digits_up [of lo 0 hi] parse_digits_down [of hi 0 lo] assms
  by (cases s) (auto simp: parse_int_def int_value_def simp del: parse_digits.simps digits_value.simps)

theorem parse_int_exact_witness:
  "parse_int i32_min i32_max ''-2147483648'' =
     Option.bind (int_value (i32_min < 0) ''-2147483648'') (checked i32_min i32_max) \<and>
   parse_int i32_min i32_max ''-2147483648'' = Some (- 2147483648) \<and>
   parse_int i32_min i32_max ''2147483648'' = None"
  by (intro conjI parse_int_exact) (simp_all add: int_limits, code_simp+)

lemma digit_of_digit: "d < 10 \<Longrightarrow> digit_of (digit d) = Some d"
  by (simp add: digit_of_def digit_def Let_def of_char_of take_bit_eq_mod)

lemma digits_value_append:
  "digits_value acc (s @ s') = Option.bind (digits_value acc s) (\<lambda>v. digits_value v s')"
  by (induction s arbitrary: acc) (auto split: bind_splits)

lemma digits_value_decimal: "digits_value 0 (decimal n) = Some (int n)"
proof (induction n rule: decimal.induct)
  case (1 n)
  have "int (n div 10) * 10 + int (n mod 10) = int n"
    using div_mult_mod_eq [of "int n" 10] by (simp add: zdiv_int zmod_int)
  with 1 show ?case
    by (cases "n < 10") (simp_all add: decimal.simps [of n] digits_value_append digit_of_digit)
qed

lemma decimal_head: "\<exists>d cs. d < 10 \<and> decimal n = digit d # cs"
proof (induction n rule: decimal.induct)
  case (1 n)
  show ?case
  proof (cases "n < 10")
    case True
    then show ?thesis by (auto simp: decimal.simps [of n])
  next
    case False
    then show ?thesis using 1 by (auto simp: decimal.simps [of n])
  qed
qed

text \<open>The decimal text of a number in range is parsed back to it.\<close>

theorem parse_decimal_roundtrip:
  assumes "lo \<le> 0" "int n \<le> hi"
  shows "parse_int lo hi (decimal n) = Some (int n)"
proof -
  obtain d cs where d: "d < 10" "decimal n = digit d # cs" using decimal_head by blast
  have "digit d \<noteq> CHR ''+''" "digit d \<noteq> CHR ''-''"
    using digit_of_digit [OF d(1)] by (auto simp: digit_of_def Let_def)
  then have "parse_int lo hi (decimal n) = parse_digits lo hi 1 0 (decimal n)"
    using d(2) by (simp add: parse_int_def)
  then show ?thesis
    using parse_digits_up [of lo 0 hi "decimal n"] assms
    by (simp add: digits_value_decimal checked_def)
qed

theorem parse_decimal_roundtrip_witness: "parse_int 0 u64_max (decimal 2401) = Some (int 2401)"
  by (rule parse_decimal_roundtrip) (simp_all add: int_limits)

section \<open>The listener gets the first free port\<close>

lemma bind_from_spec:
  "port \<le> 65535 \<Longrightarrow>
   (case bind_from bind start port of
      Inr p \<Rightarrow> port \<le> p \<and> p \<le> 65535 \<and> bind p = Bound \<and> (\<forall>q. port \<le> q \<and> q < p \<longrightarrow> bind q = AddrInUse)
    | Inl (NoAvailablePort s) \<Rightarrow> s = start \<and> (\<forall>q. port \<le> q \<and> q \<le> 65535 \<longrightarrow> bind q = AddrInUse)
    | Inl BindError \<Rightarrow> (\<exists>p\<le>65535. port \<le> p \<and> bind p = BindFailed \<and>
        (\<forall>q. port \<le> q \<and> q < p \<longrightarrow> bind q = AddrInUse)))"
proof (induction bind start port rule: bind_from.induct)
  case (1 bind start port)
  have split: "(\<forall>q. port \<le> q \<and> P q \<longrightarrow> bind q = AddrInUse) \<longleftrightarrow>
      (P port \<longrightarrow> bind port = AddrInUse) \<and> (\<forall>q. port + 1 \<le> q \<and> P q \<longrightarrow> bind q = AddrInUse)" for P
    by (metis Suc_eq_plus1 le_antisym not_less_eq_eq order.refl le_Suc_eq)
  show ?case
  proof (cases "bind port")
    case Bound
    then show ?thesis using 1(2) by (auto simp: bind_from.simps [of bind start port])
  next
    case BindFailed
    then show ?thesis using 1(2) by (auto simp: bind_from.simps [of bind start port] intro!: exI [of _ port])
  next
    case AddrInUse
    show ?thesis
    proof (cases "65535 \<le> port")
      case True
      then have "bind_from bind start port = Inl (NoAvailablePort start)"
        using AddrInUse by (simp add: bind_from.simps [of bind start port])
      moreover have "bind q = AddrInUse" if "port \<le> q \<and> q \<le> 65535" for q
        using True AddrInUse that by (cases "q = port") auto
      ultimately show ?thesis using AddrInUse by simp
    next
      case False
      then have eq: "bind_from bind start port = bind_from bind start (port + 1)"
        using AddrInUse by (simp add: bind_from.simps [of bind start port])
      have "port + 1 \<le> 65535" using False by simp
      from 1(1) [OF AddrInUse False this] show ?thesis
        unfolding eq split using AddrInUse
        by (auto split: sum.splits bind_error.splits)
    qed
  qed
qed

text \<open>C40: \<open>bind_api_listener\<close> always returns. It binds the least port at or above the configured one
  that the system does not report as in use, keeps the address, and fails only when that port fails
  for another reason or no port is left.\<close>

theorem bind_api_listener_least_port:
  assumes "port \<le> 65535"
  shows "case bind_api_listener bind (addr, port) of
      Inr (addr', p) \<Rightarrow> addr' = addr \<and> port \<le> p \<and> p \<le> 65535 \<and> bind (addr, p) = Bound \<and>
        (\<forall>q. port \<le> q \<and> q < p \<longrightarrow> bind (addr, q) = AddrInUse)
    | Inl (NoAvailablePort s) \<Rightarrow> s = port \<and> (\<forall>q. port \<le> q \<and> q \<le> 65535 \<longrightarrow> bind (addr, q) = AddrInUse)
    | Inl BindError \<Rightarrow> (\<exists>p\<le>65535. port \<le> p \<and> bind (addr, p) = BindFailed \<and>
        (\<forall>q. port \<le> q \<and> q < p \<longrightarrow> bind (addr, q) = AddrInUse))"
  using bind_from_spec [OF assms, of port "\<lambda>p. bind (addr, p)"]
  by (cases "bind_from (\<lambda>p. bind (addr, p)) port port")
    (simp_all add: bind_api_listener_def)

definition two_busy_ports :: "socket_addr \<Rightarrow> bind_result" where
  "two_busy_ports a = (if snd a \<in> {8, 9} then AddrInUse else Bound)"

theorem bind_api_listener_least_port_witness:
  "bind_api_listener two_busy_ports (''0.0.0.0'', 8) = Inr (''0.0.0.0'', 10)"
proof -
  have no_error: "bind_from (\<lambda>p. two_busy_ports (''0.0.0.0'', p)) 8 8 = Inr 10"
    by (simp add: bind_from.simps two_busy_ports_def)
  then show ?thesis
    using bind_api_listener_least_port [of 8 two_busy_ports "''0.0.0.0''"]
    by (simp add: bind_api_listener_def)
qed

section \<open>Configurations that are read\<close>

definition config_ok :: "config \<Rightarrow> bool" where
  "config_ok c \<longleftrightarrow> int (c_worker_count c) \<le> u64_max \<and> int (c_worker_queue_size c) \<le> u64_max \<and>
     is_i64 (c_heap_lookahead_limit c) \<and> int (c_lease_duration c) \<le> u64_max \<and>
     is_i64 (c_max_retry_backoff_secs c) \<and> is_i32 (c_webhook_max_retries c)"

lemma or_else_InrD: "or_else r k = Inr b \<Longrightarrow> \<exists>a. r = Inr a \<and> k a = Inr b"
  by (cases r) (simp_all add: or_else_def)

lemma parse_int_range: "parse_int lo hi s = Some k \<Longrightarrow> lo \<le> 0 \<Longrightarrow> 0 \<le> hi \<Longrightarrow> lo \<le> k \<and> k \<le> hi"
  using parse_digits_up [of lo 0 hi] parse_digits_down [of hi 0 lo]
  by (cases s) (auto simp: parse_int_def checked_def bind_eq_Some_conv split: if_splits
      simp del: parse_digits.simps)

lemma parse_unsigned_range:
  "parse_usize env k d = Inr n \<Longrightarrow> int d \<le> u64_max \<Longrightarrow> int n \<le> u64_max"
  "parse_u64 env k d = Inr n \<Longrightarrow> int d \<le> u64_max \<Longrightarrow> int n \<le> u64_max"
  by (auto simp: parse_usize_def parse_u64_def parse_var_def int_limits dest!: parse_int_range
      split: option.splits)

lemma parse_signed_range:
  "parse_i64 env k d = Inr n \<Longrightarrow> is_i64 d \<Longrightarrow> is_i64 n"
  "parse_i32 env k d' = Inr n' \<Longrightarrow> is_i32 d' \<Longrightarrow> is_i32 n'"
  by (auto simp: parse_i64_def parse_i32_def parse_var_def is_i64_def is_i32_def int_limits
      dest!: parse_int_range split: option.splits)

text \<open>A configuration that is read has every number in the range of its field, and the program
  has no configuration without \<open>DATABASE_URL\<close>. No other condition is checked: a negative lookahead
  limit or a queue size of 0 is accepted.\<close>

theorem from_env_ranges:
  assumes "from_env parse_addr env = Inr c"
  shows "config_ok c \<and> env ''DATABASE_URL'' = Some (c_database_url c)"
proof -
  have defaults: "int 10 \<le> u64_max" "int 1000 \<le> u64_max" "int 30 \<le> u64_max"
      "is_i64 10000" "is_i64 3600" "is_i32 3"
    by (simp_all add: is_i64_def is_i32_def int_limits)
  have "int (c_worker_count c) \<le> u64_max" "int (c_worker_queue_size c) \<le> u64_max"
    "is_i64 (c_heap_lookahead_limit c)" "int (c_lease_duration c) \<le> u64_max"
    "is_i64 (c_max_retry_backoff_secs c)" "is_i32 (c_webhook_max_retries c)"
    using assms
    by (auto simp: from_env_def dest!: or_else_InrD
        dest: parse_unsigned_range(1) [OF _ defaults(1)] parse_unsigned_range(1) [OF _ defaults(2)]
          parse_unsigned_range(2) [OF _ defaults(3)] parse_signed_range(1) [OF _ defaults(4)]
          parse_signed_range(1) [OF _ defaults(5)] parse_signed_range(2) [OF _ defaults(6)]
        simp del: of_nat_numeral)
  moreover have "env ''DATABASE_URL'' = Some (c_database_url c)"
    using assms by (auto simp: from_env_def dest!: or_else_InrD split: option.splits)
  ultimately show ?thesis by (simp add: config_ok_def)
qed

definition sample_env :: env_vars where
  "sample_env = [''DATABASE_URL'' \<mapsto> ''db'', ''HEAP_LOOKAHEAD_LIMIT'' \<mapsto> ''-1'', ''WORKER_QUEUE_SIZE'' \<mapsto> ''2'']"

definition sample_config :: config where
  "sample_config =
     \<lparr>c_database_url = ''db'', c_api_listen_addr = (''0.0.0.0'', 2401), c_worker_count = 10,
      c_worker_queue_size = 2, c_heap_lookahead_limit = - 1, c_lease_duration = 30,
      c_lease_reaper_interval = 10, c_max_retry_backoff_secs = 3600, c_webhook_timeout = 5,
      c_webhook_max_retries = 3, c_script_safe_dir = ''/opt/daemon/scripts'', c_shutdown_timeout = 30\<rparr>"

lemma from_env_sample: "from_env (\<lambda>_. Some (''0.0.0.0'', 2401)) sample_env = Inr sample_config"
  by (simp add: from_env_def or_else_def parse_usize_def parse_u64_def parse_i64_def parse_i32_def
      parse_var_def sample_env_def sample_config_def parse_int_def digit_of_def checked_def int_limits)

theorem from_env_ranges_witness:
  "config_ok sample_config \<and> sample_env ''DATABASE_URL'' = Some ''db'' \<and>
   c_heap_lookahead_limit sample_config = - 1"
  using from_env_ranges [OF from_env_sample] by (simp add: sample_config_def)

end
