(* ===== verification/Job_Model.thy ===== *)
theory Job_Model
  imports Prelude
begin

text \<open>
  The domain types of \<open>src/models/job.rs\<close>: job states and concurrency policies with their text
  forms, payloads, the row read from the database and the job decoded from it, the response sent to
  clients, the entry of the scheduler's heap, and the retry delay.
\<close>

section \<open>Job states\<close>

datatype job_state =
    Scheduled | Leased | Running | Completed | Failed | Expired | Cancelled | DeadLetter

fun job_state_as_str :: "job_state \<Rightarrow> string" where
  "job_state_as_str Scheduled = ''SCHEDULED''"
| "job_state_as_str Leased = ''LEASED''"
| "job_state_as_str Running = ''RUNNING''"
| "job_state_as_str Completed = ''COMPLETED''"
| "job_state_as_str Failed = ''FAILED''"
| "job_state_as_str Expired = ''EXPIRED''"
| "job_state_as_str Cancelled = ''CANCELLED''"
| "job_state_as_str DeadLetter = ''DEAD_LETTER''"

definition job_state_from_str :: "string \<Rightarrow> job_state option" where
  "job_state_from_str s =
     (if s = ''SCHEDULED'' then Some Scheduled
      else if s = ''LEASED'' then Some Leased
      else if s = ''RUNNING'' then Some Running
      else if s = ''COMPLETED'' then Some Completed
      else if s = ''FAILED'' then Some Failed
      else if s = ''EXPIRED'' then Some Expired
      else if s = ''CANCELLED'' then Some Cancelled
      else if s = ''DEAD_LETTER'' then Some DeadLetter
      else None)"

fun is_terminal :: "job_state \<Rightarrow> bool" where
  "is_terminal Completed = True"
| "is_terminal Failed = True"
| "is_terminal Expired = True"
| "is_terminal DeadLetter = True"
| "is_terminal Cancelled = True"
| "is_terminal _ = False"

lemma job_state_from_as_str [simp]: "job_state_from_str (job_state_as_str st) = Some st"
  by (cases st) (simp_all add: job_state_from_str_def)

lemma job_state_from_str_SomeD: "job_state_from_str s = Some st \<Longrightarrow> s = job_state_as_str st"
  by (auto simp: job_state_from_str_def split: if_splits)

lemma job_state_as_str_inj [simp]: "job_state_as_str a = job_state_as_str b \<longleftrightarrow> a = b"
  by (metis job_state_from_as_str option.inject)

lemma job_state_as_str_eq [simp]:
  "job_state_as_str st = ''SCHEDULED'' \<longleftrightarrow> st = Scheduled"
  "job_state_as_str st = ''LEASED'' \<longleftrightarrow> st = Leased"
  "job_state_as_str st = ''RUNNING'' \<longleftrightarrow> st = Running"
  "job_state_as_str st = ''COMPLETED'' \<longleftrightarrow> st = Completed"
  "job_state_as_str st = ''FAILED'' \<longleftrightarrow> st = Failed"
  "job_state_as_str st = ''EXPIRED'' \<longleftrightarrow> st = Expired"
  "job_state_as_str st = ''CANCELLED'' \<longleftrightarrow> st = Cancelled"
  "job_state_as_str st = ''DEAD_LETTER'' \<longleftrightarrow> st = DeadLetter"
  by (cases st; simp)+

section \<open>Concurrency policies\<close>

datatype concurrency_policy = Skip | Allow | QueueOnce

fun policy_as_str :: "concurrency_policy \<Rightarrow> string" where
  "policy_as_str Skip = ''skip''"
| "policy_as_str Allow = ''allow''"
| "policy_as_str QueueOnce = ''queue_once''"

definition policy_from_str :: "string \<Rightarrow> concurrency_policy option" where
  "policy_from_str s =
     (if s = ''skip'' then Some Skip
      else if s = ''allow'' then Some Allow
      else if s = ''queue_once'' then Some QueueOnce
      else None)"

lemma policy_from_as_str [simp]: "policy_from_str (policy_as_str p) = Some p"
  by (cases p) (simp_all add: policy_from_str_def)

lemma policy_from_str_SomeD: "policy_from_str s = Some p \<Longrightarrow> s = policy_as_str p"
  by (auto simp: policy_from_str_def split: if_splits)

text \<open>The text forms of states and policies are read back exactly: a text is read as a state (a
  policy) if and only if it is the text that state (that policy) is written as.\<close>

theorem state_policy_text_forms:
  "(job_state_from_str s = Some st \<longleftrightarrow> s = job_state_as_str st) \<and>
   (policy_from_str s' = Some p \<longleftrightarrow> s' = policy_as_str p)"
  by (auto dest: job_state_from_str_SomeD policy_from_str_SomeD)

section \<open>Payloads\<close>

text \<open>
  A \<open>HashMap<String, String>\<close> of headers is an association list: its iteration order is not
  specified, and no definition depends on it. \<open>u64\<close> timeouts are \<open>nat\<close>.
\<close>

datatype job_payload =
    Http (http_method: string) (http_url: string) (http_headers: "(string \<times> string) list")
      (http_body: "string option") (http_timeout_sec: nat)
  | Script (script_path: string) (script_args: "string list") (script_timeout_sec: nat)

fun timeout_sec :: "job_payload \<Rightarrow> nat" where
  "timeout_sec (Http _ _ _ _ t) = t"
| "timeout_sec (Script _ _ t) = t"

text \<open>The values of \<open>serde_json\<close>, in which a payload is stored (column type JSONB).\<close>

datatype json =
    JNull | JBool bool | JNum int | JStr string | JArr "json list" | JObj "(string \<times> json) list"

section \<open>Requests\<close>

record recurrence_config =
  rc_cron_expr :: string
  rc_end_at :: "time option"
  rc_max_occurrences :: "int option"
  rc_concurrency_policy :: concurrency_policy

record create_job_request =
  req_idempotency_key :: string
  req_payload :: job_payload
  req_scheduled_at :: time
  req_expires_at :: "time option"
  req_max_retries :: int
  req_retry_delay_sec :: int
  req_webhook_url :: "string option"
  req_recurrence :: "recurrence_config option"

record patch_job_request =
  patch_cron_expr :: string

section \<open>Rows, jobs and responses\<close>

record job =
  job_id :: uuid
  job_idempotency_key :: string
  job_client_id :: "uuid option"
  job_payload_of :: job_payload
  job_state_of :: job_state
  job_scheduled_at :: time
  job_leased_until :: "time option"
  job_expires_at :: "time option"
  job_attempt_count :: int
  job_max_retries :: int
  job_retry_delay_sec :: int
  job_created_at :: time
  job_updated_at :: time
  job_webhook_url :: "string option"
  job_webhook_success :: "bool option"
  job_webhook_attempts :: int
  job_is_recurring :: bool
  job_cron_expr :: "string option"
  job_next_instance_at :: "time option"
  job_max_occurrences :: "int option"
  job_occurrences_completed :: int
  job_recurrence_end_at :: "time option"
  job_parent_job_id :: "uuid option"
  job_concurrency_policy :: concurrency_policy
  job_is_template :: bool

record job_row =
  row_id :: uuid
  row_idempotency_key :: string
  row_client_id :: "uuid option"
  row_payload :: json
  row_state :: string
  row_scheduled_at :: time
  row_leased_until :: "time option"
  row_expires_at :: "time option"
  row_attempt_count :: int
  row_max_retries :: int
  row_retry_delay_sec :: int
  row_created_at :: time
  row_updated_at :: time
  row_webhook_url :: "string option"
  row_webhook_success :: "bool option"
  row_webhook_attempts :: int
  row_is_recurring :: bool
  row_cron_expr :: "string option"
  row_next_instance_at :: "time option"
  row_max_occurrences :: "int option"
  row_occurrences_completed :: int
  row_recurrence_end_at :: "time option"
  row_parent_job_id :: "uuid option"
  row_concurrency_policy :: string
  row_is_template :: bool

record job_response =
  resp_id :: uuid
  resp_idempotency_key :: string
  resp_state :: job_state
  resp_payload :: job_payload
  resp_scheduled_at :: time
  resp_expires_at :: "time option"
  resp_attempt_count :: int
  resp_max_retries :: int
  resp_retry_delay_sec :: int
  resp_webhook_url :: "string option"
  resp_is_recurring :: bool
  resp_cron_expr :: "string option"
  resp_next_instance_at :: "time option"
  resp_max_occurrences :: "int option"
  resp_occurrences_completed :: int
  resp_recurrence_end_at :: "time option"
  resp_parent_job_id :: "uuid option"
  resp_concurrency_policy :: concurrency_policy
  resp_is_template :: bool
  resp_created_at :: time
  resp_updated_at :: time

datatype decode_error = UnknownJobState string | InvalidPayload

text \<open>
  \<open>Job::from_row\<close>. The decoder of the payload column (\<open>serde_json::from_value\<close>) is an argument.
  An unknown policy is read as \<open>QueueOnce\<close>, an unknown state is an error.
\<close>

definition from_row :: "(json \<Rightarrow> job_payload option) \<Rightarrow> job_row \<Rightarrow> decode_error + job" where
  "from_row from_value r =
     (case job_state_from_str (row_state r) of
        None \<Rightarrow> Inl (UnknownJobState (row_state r))
      | Some st \<Rightarrow>
          (case from_value (row_payload r) of
             None \<Rightarrow> Inl InvalidPayload
           | Some payload \<Rightarrow> Inr
              \<lparr>job_id = row_id r,
                job_idempotency_key = row_idempotency_key r,
                job_client_id = row_client_id r,
                job_payload_of = payload,
                job_state_of = st,
                job_scheduled_at = row_scheduled_at r,
                job_leased_until = row_leased_until r,
                job_expires_at = row_expires_at r,
                job_attempt_count = row_attempt_count r,
                job_max_retries = row_max_retries r,
                job_retry_delay_sec = row_retry_delay_sec r,
                job_created_at = row_created_at r,
                job_updated_at = row_updated_at r,
                job_webhook_url = row_webhook_url r,
                job_webhook_success = row_webhook_success r,
                job_webhook_attempts = row_webhook_attempts r,
                job_is_recurring = row_is_recurring r,
                job_cron_expr = row_cron_expr r,
                job_next_instance_at = row_next_instance_at r,
                job_max_occurrences = row_max_occurrences r,
                job_occurrences_completed = row_occurrences_completed r,
                job_recurrence_end_at = row_recurrence_end_at r,
                job_parent_job_id = row_parent_job_id r,
                job_concurrency_policy = (case policy_from_str (row_concurrency_policy r) of None \<Rightarrow> QueueOnce | Some p \<Rightarrow> p),
                job_is_template = row_is_template r\<rparr>))"

definition response_of_job :: "job \<Rightarrow> job_response" where
  "response_of_job j =
     \<lparr>resp_id = job_id j,
      resp_idempotency_key = job_idempotency_key j,
      resp_state = job_state_of j,
      resp_payload = job_payload_of j,
      resp_scheduled_at = job_scheduled_at j,
      resp_expires_at = job_expires_at j,
      resp_attempt_count = job_attempt_count j,
      resp_max_retries = job_max_retries j,
      resp_retry_delay_sec = job_retry_delay_sec j,
      resp_webhook_url = job_webhook_url j,
      resp_is_recurring = job_is_recurring j,
      resp_cron_expr = job_cron_expr j,
      resp_next_instance_at = job_next_instance_at j,
      resp_max_occurrences = job_max_occurrences j,
      resp_occurrences_completed = job_occurrences_completed j,
      resp_recurrence_end_at = job_recurrence_end_at j,
      resp_parent_job_id = job_parent_job_id j,
      resp_concurrency_policy = job_concurrency_policy j,
      resp_is_template = job_is_template j,
      resp_created_at = job_created_at j,
      resp_updated_at = job_updated_at j\<rparr>"

lemma from_row_InrD:
  assumes "from_row dec r = Inr j"
  shows "job_id j = row_id r" "job_idempotency_key j = row_idempotency_key r"
    "job_client_id j = row_client_id r" "dec (row_payload r) = Some (job_payload_of j)"
    "row_state r = job_state_as_str (job_state_of j)"
    "job_scheduled_at j = row_scheduled_at r" "job_leased_until j = row_leased_until r"
    "job_expires_at j = row_expires_at r" "job_attempt_count j = row_attempt_count r"
    "job_max_retries j = row_max_retries r" "job_retry_delay_sec j = row_retry_delay_sec r"
    "job_webhook_url j = row_webhook_url r" "job_webhook_attempts j = row_webhook_attempts r"
    "job_is_recurring j = row_is_recurring r" "job_cron_expr j = row_cron_expr r"
    "job_max_occurrences j = row_max_occurrences r"
    "job_occurrences_completed j = row_occurrences_completed r"
    "job_recurrence_end_at j = row_recurrence_end_at r"
    "job_parent_job_id j = row_parent_job_id r" "job_is_template j = row_is_template r"
  using assms
  by (auto simp: from_row_def dest!: job_state_from_str_SomeD split: option.splits)

lemma from_row_policy:
  assumes "from_row dec r = Inr j" and "row_concurrency_policy r = policy_as_str p"
  shows "job_concurrency_policy j = p"
  using assms by (auto simp: from_row_def split: option.splits)

lemma from_row_total:
  assumes "job_state_from_str (row_state r) \<noteq> None" and "dec (row_payload r) \<noteq> None"
  shows "\<exists>j. from_row dec r = Inr j"
  using assms by (auto simp: from_row_def)

section \<open>Entries of the scheduler's heap\<close>

text \<open>
  \<open>Ord\<close> for \<open>ScheduledJob\<close> compares the other way round, so the greatest element of a max-heap is
  the earliest job. Two jobs of the same instant are equal for \<open>cmp\<close> and different for \<open>Eq\<close>: the
  order is a total preorder.
\<close>

datatype scheduled_job = ScheduledJob (sj_id: uuid) (sj_scheduled_at: time)

datatype ordering = Less | Equal | Greater

definition time_cmp :: "time \<Rightarrow> time \<Rightarrow> ordering" where
  "time_cmp a b = (if a < b then Less else if a = b then Equal else Greater)"

definition scheduled_job_cmp :: "scheduled_job \<Rightarrow> scheduled_job \<Rightarrow> ordering" where
  "scheduled_job_cmp self other = time_cmp (sj_scheduled_at other) (sj_scheduled_at self)"

instantiation scheduled_job :: preorder
begin

definition less_eq_scheduled_job :: "scheduled_job \<Rightarrow> scheduled_job \<Rightarrow> bool" where
  "a \<le> b \<longleftrightarrow> scheduled_job_cmp a b \<noteq> Greater"

definition less_scheduled_job :: "scheduled_job \<Rightarrow> scheduled_job \<Rightarrow> bool" where
  "a < b \<longleftrightarrow> scheduled_job_cmp a b = Less"

instance
  by standard
    (auto simp: less_eq_scheduled_job_def less_scheduled_job_def scheduled_job_cmp_def
      time_cmp_def split: if_splits)

end

lemma scheduled_job_le [simp]: "a \<le> b \<longleftrightarrow> sj_scheduled_at b \<le> sj_scheduled_at a"
  by (auto simp: less_eq_scheduled_job_def scheduled_job_cmp_def time_cmp_def)

lemma scheduled_job_less [simp]: "a < b \<longleftrightarrow> sj_scheduled_at b < sj_scheduled_at a"
  by (auto simp: less_scheduled_job_def scheduled_job_cmp_def time_cmp_def)

section \<open>The retry delay\<close>

text \<open>
  \<open>compute_retry_delay\<close>: \<open>saturating_sub\<close> and \<open>saturating_pow\<close> saturate, the product of two
  \<open>i64\<close> wraps in the release build.
\<close>

definition compute_retry_delay :: "int \<Rightarrow> int \<Rightarrow> int \<Rightarrow> int" where
  "compute_retry_delay retry_delay_sec attempt_count max_backoff_secs =
     (let exp = nat (max (saturate_i32 (attempt_count - 1)) 0);
          delay = wrap_i64 (retry_delay_sec * saturate_i64 (2 ^ exp))
      in min delay max_backoff_secs)"

lemma retry_exponent: "is_i32 a \<Longrightarrow> nat (max (saturate_i32 (a - 1)) 0) = nat (a - 1)"
  by (auto simp: saturate_i32_def is_i32_def int_limits)

lemma is_i64_scaled:
  assumes "is_i32 r" "n \<le> 32"
  shows "is_i64 (r * 2 ^ n)"
proof -
  have le: "(2::int) ^ n \<le> 4294967296" using power_increasing [OF assms(2), of "2::int"] by simp
  have r: "- 2147483648 \<le> r" "r \<le> 2147483647" using assms(1) by (simp_all add: is_i32_def int_limits)
  have "- 2147483648 * 2 ^ n \<le> r * 2 ^ n" "r * 2 ^ n \<le> 2147483647 * 2 ^ n"
    by (rule mult_right_mono [OF r(1)], simp) (rule mult_right_mono [OF r(2)], simp)
  with le show ?thesis unfolding is_i64_def int_limits by (intro conjI) linarith+
qed

lemma saturate_i64_id: "is_i64 k \<Longrightarrow> saturate_i64 k = k"
  by (simp add: saturate_i64_def is_i64_def)

lemma retry_delay_exact_lemma:
  assumes "is_i32 retry_delay_sec" "is_i32 attempt_count" "attempt_count \<le> 33"
  shows "compute_retry_delay retry_delay_sec attempt_count max_backoff =
           min (retry_delay_sec * 2 ^ nat (attempt_count - 1)) max_backoff"
proof -
  let ?n = "nat (attempt_count - 1)"
  have "is_i64 (2 ^ ?n)" using is_i64_scaled [of 1 ?n] assms(3) by (simp add: is_i32_def int_limits)
  then have "saturate_i64 (2 ^ ?n) = 2 ^ ?n" by (rule saturate_i64_id)
  moreover have "is_i64 (retry_delay_sec * 2 ^ ?n)"
    using assms(1,3) by (intro is_i64_scaled) auto
  ultimately show ?thesis
    by (simp add: compute_retry_delay_def retry_exponent [OF assms(2)] Let_def)
qed

text \<open>Up to the 33rd attempt the retry delay is the exact exponential backoff
  \<open>retry_delay_sec * 2 ^ (attempt - 1)\<close>, capped at the configured maximum; no operation overflows.\<close>

theorem retry_delay_exact:
  assumes "is_i32 retry_delay_sec" "is_i32 attempt_count" "attempt_count \<le> 33"
  shows "compute_retry_delay retry_delay_sec attempt_count max_backoff =
           min (retry_delay_sec * 2 ^ nat (attempt_count - 1)) max_backoff"
  using assms by (rule retry_delay_exact_lemma)

theorem retry_delay_exact_witness:
  "compute_retry_delay 60 2 3600 = min (60 * 2 ^ nat (2 - 1)) 3600"
  by (rule retry_delay_exact) (simp_all add: is_i32_def int_limits)

lemma wrap_i64_even_minus:
  assumes "even r" "is_i32 r"
  shows "wrap_i64 (r * i64_max) = - r"
proof -
  obtain k where k: "r = 2 * k" using assms(1) by blast
  have "wrap_i64 (r * i64_max) = wrap_i64 (- r)"
    unfolding wrap_i64_def signed_take_bit_eq_iff_take_bit_eq take_bit_eq_mod
    by (simp add: k int_limits mod_eq_dvd_iff)
  also have "\<dots> = - r"
    using assms(2) by (intro wrap_i64_id) (auto simp: is_i64_def is_i32_def int_limits)
  finally show ?thesis .
qed

text \<open>From the 64th attempt on the power saturates at \<open>i64::MAX\<close> and the product wraps: for an
  even retry delay the result is the negated delay, an instant in the past, and the configured
  maximum has no effect.\<close>

theorem retry_delay_wraps:
  assumes "is_i32 retry_delay_sec" "even retry_delay_sec" "is_i32 attempt_count" "64 \<le> attempt_count"
  shows "compute_retry_delay retry_delay_sec attempt_count max_backoff = min (- retry_delay_sec) max_backoff"
proof -
  have "(2::int) ^ 63 \<le> 2 ^ nat (attempt_count - 1)"
    using assms(4) by (intro power_increasing) auto
  then have "saturate_i64 (2 ^ nat (attempt_count - 1)) = i64_max"
    by (simp add: saturate_i64_def int_limits)
  then show ?thesis
    by (simp add: compute_retry_delay_def retry_exponent [OF assms(3)] wrap_i64_even_minus assms Let_def)
qed

theorem retry_delay_wraps_witness: "compute_retry_delay 60 64 3600 = min (- 60) 3600"
  by (rule retry_delay_wraps) (simp_all add: is_i32_def int_limits)

lemma retry_delay_cap: "compute_retry_delay r a m \<le> m"
  by (simp add: compute_retry_delay_def Let_def)

end
