(* ===== verification/Binary_Heap.thy ===== *)
theory Binary_Heap
  imports Job_Model
begin

text \<open>
  The max-heap the scheduler keeps its jobs in: \<open>std::collections::BinaryHeap\<close>, an array in which
  the parent of index \<open>i\<close> is \<open>(i - 1) / 2\<close>. The functions follow the standard library
  (\<open>sift_up\<close>, \<open>sift_down\<close>, \<open>sift_down_to_bottom\<close>, \<open>rebuild\<close>), where the movement of a hole is
  written as a swap. The interface the scheduler uses is the locale \<open>job_queue\<close>, which this theory
  proves of the array heap.
\<close>

section \<open>The array heap of the standard library\<close>

definition parent :: "nat \<Rightarrow> nat" where
  "parent i = (i - 1) div 2"

definition swap :: "'a list \<Rightarrow> nat \<Rightarrow> nat \<Rightarrow> 'a list" where
  "swap xs i j = xs[i := xs ! j, j := xs ! i]"

lemma length_swap [simp]: "length (swap xs i j) = length xs"
  by (simp add: swap_def)

lemma nth_swap:
  "i < length xs \<Longrightarrow> j < length xs \<Longrightarrow> k < length xs \<Longrightarrow>
     swap xs i j ! k = (if k = j then xs ! i else if k = i then xs ! j else xs ! k)"
  by (simp add: swap_def nth_list_update)

lemma mset_swap_nth: "i < length xs \<Longrightarrow> j < length xs \<Longrightarrow> mset (swap xs i j) = mset xs"
  by (simp add: swap_def mset_swap)

function sift_up :: "scheduled_job list \<Rightarrow> nat \<Rightarrow> nat \<Rightarrow> scheduled_job list" where
  "sift_up xs start pos =
     (if start < pos
      then (let p = parent pos in
            if xs ! pos \<le> xs ! p then xs else sift_up (swap xs pos p) start p)
      else xs)"
  by pat_completeness auto
termination
  by (relation "measure (\<lambda>(xs, start, pos). pos)") (auto simp: parent_def)

text \<open>The greater of the two children of a position (the right one when they compare equal).\<close>

definition greater_child :: "scheduled_job list \<Rightarrow> nat \<Rightarrow> nat" where
  "greater_child xs child = (if xs ! child \<le> xs ! (child + 1) then child + 1 else child)"

function sift_down :: "scheduled_job list \<Rightarrow> nat \<Rightarrow> scheduled_job list" where
  "sift_down xs pos =
     (let child = 2 * pos + 1 in
      if child \<le> length xs - 2
      then (let c = greater_child xs child in
            if xs ! c \<le> xs ! pos then xs else sift_down (swap xs pos c) c)
      else if child = length xs - 1 \<and> xs ! pos < xs ! child then swap xs pos child
      else xs)"
  by pat_completeness auto
termination
  by (relation "measure (\<lambda>(xs, pos). length xs - pos)") (auto simp: greater_child_def)

function sift_down_to_bottom :: "scheduled_job list \<Rightarrow> nat \<Rightarrow> scheduled_job list" where
  "sift_down_to_bottom xs pos =
     (let child = 2 * pos + 1 in
      if child \<le> length xs - 2
      then (let c = greater_child xs child in sift_down_to_bottom (swap xs pos c) c)
      else if child = length xs - 1 then sift_up (swap xs pos child) 0 child
      else sift_up xs 0 pos)"
  by pat_completeness auto
termination
  by (relation "measure (\<lambda>(xs, pos). length xs - pos)") (auto simp: greater_child_def)

declare sift_up.simps [simp del] sift_down.simps [simp del] sift_down_to_bottom.simps [simp del]

fun rebuild_from :: "nat \<Rightarrow> scheduled_job list \<Rightarrow> scheduled_job list" where
  "rebuild_from 0 xs = xs"
| "rebuild_from (Suc n) xs = rebuild_from n (sift_down xs n)"

definition build_heap :: "scheduled_job list \<Rightarrow> scheduled_job list" where
  "build_heap jobs = rebuild_from (length jobs div 2) jobs"

fun heap_peek :: "scheduled_job list \<Rightarrow> scheduled_job option" where
  "heap_peek [] = None"
| "heap_peek (x # _) = Some x"

fun heap_pop :: "scheduled_job list \<Rightarrow> (scheduled_job \<times> scheduled_job list) option" where
  "heap_pop [] = None"
| "heap_pop (x # xs) =
     (let item = last (x # xs); data = butlast (x # xs) in
      if data = [] then Some (item, data)
      else Some (hd data, sift_down_to_bottom (data[0 := item]) 0))"

section \<open>The heap property\<close>

definition heap_ok :: "scheduled_job list \<Rightarrow> bool" where
  "heap_ok xs \<longleftrightarrow> (\<forall>i. 0 < i \<and> i < length xs \<longrightarrow> xs ! i \<le> xs ! parent i)"

text \<open>The heap property for the positions whose parent is at least \<open>k\<close> and is not \<open>p\<close>.\<close>

definition ok_below :: "scheduled_job list \<Rightarrow> nat \<Rightarrow> nat \<Rightarrow> bool" where
  "ok_below xs k p \<longleftrightarrow>
     (\<forall>i. 0 < i \<and> i < length xs \<and> k \<le> parent i \<and> parent i \<noteq> p \<longrightarrow> xs ! i \<le> xs ! parent i) \<and>
     (\<forall>i. 0 < i \<and> i < length xs \<and> parent i = p \<and> 0 < p \<and> k \<le> parent p \<longrightarrow> xs ! i \<le> xs ! parent p)"

definition ok_from :: "scheduled_job list \<Rightarrow> nat \<Rightarrow> bool" where
  "ok_from xs k \<longleftrightarrow>
     (\<forall>i. 0 < i \<and> i < length xs \<and> k \<le> parent i \<longrightarrow> xs ! i \<le> xs ! parent i)"

text \<open>The heap property everywhere but at the position of the element being sifted up.\<close>

definition ok_above :: "scheduled_job list \<Rightarrow> nat \<Rightarrow> bool" where
  "ok_above xs p \<longleftrightarrow>
     (\<forall>i. 0 < i \<and> i < length xs \<and> i \<noteq> p \<longrightarrow> xs ! i \<le> xs ! parent i) \<and>
     (\<forall>i. 0 < i \<and> i < length xs \<and> parent i = p \<and> 0 < p \<longrightarrow> xs ! i \<le> xs ! parent p)"

text \<open>The heap property everywhere but around the hole at \<open>p\<close>.\<close>

definition ok_hole :: "scheduled_job list \<Rightarrow> nat \<Rightarrow> bool" where
  "ok_hole xs p \<longleftrightarrow>
     (\<forall>i. 0 < i \<and> i < length xs \<and> i \<noteq> p \<and> parent i \<noteq> p \<longrightarrow> xs ! i \<le> xs ! parent i) \<and>
     (\<forall>i. 0 < i \<and> i < length xs \<and> parent i = p \<and> 0 < p \<longrightarrow> xs ! i \<le> xs ! parent p)"

lemma parent_less: "0 < i \<Longrightarrow> parent i < i"
  by (auto simp: parent_def)

lemma parent_eq: "0 < i \<Longrightarrow> parent i = p \<longleftrightarrow> i = 2 * p + 1 \<or> i = 2 * p + 2"
  by (auto simp: parent_def)

lemma parent_child [simp]: "parent (2 * p + 1) = p" "parent (2 * p + 2) = p"
    "parent (Suc (2 * p)) = p" "parent (Suc (Suc (2 * p))) = p"
  by (auto simp: parent_def)

section \<open>Sifting keeps the heap property and the elements\<close>

lemma sift_up_heap:
  assumes "ok_above xs pos" "pos < length xs"
  shows "heap_ok (sift_up xs 0 pos)"
  using assms
proof (induction xs "0::nat" pos rule: sift_up.induct)
  case (1 xs pos)
  let ?p = "parent pos" and ?ys = "swap xs pos (parent pos)"
  show ?case
  proof (cases "0 < pos \<and> \<not> xs ! pos \<le> xs ! ?p")
    case False
    have "heap_ok xs"
      using False "1.prems"(1) unfolding heap_ok_def ok_above_def by blast
    with False show ?thesis by (auto simp: sift_up.simps [of xs 0 pos] Let_def)
  next
    case True
    then have lt: "?p < pos" by (simp add: parent_less)
    have gt: "xs ! ?p \<le> xs ! pos" using True by simp
    have ys: "?ys ! k = (if k = ?p then xs ! pos else if k = pos then xs ! ?p else xs ! k)"
      if "k < length xs" for k
      using that lt "1.prems"(2) by (simp add: nth_swap)
    have o1: "xs ! i \<le> xs ! parent i" if "0 < i" "i < length xs" "i \<noteq> pos" for i
      using "1.prems"(1) that unfolding ok_above_def by blast
    have o2: "xs ! i \<le> xs ! ?p" if "0 < i" "i < length xs" "parent i = pos" for i
      using "1.prems"(1) that True unfolding ok_above_def by blast
    have "ok_above ?ys ?p"
      unfolding ok_above_def
    proof (intro conjI allI impI; elim conjE)
      fix i assume i: "0 < i" "i < length ?ys" "i \<noteq> ?p"
      have pi: "parent i < length xs" using i parent_less [of i] by simp
      show "?ys ! i \<le> ?ys ! parent i"
        using i pi ys[of i] ys[of "parent i"] o1[of i] o2[of i] gt lt True parent_less[of i]
        by (auto split: if_splits)
    next
      fix i assume i: "0 < i" "i < length ?ys" "parent i = ?p" "0 < ?p"
      have pp: "parent ?p < ?p" using i by (simp add: parent_less)
      show "?ys ! i \<le> ?ys ! parent ?p"
        using i pp lt "1.prems"(2) ys[of i] ys[of "parent ?p"] o1[of i] o1[of ?p] parent_less[of i]
        by (auto split: if_splits)
    qed
    with True "1.hyps" [of ?p] lt "1.prems"(2) show ?thesis
      by (simp add: sift_up.simps [of xs 0 pos] Let_def)
  qed
qed

lemma mset_sift_up: "pos < length xs \<Longrightarrow> mset (sift_up xs start pos) = mset xs"
proof (induction xs start pos rule: sift_up.induct)
  case (1 xs start pos)
  show ?case
  proof (cases "start < pos \<and> \<not> xs ! pos \<le> xs ! parent pos")
    case True
    then have "parent pos < pos" by (simp add: parent_less)
    with True 1 show ?thesis
      by (simp add: sift_up.simps [of xs start pos] Let_def mset_swap_nth)
  next
    case False
    then show ?thesis by (auto simp: sift_up.simps [of xs start pos] Let_def)
  qed
qed

lemma greater_child_cases:
  "child + 1 < length xs \<Longrightarrow> greater_child xs child \<in> {child, child + 1} \<and>
     xs ! child \<le> xs ! greater_child xs child \<and> xs ! (child + 1) \<le> xs ! greater_child xs child"
  by (auto simp: greater_child_def)

lemma greater_child_parent:
  assumes "2 * pos + 1 \<le> length xs - 2"
  shows "greater_child xs (2 * pos + 1) < length xs" "pos < greater_child xs (2 * pos + 1)"
    "parent (greater_child xs (2 * pos + 1)) = pos"
  using assms by (auto simp: greater_child_def)

text \<open>The element moved up from the greater child dominates both children of the hole.\<close>

lemma children_le_greater:
  assumes "2 * pos + 1 \<le> length xs - 2" "0 < i" "parent i = pos"
  shows "xs ! i \<le> xs ! greater_child xs (2 * pos + 1)"
  using assms greater_child_cases [of "2 * pos + 1" xs] parent_eq [of i pos] by auto

lemma ok_below_step:
  assumes "ok_below xs k pos" "k \<le> pos" "2 * pos + 1 \<le> length xs - 2"
    and c: "c = greater_child xs (2 * pos + 1)" and "\<not> xs ! c \<le> xs ! pos"
  shows "ok_below (swap xs pos c) k c"
proof -
  let ?ys = "swap xs pos c"
  note gc = greater_child_parent [OF assms(3), folded c]
  have ys: "?ys ! j = (if j = c then xs ! pos else if j = pos then xs ! c else xs ! j)"
    if "j < length xs" for j
    using that gc by (simp add: nth_swap)
  have o1: "xs ! i \<le> xs ! parent i" if "0 < i" "i < length xs" "k \<le> parent i" "parent i \<noteq> pos" for i
    using assms(1) that unfolding ok_below_def by blast
  have o2: "xs ! i \<le> xs ! parent pos" if "0 < i" "i < length xs" "parent i = pos" "0 < pos" "k \<le> parent pos" for i
    using assms(1) that unfolding ok_below_def by blast
  have sib: "xs ! i \<le> xs ! c" if "0 < i" "parent i = pos" for i
    using children_le_greater [OF assms(3) that] c by simp
  show ?thesis
    unfolding ok_below_def
  proof (intro conjI allI impI; elim conjE)
    fix i assume i: "0 < i" "i < length ?ys" "k \<le> parent i" "parent i \<noteq> c"
    show "?ys ! i \<le> ?ys ! parent i"
      using i ys [of i] ys [of "parent i"] o1 [of i] o2 [of c] sib [of i] gc assms(5) parent_less [of i]
      by (auto split: if_splits)
  next
    fix i assume i: "0 < i" "i < length ?ys" "parent i = c" "0 < c" "k \<le> parent c"
    show "?ys ! i \<le> ?ys ! parent c"
      using i ys [of i] ys [of pos] o1 [of i] gc parent_less [of i] assms(2)
      by (auto split: if_splits)
  qed
qed

lemma sift_down_ok:
  assumes "ok_below xs k pos" "k \<le> pos" "pos < length xs"
  shows "ok_from (sift_down xs pos) k"
  using assms
proof (induction xs pos rule: sift_down.induct)
  case (1 xs pos)
  let ?child = "2 * pos + 1"
  let ?c = "greater_child xs ?child"
  have stop: "ok_from xs k" if "\<And>i. 0 < i \<Longrightarrow> i < length xs \<Longrightarrow> parent i = pos \<Longrightarrow> xs ! i \<le> xs ! pos"
    using "1.prems"(1) that unfolding ok_below_def ok_from_def by metis
  consider (inner) "?child \<le> length xs - 2" "xs ! ?c \<le> xs ! pos"
    | (move) "?child \<le> length xs - 2" "\<not> xs ! ?c \<le> xs ! pos"
    | (last) "\<not> ?child \<le> length xs - 2" "?child = length xs - 1" "xs ! pos < xs ! ?child"
    | (leaf) "\<not> ?child \<le> length xs - 2" "\<not> (?child = length xs - 1 \<and> xs ! pos < xs ! ?child)"
    by blast
  then show ?case
  proof cases
    case inner
    have "xs ! i \<le> xs ! pos" if "0 < i" "parent i = pos" for i
      using children_le_greater [OF inner(1) that] inner(2) order_trans by blast
    with stop inner show ?thesis by (simp add: sift_down.simps [of xs pos] Let_def)
  next
    case move
    note gc = greater_child_parent [OF move(1)]
    have "ok_below (swap xs pos ?c) k ?c"
      using ok_below_step [OF "1.prems"(1,2) move(1) refl move(2)] .
    with "1.IH" [OF refl _ refl] move gc "1.prems" show ?thesis
      by (simp add: sift_down.simps [of xs pos] Let_def)
  next
    case last
    let ?ys = "swap xs pos ?child"
    have n: "?child < length xs" "length xs = ?child + 1" using last "1.prems"(3) by auto
    have ys: "?ys ! j = (if j = ?child then xs ! pos else if j = pos then xs ! ?child else xs ! j)"
      if "j < length xs" for j
      using that n by (simp add: nth_swap)
    have "?ys ! i \<le> ?ys ! parent i" if i: "0 < i" "i < length xs" "k \<le> parent i" for i
    proof (cases "parent i = pos")
      case True
      then have "i = ?child" using i n by (auto simp: parent_eq)
      with True last n ys [of ?child] ys [of pos] "1.prems"(3) show ?thesis by simp
    next
      case False
      then have "i \<noteq> ?child" by auto
      then have ic: "i < ?child" using i n by simp
      then have "parent i < ?child" using parent_less [OF i(1)] by simp
      moreover have "xs ! ?child \<le> xs ! parent pos" if "i = pos"
        using "1.prems"(1) n i that parent_less [of pos] unfolding ok_below_def by auto
      moreover have "xs ! i \<le> xs ! parent i"
        using "1.prems"(1) i False unfolding ok_below_def by blast
      ultimately show ?thesis
        using False ic i ys [of i] ys [of "parent i"] parent_less [OF i(1)] by (auto split: if_splits)
    qed
    then have "ok_from ?ys k" by (simp add: ok_from_def)
    with last show ?thesis by (simp add: sift_down.simps [of xs pos] Let_def)
  next
    case leaf
    have "xs ! i \<le> xs ! pos" if i: "0 < i" "i < length xs" "parent i = pos" for i
    proof -
      have "i = ?child" "?child = length xs - 1" using i leaf(1) by (auto simp: parent_eq)
      with leaf(2) show ?thesis by simp
    qed
    moreover have "sift_down xs pos = xs"
      by (subst sift_down.simps) (simp only: Let_def leaf if_False)
    ultimately show ?thesis using stop by simp
  qed
qed

lemma mset_sift_down: "pos < length xs \<Longrightarrow> mset (sift_down xs pos) = mset xs"
proof (induction xs pos rule: sift_down.induct)
  case (1 xs pos)
  let ?child = "2 * pos + 1"
  let ?c = "greater_child xs ?child"
  show ?case
  proof (cases "?child \<le> length xs - 2")
    case True
    note gc = greater_child_parent [OF True]
    show ?thesis
      using "1.IH" [OF refl True refl] True gc "1.prems"
      by (simp add: sift_down.simps [of xs pos] Let_def mset_swap_nth)
  next
    case False
    then show ?thesis
      using "1.prems" by (auto simp: sift_down.simps [of xs pos] Let_def mset_swap_nth)
  qed
qed

lemma ok_hole_step:
  assumes "ok_hole xs pos" "pos < c" "c < length xs" "parent c = pos"
    and "\<And>i. 0 < i \<Longrightarrow> i < length xs \<Longrightarrow> parent i = pos \<Longrightarrow> xs ! i \<le> xs ! c"
  shows "ok_hole (swap xs pos c) c"
proof -
  let ?ys = "swap xs pos c"
  have ys: "?ys ! j = (if j = c then xs ! pos else if j = pos then xs ! c else xs ! j)"
    if "j < length xs" for j
    using that assms(2,3) by (simp add: nth_swap)
  have o1: "xs ! i \<le> xs ! parent i"
    if "0 < i" "i < length xs" "i \<noteq> pos" "parent i \<noteq> pos" for i
    using assms(1) that unfolding ok_hole_def by blast
  have o2: "xs ! i \<le> xs ! parent pos"
    if "0 < i" "i < length xs" "parent i = pos" "0 < pos" for i
    using assms(1) that unfolding ok_hole_def by blast
  show ?thesis
    unfolding ok_hole_def
  proof (intro conjI allI impI; elim conjE)
    fix i assume i: "0 < i" "i < length ?ys" "i \<noteq> c" "parent i \<noteq> c"
    show "?ys ! i \<le> ?ys ! parent i"
      using i ys [of i] ys [of "parent i"] o1 [of i] o2 [of c] assms(2-4) assms(5) [of i]
        parent_less [of i]
      by (auto split: if_splits)
  next
    fix i assume i: "0 < i" "i < length ?ys" "parent i = c" "0 < c"
    show "?ys ! i \<le> ?ys ! parent c"
      using i ys [of i] ys [of pos] o1 [of i] assms(2-4) parent_less [of i]
      by (auto split: if_splits)
  qed
qed

lemma ok_hole_leaf:
  assumes "ok_hole xs pos" "\<And>i. 0 < i \<Longrightarrow> i < length xs \<Longrightarrow> parent i \<noteq> pos"
  shows "ok_above xs pos"
  using assms unfolding ok_hole_def ok_above_def by blast

lemma sift_down_to_bottom_ok:
  assumes "ok_hole xs pos" "pos < length xs"
  shows "heap_ok (sift_down_to_bottom xs pos) \<and> mset (sift_down_to_bottom xs pos) = mset xs"
  using assms
proof (induction xs pos rule: sift_down_to_bottom.induct)
  case (1 xs pos)
  let ?child = "2 * pos + 1"
  let ?c = "greater_child xs ?child"
  consider (move) "?child \<le> length xs - 2" | (last) "\<not> ?child \<le> length xs - 2" "?child = length xs - 1"
    | (leaf) "\<not> ?child \<le> length xs - 2" "?child \<noteq> length xs - 1"
    by blast
  then show ?case
  proof cases
    case move
    note gc = greater_child_parent [OF move]
    have "ok_hole (swap xs pos ?c) ?c"
      using gc "1.prems" children_le_greater [OF move] by (intro ok_hole_step) auto
    with "1.IH" [OF refl move refl] move gc "1.prems" show ?thesis
      by (simp add: sift_down_to_bottom.simps [of xs pos] Let_def mset_swap_nth)
  next
    case last
    let ?ys = "swap xs pos ?child"
    have n: "?child < length xs" "length xs = ?child + 1" using last "1.prems"(2) by auto
    have "ok_hole ?ys ?child"
      using n "1.prems"(1) parent_eq [of _ pos] by (intro ok_hole_step) auto
    then have "ok_above ?ys ?child"
      using n by (intro ok_hole_leaf) (auto dest: parent_less)
    with last n "1.prems"(2) show ?thesis
      by (simp add: sift_down_to_bottom.simps [of xs pos] Let_def sift_up_heap mset_sift_up
          mset_swap_nth)
  next
    case leaf
    have "ok_above xs pos"
      using leaf "1.prems"(1) parent_eq [of _ pos] by (intro ok_hole_leaf) auto
    with leaf "1.prems"(2) show ?thesis
      by (simp add: sift_down_to_bottom.simps [of xs pos] Let_def sift_up_heap mset_sift_up)
  qed
qed

section \<open>Building, peeking and popping\<close>

lemma length_sift_down: "pos < length xs \<Longrightarrow> length (sift_down xs pos) = length xs"
  by (metis mset_sift_down size_mset)

lemma ok_below_self: "ok_from xs (Suc n) \<Longrightarrow> ok_below xs n n"
  by (auto simp: ok_from_def ok_below_def dest: parent_less)

lemma rebuild_from_ok:
  assumes "ok_from xs n" "n \<le> length xs"
  shows "heap_ok (rebuild_from n xs) \<and> mset (rebuild_from n xs) = mset xs"
  using assms
proof (induction n xs rule: rebuild_from.induct)
  case (1 xs)
  then show ?case by (simp add: ok_from_def heap_ok_def)
next
  case (2 n xs)
  then have "ok_from (sift_down xs n) n"
    by (intro sift_down_ok ok_below_self) auto
  with 2 show ?case by (simp add: length_sift_down mset_sift_down)
qed

lemma build_heap_ok: "heap_ok (build_heap jobs)"
  and mset_build_heap: "mset (build_heap jobs) = mset jobs"
proof -
  have "ok_from jobs (length jobs div 2)"
    unfolding ok_from_def parent_def by (auto simp: div_le_mono)
  then show "heap_ok (build_heap jobs)" "mset (build_heap jobs) = mset jobs"
    using rebuild_from_ok [of jobs "length jobs div 2"] by (simp_all add: build_heap_def)
qed

lemma heap_ok_root: "heap_ok xs \<Longrightarrow> i < length xs \<Longrightarrow> xs ! i \<le> xs ! 0"
proof (induction i rule: less_induct)
  case (less i)
  show ?case
  proof (cases "i = 0")
    case False
    then have "parent i < i" by (simp add: parent_less)
    with less have "xs ! parent i \<le> xs ! 0" by simp
    moreover have "xs ! i \<le> xs ! parent i" using less.prems False by (simp add: heap_ok_def)
    ultimately show ?thesis by (rule order_trans [rotated])
  qed simp
qed

lemma heap_peek_greatest:
  assumes "heap_ok h" "heap_peek h = Some x"
  shows "x \<in># mset h" "y \<in># mset h \<Longrightarrow> y \<le> x"
proof -
  from assms(2) obtain xs where h: "h = x # xs" by (cases h) auto
  then show "x \<in># mset h" by simp
  assume "y \<in># mset h"
  then obtain i where "i < length h" "y = h ! i" by (auto simp: in_set_conv_nth)
  with heap_ok_root [OF assms(1)] h show "y \<le> x" by fastforce
qed

lemma heap_ok_butlast: "heap_ok xs \<Longrightarrow> heap_ok (butlast xs)"
  unfolding heap_ok_def by (auto simp: nth_butlast dest: parent_less)

lemma heap_ok_hole: "heap_ok xs \<Longrightarrow> ok_hole (xs[0 := y]) 0"
  unfolding heap_ok_def ok_hole_def by (auto simp: nth_list_update)

lemma heap_pop_spec:
  assumes "heap_ok h" "h \<noteq> []"
  obtains h' where "heap_pop h = Some (hd h, h')" "heap_ok h'" "mset h = add_mset (hd h) (mset h')"
proof -
  from assms(2) obtain x xs where h: "h = x # xs" by (cases h) auto
  let ?item = "last (x # xs)" and ?data = "butlast (x # xs)"
  show thesis
  proof (cases "xs = []")
    case True
    then show thesis using that [of "[]"] h by (simp add: heap_ok_def)
  next
    case False
    then have d: "?data = x # butlast xs" by simp
    let ?b = "?data[0 := ?item]"
    have "ok_hole ?b 0" using heap_ok_hole [OF heap_ok_butlast, of h ?item] assms(1) h False by simp
    then have r: "heap_ok (sift_down_to_bottom ?b 0) \<and> mset (sift_down_to_bottom ?b 0) = mset ?b"
      using d by (intro sift_down_to_bottom_ok) auto
    have "mset xs = mset (butlast xs @ [last xs])" using False by (simp del: mset_append)
    then have "mset h = add_mset x (add_mset (last xs) (mset (butlast xs)))" using h by simp
    then have "mset h = add_mset x (mset ?b)" using d False by simp
    then show thesis using that [of "sift_down_to_bottom ?b 0"] r h False by simp
  qed
qed

lemma heap_pop_None: "heap_pop h = None \<longleftrightarrow> h = []"
  by (cases h) (auto simp: Let_def)

text \<open>Without any hypothesis, sifting keeps the length, so that popping ends.\<close>

lemma length_sift_up [simp]: "length (sift_up xs start pos) = length xs"
  by (induction xs start pos rule: sift_up.induct)
    (subst sift_up.simps, simp add: Let_def)

lemma length_sift_down_to_bottom [simp]: "length (sift_down_to_bottom xs pos) = length xs"
  by (induction xs pos rule: sift_down_to_bottom.induct)
    (subst sift_down_to_bottom.simps, simp add: Let_def)

lemma heap_pop_length: "heap_pop h = Some (x, h') \<Longrightarrow> length h = Suc (length h')"
  by (cases h) (auto simp: Let_def split: if_splits)

section \<open>The interface of the scheduler's queue\<close>

text \<open>
  What the scheduler relies on: \<open>peek\<close> shows an earliest job, \<open>pop\<close> removes it, building keeps
  every job. Nothing is promised about the order of jobs of the same instant.
\<close>

locale job_queue =
  fixes build :: "scheduled_job list \<Rightarrow> 'q"
    and peek :: "'q \<Rightarrow> scheduled_job option"
    and pop :: "'q \<Rightarrow> (scheduled_job \<times> 'q) option"
    and elems :: "'q \<Rightarrow> scheduled_job multiset"
    and invar :: "'q \<Rightarrow> bool"
  assumes invar_build: "invar (build jobs)"
    and elems_build: "elems (build jobs) = mset jobs"
    and peek_None: "invar q \<Longrightarrow> peek q = None \<longleftrightarrow> elems q = {#}"
    and peek_earliest:
      "invar q \<Longrightarrow> peek q = Some x \<Longrightarrow> y \<in># elems q \<Longrightarrow> sj_scheduled_at x \<le> sj_scheduled_at y"
    and pop_peek:
      "invar q \<Longrightarrow> peek q = Some x \<Longrightarrow>
         \<exists>q'. pop q = Some (x, q') \<and> invar q' \<and> elems q = add_mset x (elems q')"
begin

lemma none_due_left:
  assumes "invar q" "peek q = None \<or> (\<exists>x. peek q = Some x \<and> now < sj_scheduled_at x)"
    and "y \<in># elems q"
  shows "now < sj_scheduled_at y"
  using assms peek_None [of q] peek_earliest [of q] by fastforce

lemma pop_step:
  assumes "invar q" "peek q = Some x" "pop q = Some (z, q')"
  shows "z = x" "invar q'" "elems q = add_mset x (elems q')"
    "\<And>y. y \<in># elems q' \<Longrightarrow> sj_scheduled_at x \<le> sj_scheduled_at y"
  using pop_peek [OF assms(1,2)] assms(3) peek_earliest [OF assms(1,2)] by auto

end

interpretation binary_heap: job_queue build_heap heap_peek heap_pop mset heap_ok
proof unfold_locales
  fix q :: "scheduled_job list" and x
  assume "heap_ok q" "heap_peek q = Some x"
  moreover from this have "q \<noteq> []" "hd q = x" by (cases q; simp)+
  ultimately show "\<exists>q'. heap_pop q = Some (x, q') \<and> heap_ok q' \<and> mset q = add_mset x (mset q')"
    by (metis heap_pop_spec)
next
  fix q :: "scheduled_job list"
  show "heap_peek q = None \<longleftrightarrow> mset q = {#}" by (cases q) simp_all
next
  fix q :: "scheduled_job list" and x y
  assume "heap_ok q" "heap_peek q = Some x" "y \<in># mset q"
  then show "sj_scheduled_at x \<le> sj_scheduled_at y"
    using heap_peek_greatest(2) by fastforce
qed (simp_all add: build_heap_ok mset_build_heap)

text \<open>Popping a given number of times: the jobs in the order they come out.\<close>

fun drain :: "nat \<Rightarrow> scheduled_job list \<Rightarrow> scheduled_job list" where
  "drain 0 h = []"
| "drain (Suc n) h = (case heap_pop h of None \<Rightarrow> [] | Some (x, h') \<Rightarrow> x # drain n h')"

lemma drain_heap:
  "heap_ok h \<Longrightarrow> n = length h \<Longrightarrow>
     mset (drain n h) = mset h \<and> sorted (map sj_scheduled_at (drain n h))"
proof (induction n arbitrary: h)
  case 0
  then show ?case by simp
next
  case (Suc n)
  then obtain x h' where h: "heap_peek h = Some x" "heap_pop h = Some (x, h')" "heap_ok h'"
      "mset h = add_mset x (mset h')"
    by (metis binary_heap.pop_peek binary_heap.peek_None length_0_conv mset_zero_iff
        nat.distinct(1) not_None_eq)
  then have "n = length h'" using Suc.prems(2) by (metis size_add_mset size_mset nat.inject)
  with Suc.IH [OF h(3)] have IH: "mset (drain n h') = mset h'" "sorted (map sj_scheduled_at (drain n h'))"
    by auto
  have "sj_scheduled_at x \<le> sj_scheduled_at y" if "y \<in> set (drain n h')" for y
    using that IH(1) binary_heap.pop_step(4) [OF Suc.prems(1) h(1,2)] by (metis set_mset_mset)
  with IH h show ?case by auto
qed

text \<open>C31: Whatever the order in which jobs are loaded, the heap built from them gives back
  exactly these jobs, earliest first.\<close>

theorem build_heap_drains_sorted:
  "mset (drain (length jobs) (build_heap jobs)) = mset jobs \<and>
   sorted (map sj_scheduled_at (drain (length jobs) (build_heap jobs)))"
  using drain_heap [OF build_heap_ok [of jobs], of "length jobs"] mset_build_heap [of jobs]
  by (metis size_mset)

end
