(* ===== verification/Jobs_Table.thy ===== *)
theory Jobs_Table
  imports Job_Model
begin

text \<open>
  The \<open>jobs\<close> table and the SQL of \<open>src/db/queries.rs\<close>: for every UPDATE its WHERE clause and its
  SET clause, the INSERT with the column defaults and constraints of \<open>migrations/\<close>, and the
  SELECTs. A statement is atomic. Each UPDATE is shown to be an instance of the locale
  \<open>jobs_update\<close>, whose lemmas give what all of them keep, and the relation \<open>sql_step\<close> collects the
  statements.
\<close>

section \<open>Table and errors\<close>

type_synonym table = "job_row list"

datatype sqlx_error =
    ConnectionError
  | UniqueViolation string
  | ForeignKeyViolation string
  | CheckViolation string
  | ValueTooLong string
  | IntegerOutOfRange
  | InvalidLimit
  | EncodeError
  | DecodeError decode_error
  | RowNotFound

section \<open>INSERT\<close>

text \<open>The CHECK constraints of the migrations.\<close>

definition state_check :: "string list" where
  "state_check = [''SCHEDULED'', ''LEASED'', ''RUNNING'', ''COMPLETED'', ''FAILED'', ''EXPIRED'',
     ''CANCELLED'', ''DEAD_LETTER'']"

definition policy_check :: "string list" where
  "policy_check = [''skip'', ''allow'', ''queue_once'']"

text \<open>
  The row of an INSERT: the listed columns as bound, every other column at its default
  (\<open>id\<close> is \<open>gen_random_uuid()\<close>, \<open>created_at\<close> and \<open>updated_at\<close> are \<open>NOW()\<close>).
\<close>

definition new_row ::
  "uuid \<Rightarrow> time \<Rightarrow> string \<Rightarrow> uuid \<Rightarrow> json \<Rightarrow> string \<Rightarrow> time \<Rightarrow> time option \<Rightarrow> int \<Rightarrow> int \<Rightarrow>
   string option \<Rightarrow> bool \<Rightarrow> string option \<Rightarrow> time option \<Rightarrow> int option \<Rightarrow> time option \<Rightarrow>
   uuid option \<Rightarrow> string \<Rightarrow> bool \<Rightarrow> job_row" where
  "new_row gen_id now key client payload state scheduled_at expires_at max_retries retry_delay_sec
     webhook_url is_recurring cron_expr next_instance_at max_occurrences recurrence_end_at
     parent_job_id policy is_template =
     \<lparr>row_id = gen_id, row_idempotency_key = key, row_client_id = Some client,
      row_payload = payload, row_state = state, row_scheduled_at = scheduled_at,
      row_leased_until = None, row_expires_at = expires_at, row_attempt_count = 0,
      row_max_retries = max_retries, row_retry_delay_sec = retry_delay_sec,
      row_created_at = now, row_updated_at = now, row_webhook_url = webhook_url,
      row_webhook_success = None, row_webhook_attempts = 0, row_is_recurring = is_recurring,
      row_cron_expr = cron_expr, row_next_instance_at = next_instance_at,
      row_max_occurrences = max_occurrences, row_occurrences_completed = 0,
      row_recurrence_end_at = recurrence_end_at, row_parent_job_id = parent_job_id,
      row_concurrency_policy = policy, row_is_template = is_template\<rparr>"

text \<open>VARCHAR lengths and CHECK constraints of one row.\<close>

definition cron_fits :: "string option \<Rightarrow> bool" where
  "cron_fits c \<longleftrightarrow> (case c of None \<Rightarrow> True | Some s \<Rightarrow> char_count s \<le> 100)"

definition row_fits :: "job_row \<Rightarrow> bool" where
  "row_fits r \<longleftrightarrow> char_count (row_idempotency_key r) \<le> 255 \<and> cron_fits (row_cron_expr r) \<and>
     row_state r \<in> set state_check \<and> row_concurrency_policy r \<in> set policy_check"

definition insert_violation :: "uuid list \<Rightarrow> table \<Rightarrow> job_row \<Rightarrow> sqlx_error option" where
  "insert_violation clients t r =
     (if 255 < char_count (row_idempotency_key r) then Some (ValueTooLong ''idempotency_key'')
      else if \<not> cron_fits (row_cron_expr r) then Some (ValueTooLong ''cron_expr'')
      else if row_state r \<notin> set state_check then Some (CheckViolation ''state'')
      else if row_concurrency_policy r \<notin> set policy_check
        then Some (CheckViolation ''concurrency_policy'')
      else if row_id r \<in> set (map row_id t) then Some (UniqueViolation ''id'')
      else if row_idempotency_key r \<in> set (map row_idempotency_key t)
        then Some (UniqueViolation ''idempotency_key'')
      else (case row_client_id r of
              Some c \<Rightarrow> if c \<in> set clients then None else Some (ForeignKeyViolation ''client_id'')
            | None \<Rightarrow> None))"

text \<open>The second foreign key: the parent is a row of the table, or the new row itself.\<close>

definition parent_violation :: "table \<Rightarrow> job_row \<Rightarrow> sqlx_error option" where
  "parent_violation t r =
     (case row_parent_job_id r of
        Some p \<Rightarrow> if p \<in> set (map row_id (t @ [r])) then None
                  else Some (ForeignKeyViolation ''parent_job_id'')
      | None \<Rightarrow> None)"

definition insert_row :: "uuid list \<Rightarrow> job_row \<Rightarrow> table \<Rightarrow> sqlx_error + table" where
  "insert_row clients r t =
     (case insert_violation clients t r of
        Some e \<Rightarrow> Inl e
      | None \<Rightarrow> (case parent_violation t r of Some e \<Rightarrow> Inl e | None \<Rightarrow> Inr (t @ [r])))"

section \<open>UPDATE\<close>

definition lease_where :: "uuid \<Rightarrow> job_row \<Rightarrow> bool" where
  "lease_where jid r \<longleftrightarrow> row_id r = jid \<and> row_state r = ''SCHEDULED''"

definition lease_set :: "int \<Rightarrow> time \<Rightarrow> job_row \<Rightarrow> job_row" where
  "lease_set secs now r = r\<lparr>row_state := ''LEASED'',
     row_leased_until := Some (now + seconds secs), row_updated_at := now\<rparr>"

definition id_where :: "uuid \<Rightarrow> job_row \<Rightarrow> bool" where
  "id_where jid r \<longleftrightarrow> row_id r = jid"

definition running_set :: "time \<Rightarrow> job_row \<Rightarrow> job_row" where
  "running_set now r = r\<lparr>row_state := ''RUNNING'', row_updated_at := now\<rparr>"

definition completed_set :: "time \<Rightarrow> job_row \<Rightarrow> job_row" where
  "completed_set now r = r\<lparr>row_state := ''COMPLETED'', row_updated_at := now\<rparr>"

definition state_set :: "job_state \<Rightarrow> time \<Rightarrow> job_row \<Rightarrow> job_row" where
  "state_set st now r = r\<lparr>row_state := job_state_as_str st, row_updated_at := now\<rparr>"

definition retry_set :: "time \<Rightarrow> int \<Rightarrow> time \<Rightarrow> job_row \<Rightarrow> job_row" where
  "retry_set scheduled_at attempt_count now r = r\<lparr>row_state := ''SCHEDULED'',
     row_scheduled_at := scheduled_at, row_attempt_count := attempt_count,
     row_leased_until := None, row_updated_at := now\<rparr>"

definition cancelled_set :: "time \<Rightarrow> job_row \<Rightarrow> job_row" where
  "cancelled_set now r = r\<lparr>row_state := ''CANCELLED'', row_updated_at := now\<rparr>"

definition cancel_where :: "uuid \<Rightarrow> uuid \<Rightarrow> job_row \<Rightarrow> bool" where
  "cancel_where jid client r \<longleftrightarrow>
     row_id r = jid \<and> row_client_id r = Some client \<and> row_state r = ''SCHEDULED''"

definition cancel_template_where :: "uuid \<Rightarrow> uuid \<Rightarrow> job_row \<Rightarrow> bool" where
  "cancel_template_where template_id client r \<longleftrightarrow>
     row_id r = template_id \<and> row_client_id r = Some client \<and> row_is_template r"

definition cancel_instances_where :: "uuid \<Rightarrow> job_row \<Rightarrow> bool" where
  "cancel_instances_where template_id r \<longleftrightarrow>
     row_parent_job_id r = Some template_id \<and> row_state r = ''SCHEDULED''"

definition cron_where :: "uuid \<Rightarrow> uuid \<Rightarrow> job_row \<Rightarrow> bool" where
  "cron_where jid client r \<longleftrightarrow> row_id r = jid \<and> row_client_id r = Some client \<and>
     row_is_template r \<and> row_is_recurring r"

definition cron_set :: "string \<Rightarrow> time \<Rightarrow> job_row \<Rightarrow> job_row" where
  "cron_set cron_expr now r = r\<lparr>row_cron_expr := Some cron_expr, row_updated_at := now\<rparr>"

definition released_set :: "time \<Rightarrow> job_row \<Rightarrow> job_row" where
  "released_set now r =
     r\<lparr>row_state := ''SCHEDULED'', row_leased_until := None, row_updated_at := now\<rparr>"

definition reap_where :: "time \<Rightarrow> job_row \<Rightarrow> bool" where
  "reap_where now r \<longleftrightarrow> row_state r = ''LEASED'' \<and>
     (case row_leased_until r of None \<Rightarrow> False | Some u \<Rightarrow> u < now)"

definition recover_where :: "time \<Rightarrow> job_row \<Rightarrow> bool" where
  "recover_where now r \<longleftrightarrow> row_state r \<in> {''LEASED'', ''RUNNING''} \<and>
     (case row_leased_until r of None \<Rightarrow> True | Some u \<Rightarrow> u < now)"

definition webhook_set :: "bool \<Rightarrow> int \<Rightarrow> time \<Rightarrow> job_row \<Rightarrow> job_row" where
  "webhook_set success attempts now r = r\<lparr>row_webhook_success := Some success,
     row_webhook_attempts := attempts, row_updated_at := now\<rparr>"

definition increment_set :: "time option \<Rightarrow> time \<Rightarrow> job_row \<Rightarrow> job_row" where
  "increment_set next_at now r =
     r\<lparr>row_occurrences_completed := row_occurrences_completed r + 1,
       row_next_instance_at := next_at, row_updated_at := now\<rparr>"

section \<open>SELECT\<close>

definition scheduled_where :: "job_row \<Rightarrow> bool" where
  "scheduled_where r \<longleftrightarrow> row_state r = ''SCHEDULED'' \<and> \<not> row_is_template r"

text \<open>\<open>ORDER BY scheduled_at ASC LIMIT n\<close>; rows of the same instant stay in table order.\<close>

definition select_scheduled :: "int \<Rightarrow> table \<Rightarrow> sqlx_error + scheduled_job list" where
  "select_scheduled limit t =
     (if limit < 0 then Inl InvalidLimit
      else Inr (map (\<lambda>r. ScheduledJob (row_id r) (row_scheduled_at r))
                  (take (nat limit) (sort_key row_scheduled_at (filter scheduled_where t)))))"

definition siblings_where :: "uuid \<Rightarrow> string list \<Rightarrow> job_row \<Rightarrow> bool" where
  "siblings_where parent_id states r \<longleftrightarrow>
     row_parent_job_id r = Some parent_id \<and> row_state r \<in> set states"

definition recurring_active_where :: "job_row \<Rightarrow> bool" where
  "recurring_active_where r \<longleftrightarrow> row_is_template r \<and> row_is_recurring r \<and>
     row_state r \<notin> {''COMPLETED'', ''CANCELLED'', ''DEAD_LETTER''}"

section \<open>What every UPDATE keeps\<close>

text \<open>The columns no UPDATE of the program assigns.\<close>

definition row_identity where
  "row_identity r = (row_id r, row_idempotency_key r, row_client_id r, row_payload r,
     row_expires_at r, row_max_retries r, row_retry_delay_sec r, row_created_at r,
     row_webhook_url r, row_is_recurring r, row_max_occurrences r, row_recurrence_end_at r,
     row_parent_job_id r, row_concurrency_policy r, row_is_template r)"

lemma row_identityD:
  assumes "row_identity r = row_identity s"
  shows "row_id r = row_id s" "row_idempotency_key r = row_idempotency_key s"
    "row_client_id r = row_client_id s" "row_payload r = row_payload s"
    "row_expires_at r = row_expires_at s" "row_max_retries r = row_max_retries s"
    "row_retry_delay_sec r = row_retry_delay_sec s" "row_webhook_url r = row_webhook_url s"
    "row_is_recurring r = row_is_recurring s" "row_max_occurrences r = row_max_occurrences s"
    "row_recurrence_end_at r = row_recurrence_end_at s"
    "row_parent_job_id r = row_parent_job_id s"
    "row_concurrency_policy r = row_concurrency_policy s" "row_is_template r = row_is_template s"
  using assms by (simp_all add: row_identity_def)

text \<open>The integrity the database enforces: keys, lengths, checks, references.\<close>

definition table_ok :: "uuid list \<Rightarrow> table \<Rightarrow> bool" where
  "table_ok clients t \<longleftrightarrow>
     distinct (map row_id t) \<and> distinct (map row_idempotency_key t) \<and> list_all row_fits t \<and>
     list_all (\<lambda>r. case row_client_id r of None \<Rightarrow> True | Some c \<Rightarrow> c \<in> set clients) t \<and>
     list_all (\<lambda>r. case row_parent_job_id r of None \<Rightarrow> True | Some p \<Rightarrow> p \<in> row_id ` set t) t"

locale jobs_update =
  fixes cond :: "job_row \<Rightarrow> bool" and assign :: "job_row \<Rightarrow> job_row"
  assumes keeps_identity: "row_identity (assign r) = row_identity r"
    and keeps_fits: "cond r \<Longrightarrow> row_fits r \<Longrightarrow> row_fits (assign r)"
begin

lemma identities: "map row_identity (update_where cond assign t) = map row_identity t"
  by (simp add: map_update_where keeps_identity)

lemma assign_id: "row_id (assign r) = row_id r"
  by (rule row_identityD(1) [OF keeps_identity])

lemma ids: "map row_id (update_where cond assign t) = map row_id t"
  by (simp add: map_update_where assign_id)

lemma updated_row:
  assumes "List.find (\<lambda>r. row_id r = i) t = Some r"
  shows "List.find (\<lambda>r. row_id r = i) (update_where cond assign t) =
           Some (if cond r then assign r else r)"
  using assms by (simp add: find_update_where assign_id)

lemma children:
  "count_where (\<lambda>r. row_parent_job_id r = q) (update_where cond assign t) =
   count_where (\<lambda>r. row_parent_job_id r = q) t"
  by (induction t)
    (auto simp: count_where_def update_where_def row_identityD(12) [OF keeps_identity])

lemma keeps_table_ok:
  assumes "table_ok clients t"
  shows "table_ok clients (update_where cond assign t)"
proof -
  have "map row_idempotency_key (update_where cond assign t) = map row_idempotency_key t"
    by (simp add: map_update_where row_identityD(2) [OF keeps_identity])
  moreover have "row_id ` set (update_where cond assign t) = row_id ` set t"
    by (metis ids set_map)
  ultimately show ?thesis
    using assms
    by (auto simp only: table_ok_def ids keeps_fits row_identityD(3) [OF keeps_identity]
        row_identityD(12) [OF keeps_identity] intro!: list_all_update_where split: if_split)
qed

end

named_theorems sql_defs \<open>the SET clauses and what they are checked against\<close>

lemmas [sql_defs] = lease_set_def running_set_def completed_set_def state_set_def retry_set_def
  cancelled_set_def cron_set_def released_set_def webhook_set_def increment_set_def

lemmas [sql_defs] = row_fits_def row_identity_def state_check_def

text \<open>Every UPDATE of \<open>queries.rs\<close> is such an update.\<close>

interpretation lease: jobs_update "lease_where i" "lease_set secs now" for i secs now
  by unfold_locales (auto simp: sql_defs)

interpretation set_running: jobs_update "id_where i" "running_set now" for i now
  by unfold_locales (auto simp: sql_defs)

interpretation set_completed: jobs_update "id_where i" "completed_set now" for i now
  by unfold_locales (auto simp: sql_defs)

interpretation set_state: jobs_update "id_where i" "state_set st now" for i st now
  by (unfold_locales; cases st) (auto simp: sql_defs)

interpretation schedule_retry: jobs_update "id_where i" "retry_set at n now" for i at n now
  by unfold_locales (auto simp: sql_defs)

interpretation cancel: jobs_update "cancel_where i c" "cancelled_set now" for i c now
  by unfold_locales (auto simp: sql_defs)

interpretation cancel_template: jobs_update "cancel_template_where i c" "cancelled_set now"
  for i c now
  by unfold_locales (auto simp: sql_defs)

interpretation cancel_instances: jobs_update "cancel_instances_where i" "cancelled_set now"
  for i now
  by unfold_locales (auto simp: sql_defs)

interpretation update_cron: jobs_update "\<lambda>r. cron_where i c r \<and> char_count e \<le> 100"
    "cron_set e now" for i c e now
  by unfold_locales (auto simp: sql_defs cron_fits_def)

interpretation reap: jobs_update "reap_where now" "released_set now" for now
  by unfold_locales (auto simp: sql_defs)

interpretation recover: jobs_update "recover_where now" "released_set now" for now
  by unfold_locales (auto simp: sql_defs)

interpretation webhook_result: jobs_update "id_where i" "webhook_set ok n now" for i ok n now
  by unfold_locales (auto simp: sql_defs)

interpretation increment: jobs_update "id_where i" "increment_set next_at now" for i next_at now
  by unfold_locales (auto simp: sql_defs)

section \<open>The relation of all statements\<close>

text \<open>
  One rule per statement that writes the table. Whatever the program does to the table is a
  sequence of these steps.
\<close>

text \<open>What every INSERT of the program gives to the columns with a fixed value.\<close>

definition fresh_row :: "job_row \<Rightarrow> bool" where
  "fresh_row r \<longleftrightarrow> row_state r = ''SCHEDULED'' \<and> row_attempt_count r = 0 \<and>
     row_leased_until r = None \<and> row_webhook_attempts r = 0 \<and> row_occurrences_completed r = 0"

inductive sql_step :: "uuid list \<Rightarrow> table \<Rightarrow> table \<Rightarrow> bool" for clients where
  insert: "insert_row clients r t = Inr t' \<Longrightarrow> fresh_row r \<Longrightarrow> sql_step clients t t'"
| lease: "sql_step clients t (update_where (lease_where i) (lease_set secs now) t)"
| set_running: "sql_step clients t (update_where (id_where i) (running_set now) t)"
| set_completed: "sql_step clients t (update_where (id_where i) (completed_set now) t)"
| set_state: "is_terminal st \<Longrightarrow>
    sql_step clients t (update_where (id_where i) (state_set st now) t)"
| schedule_retry: "sql_step clients t (update_where (id_where i) (retry_set at n now) t)"
| cancel: "sql_step clients t (update_where (cancel_where i c) (cancelled_set now) t)"
| cancel_template:
    "sql_step clients t (update_where (cancel_template_where i c) (cancelled_set now) t)"
| cancel_instances:
    "sql_step clients t (update_where (cancel_instances_where i) (cancelled_set now) t)"
| update_cron: "char_count e \<le> 100 \<Longrightarrow>
    sql_step clients t (update_where (cron_where i c) (cron_set e now) t)"
| reap: "sql_step clients t (update_where (reap_where now) (released_set now) t)"
| recover: "sql_step clients t (update_where (recover_where now) (released_set now) t)"
| webhook_result: "sql_step clients t (update_where (id_where i) (webhook_set ok n now) t)"
| increment: "sql_step clients t (update_where (id_where i) (increment_set next_at now) t)"

abbreviation sql_steps :: "uuid list \<Rightarrow> table \<Rightarrow> table \<Rightarrow> bool" where
  "sql_steps clients \<equiv> (sql_step clients)\<^sup>*\<^sup>*"

lemma insert_row_InrD:
  assumes "insert_row clients r t = Inr t'"
  shows "t' = t @ [r]" "row_fits r" "row_id r \<notin> row_id ` set t"
    "row_idempotency_key r \<notin> row_idempotency_key ` set t"
    "case row_client_id r of None \<Rightarrow> True | Some c \<Rightarrow> c \<in> set clients"
    "case row_parent_job_id r of None \<Rightarrow> True | Some p \<Rightarrow> p \<in> row_id ` set (t @ [r])"
  using assms
  by (auto simp: insert_row_def insert_violation_def parent_violation_def row_fits_def
      split: option.splits if_splits)

lemma insert_keeps_table_ok:
  assumes "insert_row clients r t = Inr t'" "table_ok clients t"
  shows "table_ok clients t'"
  using insert_row_InrD [OF assms(1)] assms(2)
  by (auto simp: table_ok_def list_all_iff split: option.splits)

lemma update_cron_keeps:
  assumes "char_count e \<le> 100"
  shows "table_ok clients t \<Longrightarrow> table_ok clients (update_where (cron_where i c) (cron_set e now) t)"
    "map row_identity (update_where (cron_where i c) (cron_set e now) t) = map row_identity t"
  using update_cron.keeps_table_ok [of clients t i c e now] update_cron.identities [of i c e now t]
    assms by simp_all

lemmas update_keeps_table_ok = lease.keeps_table_ok set_running.keeps_table_ok
  set_completed.keeps_table_ok set_state.keeps_table_ok schedule_retry.keeps_table_ok
  cancel.keeps_table_ok cancel_template.keeps_table_ok cancel_instances.keeps_table_ok
  update_cron_keeps(1) reap.keeps_table_ok recover.keeps_table_ok
  webhook_result.keeps_table_ok increment.keeps_table_ok

lemmas update_identities = lease.identities set_running.identities
  set_completed.identities set_state.identities schedule_retry.identities
  cancel.identities cancel_template.identities cancel_instances.identities
  update_cron_keeps(2) reap.identities recover.identities
  webhook_result.identities increment.identities

lemma sql_step_table_ok: "sql_step clients t t' \<Longrightarrow> table_ok clients t \<Longrightarrow> table_ok clients t'"
  by (cases rule: sql_step.cases)
    (auto intro: update_keeps_table_ok insert_keeps_table_ok)

text \<open>No statement removes a row or changes an identity column; only an INSERT adds a row.\<close>

lemma sql_step_identities:
  assumes "sql_step clients t t'"
  shows "\<exists>new. map row_identity t' = map row_identity t @ new"
  using assms by (cases rule: sql_step.cases)
    (auto simp: update_identities dest: insert_row_InrD(1))

interpretation integrity: kept_by "sql_step clients" "table_ok clients" for clients
  by unfold_locales (rule sql_step_table_ok)

interpretation identity: kept_by "sql_step clients"
    "\<lambda>t. \<exists>new. map row_identity t = map row_identity t0 @ new" for clients t0
  by unfold_locales (metis append.assoc sql_step_identities)

section \<open>The row of a job\<close>

definition row_with_id :: "uuid \<Rightarrow> table \<Rightarrow> job_row option" where
  "row_with_id i t = List.find (\<lambda>r. row_id r = i) t"

lemma row_with_id_update:
  "(\<And>r. row_id (g r) = row_id r) \<Longrightarrow> row_with_id i (update_where p g t) =
     map_option (\<lambda>r. if p r then g r else r) (row_with_id i t)"
  by (simp add: row_with_id_def find_update_where)

lemma row_with_id_SomeD: "row_with_id i t = Some r \<Longrightarrow> r \<in> set t \<and> row_id r = i"
  by (auto simp: row_with_id_def dest: find_SomeD)

lemma row_with_id_insert:
  "insert_row cl r t = Inr t' \<Longrightarrow> row_with_id i t = Some s \<Longrightarrow> row_with_id i t' = Some s"
  by (auto simp: row_with_id_def find_append_Some dest!: insert_row_InrD(1))

lemma only_row_with_id:
  "distinct (map row_id t) \<Longrightarrow> row_with_id i t = Some r \<Longrightarrow> s \<in> set t \<Longrightarrow> row_id s = i \<Longrightarrow> s = r"
  using find_unique [of row_id t s] by (auto simp: row_with_id_def)

text \<open>The row a lease selects: the job's row, when it is SCHEDULED.\<close>

lemma find_lease_where:
  assumes "distinct (map row_id t)"
  shows "List.find (lease_where i) t = (case row_with_id i t of None \<Rightarrow> None
    | Some r \<Rightarrow> if row_state r = ''SCHEDULED'' then Some r else None)"
  using assms
  by (induction t) (auto simp: row_with_id_def lease_where_def find_None_iff image_iff
      split: option.splits if_splits dest!: find_SomeD)

lemma lease_where_selects:
  assumes "distinct (map row_id t)" "List.find (lease_where i) t = Some r"
  shows "row_with_id i t = Some r" "row_state r = ''SCHEDULED''"
  using assms by (auto simp: find_lease_where split: option.splits if_splits)

section \<open>Rows the constraints admit\<close>

text \<open>C39: Every row the CHECK constraints admit decodes into a job when its payload does: the state is
  one of the eight known ones, and the policy is the stored one, not the fallback \<open>QueueOnce\<close>.\<close>

theorem stored_rows_decode:
  assumes "row_fits r" "dec (row_payload r) = Some p"
  shows "\<exists>j. from_row dec r = Inr j \<and> job_payload_of j = p \<and>
    job_state_as_str (job_state_of j) = row_state r \<and>
    policy_as_str (job_concurrency_policy j) = row_concurrency_policy r"
proof -
  have "row_state r \<in> set state_check" "row_concurrency_policy r \<in> set policy_check"
    using assms(1) by (simp_all add: row_fits_def)
  then obtain st pol where st: "job_state_from_str (row_state r) = Some st"
    and pol: "policy_from_str (row_concurrency_policy r) = Some pol"
    by (auto simp: state_check_def policy_check_def job_state_from_str_def policy_from_str_def)
  then show ?thesis
    using job_state_from_str_SomeD [OF st] policy_from_str_SomeD [OF pol] assms(2)
    by (simp add: from_row_def)
qed

theorem stored_rows_decode_witness:
  "\<exists>j. from_row (\<lambda>_. Some (Script ''a'' [] 5))
      (new_row 1 0 ''k'' 1 JNull ''EXPIRED'' 0 None 3 60 None False None None None None None ''skip'' False) = Inr j \<and>
    job_payload_of j = Script ''a'' [] 5 \<and> job_state_as_str (job_state_of j) = ''EXPIRED'' \<and>
    policy_as_str (job_concurrency_policy j) = ''skip''"
  using stored_rows_decode
    [of "new_row 1 0 ''k'' 1 JNull ''EXPIRED'' 0 None 3 60 None False None None None None None ''skip'' False"
      "\<lambda>_. Some (Script ''a'' [] 5)" "Script ''a'' [] 5"]
  by (simp add: new_row_def row_fits_def state_check_def policy_check_def cron_fits_def char_count_def)

end
