(* ===== verification/World.thy ===== *)
theory World
  imports Jobs_Table
begin

text \<open>
  What a task of the daemon reads and writes, and how its code is written in the model: a
  state-passing computation that returns an error or a value (\<open>'a io\<close>). The environment decides, for
  every interaction in turn, the instant at which it happens, whether the database statement is
  delivered, the UUID the database generates and the answer of a webhook's receiver.
\<close>

section \<open>The environment\<close>

text \<open>
  A statement can be lost before it takes effect, or its answer can be lost after it took effect;
  the caller sees the same error.
\<close>

datatype delivery = Delivered | Dropped | Unacknowledged

datatype hook_reply = HookStatus nat | HookError

record event =
  ev_delivery :: delivery
  ev_now :: time
  ev_uuid :: uuid
  ev_reply :: hook_reply

text \<open>
  Library code the program calls and that is not part of the repository: the codec of \<open>serde_json\<close>
  for payloads, the \<open>cron\<close> crate (\<open>Schedule::from_str\<close>, then \<open>after(&t).next()\<close>), and the text
  forms of a UUID and of an instant (\<open>to_rfc3339\<close>).
\<close>

record externals =
  x_to_value :: "job_payload \<Rightarrow> json option"
  x_from_value :: "json \<Rightarrow> job_payload option"
  x_cron :: "string \<Rightarrow> (time \<Rightarrow> time option) option"
  x_uuid_text :: "uuid \<Rightarrow> string"
  x_rfc3339 :: "time \<Rightarrow> string"

section \<open>The state\<close>

record metrics =
  m_scheduled :: nat
  m_dispatched :: nat
  m_completed :: nat
  m_failed :: nat
  m_expired :: nat
  m_executions :: nat
  m_webhook_failures :: nat
  m_recurring_created :: nat
  m_queue_depth :: nat
  m_worker_active :: nat
  m_heap_size :: nat
  m_recurring_active :: int

datatype hook_post = HookPost (hp_url: string) (hp_job: job_response) (hp_event: string)

text \<open>
  The database (\<open>clients\<close> as pairs of API key and id), the environment and the number of interactions
  so far, the permit of the scheduler's \<open>Notify\<close>, its heap and liveness flag, the channel to the
  workers, their number of running jobs, the metrics, and a log of webhook requests and of the backoff sleeps between them.
\<close>

record world =
  w_jobs :: table
  w_clients :: "(string \<times> uuid) list"
  w_env :: "nat \<Rightarrow> event"
  w_tick :: nat
  w_permit :: bool
  w_heap :: "scheduled_job list"
  w_alive :: bool
  w_queue :: "job list"
  w_closed :: bool
  w_active :: nat
  w_metrics :: metrics
  w_posts :: "hook_post list"
  w_sleeps :: "nat list"

definition client_ids :: "world \<Rightarrow> uuid list" where
  "client_ids w = map snd (w_clients w)"

section \<open>Computations\<close>

datatype error =
    Sqlx sqlx_error
  | CronSyntax
  | NoNextFire
  | Panicked string
  | Diverged

type_synonym 'a io = "world \<Rightarrow> (error + 'a) \<times> world"

definition return_io :: "'a \<Rightarrow> 'a io" where
  "return_io a w = (Inr a, w)"

definition throw_io :: "error \<Rightarrow> 'a io" where
  "throw_io e w = (Inl e, w)"

text \<open>\<open>m?\<close> followed by the rest: an error returns early.\<close>

definition bind_io :: "'a io \<Rightarrow> ('a \<Rightarrow> 'b io) \<Rightarrow> 'b io" where
  "bind_io m k w = (case m w of (Inl e, w') \<Rightarrow> (Inl e, w') | (Inr a, w') \<Rightarrow> k a w')"

definition then_io :: "'a io \<Rightarrow> 'b io \<Rightarrow> 'b io" where
  "then_io m k = bind_io m (\<lambda>_. k)"

text \<open>A caller that inspects the \<open>Result\<close> itself. A panic is not a \<open>Result\<close> and goes on, and so does
  a loop without end (\<open>Diverged\<close>).\<close>

definition attempt :: "'a io \<Rightarrow> (error + 'a) io" where
  "attempt m w =
     (case m w of
        (Inl (Panicked s), w') \<Rightarrow> (Inl (Panicked s), w')
      | (Inl Diverged, w') \<Rightarrow> (Inl Diverged, w')
      | (r, w') \<Rightarrow> (Inr r, w'))"

definition modify_io :: "(world \<Rightarrow> world) \<Rightarrow> unit io" where
  "modify_io f w = (Inr (), f w)"

definition current_event :: "world \<Rightarrow> event" where
  "current_event w = w_env w (w_tick w)"

definition tick :: "world \<Rightarrow> world" where
  "tick w = w\<lparr>w_tick := Suc (w_tick w)\<rparr>"

text \<open>\<open>Utc::now()\<close>.\<close>

definition utc_now :: "time io" where
  "utc_now w = (Inr (ev_now (current_event w)), tick w)"

text \<open>One SQL statement: an atomic function of the event, the ids of the clients and the table.\<close>

definition statement :: "(event \<Rightarrow> uuid list \<Rightarrow> table \<Rightarrow> sqlx_error + ('a \<times> table)) \<Rightarrow> 'a io" where
  "statement q w =
     (case ev_delivery (current_event w) of
        Dropped \<Rightarrow> (Inl (Sqlx ConnectionError), tick w)
      | Delivered \<Rightarrow>
          (case q (current_event w) (client_ids w) (w_jobs w) of
             Inl e \<Rightarrow> (Inl (Sqlx e), tick w)
           | Inr (a, t) \<Rightarrow> (Inr a, (tick w)\<lparr>w_jobs := t\<rparr>))
      | Unacknowledged \<Rightarrow>
          (case q (current_event w) (client_ids w) (w_jobs w) of
             Inl e \<Rightarrow> (Inl (Sqlx e), tick w)
           | Inr (a, t) \<Rightarrow> (Inl (Sqlx ConnectionError), (tick w)\<lparr>w_jobs := t\<rparr>)))"

text \<open>\<open>Notify::notify_one\<close> stores a permit, at most one.\<close>

definition notify_one :: "unit io" where
  "notify_one = modify_io (\<lambda>w. w\<lparr>w_permit := True\<rparr>)"

definition count_metric :: "(metrics \<Rightarrow> metrics) \<Rightarrow> unit io" where
  "count_metric f = modify_io (\<lambda>w. w\<lparr>w_metrics := f (w_metrics w)\<rparr>)"

section \<open>Running a computation\<close>

lemma return_io_run [simp]: "return_io a w = (Inr a, w)"
  by (simp add: return_io_def)

lemma throw_io_run [simp]: "throw_io e w = (Inl e, w)"
  by (simp add: throw_io_def)

lemma bind_io_Inr: "m w = (Inr a, w') \<Longrightarrow> bind_io m k w = k a w'"
  by (simp add: bind_io_def)

lemma bind_io_Inl: "m w = (Inl e, w') \<Longrightarrow> bind_io m k w = (Inl e, w')"
  by (simp add: bind_io_def)

lemma bind_return [simp]: "bind_io (return_io a) k = k a"
  by (rule ext) (simp add: bind_io_def)

lemma bind_throw [simp]: "bind_io (throw_io e) k = throw_io e"
  by (rule ext) (simp add: bind_io_def)

lemma bind_assoc: "bind_io (bind_io m k) l = bind_io m (\<lambda>a. bind_io (k a) l)"
  by (rule ext) (simp add: bind_io_def split: prod.splits sum.splits)

lemma tick_simps [simp]:
  "w_jobs (tick w) = w_jobs w" "w_clients (tick w) = w_clients w" "w_env (tick w) = w_env w"
  "w_tick (tick w) = Suc (w_tick w)" "w_permit (tick w) = w_permit w"
  "w_heap (tick w) = w_heap w" "w_alive (tick w) = w_alive w"
  "w_active (tick w) = w_active w" "w_queue (tick w) = w_queue w" "w_closed (tick w) = w_closed w"
  "w_metrics (tick w) = w_metrics w" "w_posts (tick w) = w_posts w"
  "w_sleeps (tick w) = w_sleeps w" "client_ids (tick w) = client_ids w"
  by (simp_all add: tick_def client_ids_def)

lemma client_ids_cong: "w_clients w' = w_clients w \<Longrightarrow> client_ids w' = client_ids w"
  by (simp add: client_ids_def)

text \<open>An environment in which every statement is delivered.\<close>

definition quiet :: "world \<Rightarrow> bool" where
  "quiet w \<longleftrightarrow> (\<forall>n. ev_delivery (w_env w n) = Delivered)"

lemma statement_quiet:
  "quiet w \<Longrightarrow> statement q w =
     (case q (current_event w) (client_ids w) (w_jobs w) of
        Inl e \<Rightarrow> (Inl (Sqlx e), tick w)
      | Inr (a, t) \<Rightarrow> (Inr a, (tick w)\<lparr>w_jobs := t\<rparr>))"
  by (simp add: statement_def quiet_def current_event_def)

lemma quiet_simps [simp]:
  "quiet (tick w) = quiet w" "quiet (w\<lparr>w_jobs := t\<rparr>) = quiet w"
  "quiet (w\<lparr>w_permit := b\<rparr>) = quiet w" "quiet (w\<lparr>w_queue := q\<rparr>) = quiet w"
  "quiet (w\<lparr>w_metrics := ms\<rparr>) = quiet w" "quiet (w\<lparr>w_posts := ps\<rparr>) = quiet w"
  "quiet (w\<lparr>w_sleeps := ss\<rparr>) = quiet w" "quiet (w\<lparr>w_heap := h\<rparr>) = quiet w"
  "quiet (w\<lparr>w_alive := b\<rparr>) = quiet w" "quiet (w\<lparr>w_active := n\<rparr>) = quiet w"
  by (simp_all add: quiet_def)

lemma current_event_simps [simp]:
  "current_event (w\<lparr>w_jobs := t\<rparr>) = current_event w"
  "current_event (w\<lparr>w_permit := b\<rparr>) = current_event w"
  "current_event (w\<lparr>w_queue := q\<rparr>) = current_event w"
  "current_event (w\<lparr>w_metrics := ms\<rparr>) = current_event w"
  "current_event (w\<lparr>w_posts := ps\<rparr>) = current_event w"
  "current_event (w\<lparr>w_sleeps := ss\<rparr>) = current_event w"
  "current_event (w\<lparr>w_heap := h\<rparr>) = current_event w"
  "current_event (w\<lparr>w_alive := b\<rparr>) = current_event w" "current_event (w\<lparr>w_active := n\<rparr>) = current_event w"
  "current_event (tick w) = w_env w (Suc (w_tick w))"
  by (simp_all add: current_event_def)

lemma client_ids_simps [simp]:
  "client_ids (w\<lparr>w_jobs := t\<rparr>) = client_ids w"
  "client_ids (w\<lparr>w_permit := b\<rparr>) = client_ids w"
  "client_ids (w\<lparr>w_queue := q\<rparr>) = client_ids w"
  "client_ids (w\<lparr>w_metrics := ms\<rparr>) = client_ids w"
  "client_ids (w\<lparr>w_posts := ps\<rparr>) = client_ids w"
  "client_ids (w\<lparr>w_sleeps := ss\<rparr>) = client_ids w"
  "client_ids (w\<lparr>w_heap := h\<rparr>) = client_ids w"
  "client_ids (w\<lparr>w_alive := b\<rparr>) = client_ids w" "client_ids (w\<lparr>w_active := n\<rparr>) = client_ids w"
  by (simp_all add: client_ids_def)

text \<open>The results of the operations in a quiet environment, collected for symbolic execution.\<close>

named_theorems run \<open>the result of a computation in a quiet environment\<close>

lemma bind_io_run [run]: "bind_io m k w = (case m w of (Inl e, w') \<Rightarrow> (Inl e, w') | (Inr a, w') \<Rightarrow> k a w')"
  by (simp add: bind_io_def)

lemma then_io_run [run]: "then_io m k w = (case m w of (Inl e, w') \<Rightarrow> (Inl e, w') | (Inr a, w') \<Rightarrow> k w')"
  by (simp add: then_io_def bind_io_def)

lemma attempt_run [run]:
  "attempt m w = (case m w of (Inl e, w') \<Rightarrow>
      (case e of Panicked s \<Rightarrow> (Inl (Panicked s), w') | Diverged \<Rightarrow> (Inl Diverged, w')
        | _ \<Rightarrow> (Inr (Inl e), w'))
    | (Inr a, w') \<Rightarrow> (Inr (Inr a), w'))"
  by (simp add: attempt_def split: prod.split sum.split error.split)

lemma modify_io_run [run]: "modify_io f w = (Inr (), f w)"
  by (simp add: modify_io_def)

lemma notify_one_run [run]: "notify_one w = (Inr (), w\<lparr>w_permit := True\<rparr>)"
  by (simp add: notify_one_def modify_io_def)

lemma count_metric_run [run]: "count_metric f w = (Inr (), w\<lparr>w_metrics := f (w_metrics w)\<rparr>)"
  by (simp add: count_metric_def modify_io_def)

lemma utc_now_run [run]: "utc_now w = (Inr (ev_now (current_event w)), tick w)"
  by (simp add: utc_now_def)

section \<open>Effects\<close>

text \<open>
  An effect is a relation between the worlds before and after a computation, and \<open>keeps R m\<close> says
  that \<open>m\<close> has the effect \<open>R\<close> whatever the environment does. Relations that are reflexive and
  transitive and ignore the clock and the permit compose along the structure of a computation; the
  locale proves it once for all of them, and every handler is then proved by its code with the rules of
  \<open>effect_intro\<close>.
\<close>

type_synonym effect = "world \<Rightarrow> world \<Rightarrow> bool"

definition keeps :: "effect \<Rightarrow> 'a io \<Rightarrow> bool" where
  "keeps R m \<longleftrightarrow> (\<forall>w. R w (snd (m w)))"

named_theorems effect_intro \<open>composition rules for keeps\<close>

lemma keepsI: "(\<And>w. R w (snd (m w))) \<Longrightarrow> keeps R m"
  by (simp add: keeps_def)

lemma keepsD: "keeps R m \<Longrightarrow> R w (snd (m w))"
  by (simp add: keeps_def)

lemma keeps_runD: "keeps R m \<Longrightarrow> m w = (r, w') \<Longrightarrow> R w w'"
  by (metis keepsD snd_conv)

lemma keeps_modify: "(\<And>w. R w (f w)) \<Longrightarrow> keeps R (modify_io f)"
  by (simp add: keeps_def modify_io_def)

lemma keeps_if [effect_intro]:
  "(b \<Longrightarrow> keeps R m) \<Longrightarrow> (\<not> b \<Longrightarrow> keeps R k) \<Longrightarrow> keeps R (if b then m else k)"
  by simp

lemma keeps_cases [effect_intro]:
  "keeps R m \<Longrightarrow> (\<And>a. keeps R (f a)) \<Longrightarrow> keeps R (case v of None \<Rightarrow> m | Some a \<Rightarrow> f a)"
  "(\<And>e. keeps R (g e)) \<Longrightarrow> (\<And>a. keeps R (h a)) \<Longrightarrow> keeps R (case s of Inl e \<Rightarrow> g e | Inr a \<Rightarrow> h a)"
  "(\<And>a b. keeps R (l a b)) \<Longrightarrow> keeps R (case pr of (a, b) \<Rightarrow> l a b)"
  "(\<And>v. keeps R (f' v)) \<Longrightarrow> keeps R (let v = e in f' v)"
  by (simp_all add: Let_def split: option.split sum.split prod.split)

locale effect_core =
  fixes R :: effect
  assumes refl: "R w w"
    and trans: "R u v \<Longrightarrow> R v w \<Longrightarrow> R u w"
    and tick: "R w (tick w)"
    and permit: "R w (w\<lparr>w_permit := b\<rparr>)"
begin

lemma return: "keeps R (return_io a)"
  by (simp add: keeps_def refl)

lemma throw: "keeps R (throw_io e)"
  by (simp add: keeps_def refl)

lemma bind:
  assumes "keeps R m" and "\<And>a. keeps R (k a)"
  shows "keeps R (bind_io m k)"
proof (rule keepsI)
  fix w
  obtain r w' where m: "m w = (r, w')" by fastforce
  note 1 = keeps_runD [OF assms(1) m]
  show "R w (snd (bind_io m k w))"
    using m 1 trans [OF 1 keepsD [OF assms(2)]] by (cases r) (simp_all add: bind_io_def)
qed

lemma seq: "keeps R m \<Longrightarrow> keeps R k \<Longrightarrow> keeps R (then_io m k)"
  by (simp add: then_io_def bind)

lemma attempt: "keeps R m \<Longrightarrow> keeps R (attempt m)"
  by (auto simp: keeps_def attempt_def split: prod.split sum.split error.split) (metis snd_conv)+

lemma utc_now: "keeps R utc_now"
  by (simp add: keeps_def utc_now_def tick)

lemma notify_one: "keeps R notify_one"
  by (simp add: notify_one_def keeps_modify permit)

lemmas core_composition = return throw bind seq attempt utc_now notify_one

text \<open>A statement has an effect that its delivery and its loss both have.\<close>

lemma statement:
  assumes "\<And>w a t. q (current_event w) (client_ids w) (w_jobs w) = Inr (a, t) \<Longrightarrow> R w ((tick w)\<lparr>w_jobs := t\<rparr>)"
  shows "keeps R (statement q)"
  by (auto simp: keeps_def statement_def tick dest: assms split: delivery.split sum.split)

end

text \<open>Effects that say nothing of the metrics.\<close>

locale effect_order = effect_core +
  assumes metrics: "R w (w\<lparr>w_metrics := ms\<rparr>)"
begin

lemma count_metric: "keeps R (count_metric f)"
  by (simp add: count_metric_def keeps_modify metrics)

lemmas composition = core_composition count_metric

end

text \<open>Effects that say nothing of the table: every statement has them.\<close>

locale table_blind = effect_core +
  assumes table: "R w (w\<lparr>w_jobs := t\<rparr>)"
begin

lemma any_statement: "keeps R (statement q)"
  by (rule statement) (rule trans [OF tick table])

end

text \<open>
  An effect that a computation has once: \<open>earlier\<close> is what may come before it and \<open>later\<close> what may come
  after it, in the same computation. Each is a case of the effect, since an error may end it anywhere.
\<close>

locale one_shot =
  fixes earlier :: effect and shot :: effect and later :: effect
  assumes earlier_shot: "earlier u v \<Longrightarrow> shot u v"
    and later_shot: "later u v \<Longrightarrow> shot u v"
    and after_earlier: "earlier u v \<Longrightarrow> shot v w \<Longrightarrow> shot u w"
    and before_later: "shot u v \<Longrightarrow> later v w \<Longrightarrow> shot u w"
begin

lemma weaken: "keeps earlier m \<Longrightarrow> keeps shot m" "keeps later m \<Longrightarrow> keeps shot m"
  by (simp_all add: keeps_def earlier_shot later_shot)

lemma bind_earlier:
  assumes "keeps earlier m" "\<And>a. keeps shot (k a)"
  shows "keeps shot (bind_io m k)"
proof (rule keepsI)
  fix w
  obtain r w' where m: "m w = (r, w')" by fastforce
  show "shot w (snd (bind_io m k w))"
    using keeps_runD [OF assms(1) m] earlier_shot after_earlier keepsD [OF assms(2)] m
    by (cases r) (auto simp: bind_io_def)
qed

lemma bind_later:
  assumes "keeps shot m" "\<And>a. keeps later (k a)"
  shows "keeps shot (bind_io m k)"
proof (rule keepsI)
  fix w
  obtain r w' where m: "m w = (r, w')" by fastforce
  show "shot w (snd (bind_io m k w))"
    using keeps_runD [OF assms(1) m] before_later keepsD [OF assms(2)] m by (cases r) (auto simp: bind_io_def)
qed

lemma seq_earlier: "keeps earlier m \<Longrightarrow> keeps shot k \<Longrightarrow> keeps shot (then_io m k)"
  unfolding then_io_def by (rule bind_earlier)

lemma seq_later: "keeps shot m \<Longrightarrow> keeps later k \<Longrightarrow> keeps shot (then_io m k)"
  unfolding then_io_def by (rule bind_later)

lemma attempt: "keeps shot m \<Longrightarrow> keeps shot (attempt m)"
  by (auto simp: keeps_def attempt_def split: prod.split sum.split error.split) (metis snd_conv)+

end

section \<open>What a computation may do to the database\<close>

text \<open>
  \<open>sql_only m\<close>: whatever the environment does, running \<open>m\<close> changes the table by a sequence of the
  program's statements and leaves the clients and the environment alone.
\<close>

definition sql_effect :: effect where
  "sql_effect w w' \<longleftrightarrow> sql_steps (client_ids w) (w_jobs w) (w_jobs w') \<and>
     w_clients w' = w_clients w \<and> w_env w' = w_env w"

interpretation sql: effect_order sql_effect
proof
  show "sql_effect u v \<Longrightarrow> sql_effect v w \<Longrightarrow> sql_effect u w" for u v w
    by (auto simp: sql_effect_def client_ids_def intro: rtranclp_trans)
qed (simp_all add: sql_effect_def)

lemmas [effect_intro] = sql.composition

abbreviation sql_only :: "'a io \<Rightarrow> bool" where
  "sql_only \<equiv> keeps sql_effect"

lemma sql_onlyD:
  assumes "sql_only m"
  shows "sql_steps (client_ids w) (w_jobs w) (w_jobs (snd (m w)))"
    "w_clients (snd (m w)) = w_clients w" "w_env (snd (m w)) = w_env w"
    "client_ids (snd (m w)) = client_ids w" "quiet (snd (m w)) = quiet w"
  using assms by (auto simp: keeps_def sql_effect_def client_ids_def quiet_def)

lemma sql_only_modify [effect_intro]:
  "(\<And>w. w_jobs (f w) = w_jobs w) \<Longrightarrow> (\<And>w. w_clients (f w) = w_clients w) \<Longrightarrow>
     (\<And>w. w_env (f w) = w_env w) \<Longrightarrow> sql_only (modify_io f)"
  by (simp add: keeps_modify sql_effect_def)

lemma sql_only_statement:
  assumes "\<And>ev cl t a t'. q ev cl t = Inr (a, t') \<Longrightarrow> sql_steps cl t t'"
  shows "sql_only (statement q)"
  by (rule sql.statement) (simp add: sql_effect_def assms)

section \<open>Computations that send no webhook\<close>

definition posts_effect :: effect where
  "posts_effect w w' \<longleftrightarrow> w_posts w' = w_posts w"

interpretation posts: effect_order posts_effect
  by unfold_locales (simp_all add: posts_effect_def)

lemmas [effect_intro] = posts.composition

abbreviation no_posts :: "'a io \<Rightarrow> bool" where
  "no_posts \<equiv> keeps posts_effect"

lemma no_postsD: "no_posts m \<Longrightarrow> m w = (r, w') \<Longrightarrow> w_posts w' = w_posts w"
  using keeps_runD posts_effect_def by blast

interpretation posts_db: table_blind posts_effect
  by unfold_locales (simp add: posts_effect_def)

lemmas no_posts_statement [effect_intro] = posts_db.any_statement

section \<open>Computations that leave the scheduler and the workers alone\<close>

definition pool_state :: "world \<Rightarrow> scheduled_job list \<times> bool \<times> job list \<times> bool \<times> nat" where
  "pool_state w = (w_heap w, w_alive w, w_queue w, w_closed w, w_active w)"

definition pool_effect :: effect where
  "pool_effect w w' \<longleftrightarrow> pool_state w' = pool_state w"

interpretation pool: effect_order pool_effect
  by unfold_locales (simp_all add: pool_effect_def pool_state_def)

lemmas [effect_intro] = pool.composition

abbreviation leaves_pool :: "'a io \<Rightarrow> bool" where
  "leaves_pool \<equiv> keeps pool_effect"

lemma leaves_poolD: "leaves_pool m \<Longrightarrow> m w = (r, w') \<Longrightarrow> pool_state w' = pool_state w"
  using keeps_runD pool_effect_def by blast

interpretation pool_db: table_blind pool_effect
  by unfold_locales (simp add: pool_effect_def pool_state_def)

lemmas leaves_pool_statement [effect_intro] = pool_db.any_statement

section \<open>A world for the witnesses\<close>

text \<open>One client, a clock that advances by one microsecond with each interaction, fresh ids.\<close>

definition idle_event :: "nat \<Rightarrow> event" where
  "idle_event n = \<lparr>ev_delivery = Delivered, ev_now = int n, ev_uuid = n + 100, ev_reply = HookStatus 200\<rparr>"

definition no_metrics :: metrics where
  "no_metrics = \<lparr>m_scheduled = 0, m_dispatched = 0, m_completed = 0, m_failed = 0, m_expired = 0,
     m_executions = 0, m_webhook_failures = 0, m_recurring_created = 0, m_queue_depth = 0,
     m_worker_active = 0, m_heap_size = 0, m_recurring_active = 0\<rparr>"

definition idle_world :: "table \<Rightarrow> world" where
  "idle_world t = \<lparr>w_jobs = t, w_clients = [(''key'', 1)], w_env = idle_event, w_tick = 0,
     w_permit = False, w_heap = [], w_alive = False, w_queue = [], w_closed = False, w_active = 0, w_metrics = no_metrics, w_posts = [],
     w_sleeps = []\<rparr>"

lemma quiet_idle_world [simp]: "quiet (idle_world t)"
  by (simp add: quiet_def idle_world_def idle_event_def)

lemma idle_world_simps [simp]: "w_jobs (idle_world t) = t" "client_ids (idle_world t) = [1]"
  by (simp_all add: idle_world_def client_ids_def)

end
