(* ===== verification/Metrics.thy ===== *)
theory Metrics
  imports World
begin

text \<open>
  \<open>src/metrics.rs\<close>: the metrics that are described and the operations that record them. The recorder and
  the text of the exporter are library code.
\<close>

section \<open>The operations\<close>

definition record_job_scheduled :: "unit io" where
  "record_job_scheduled = count_metric (\<lambda>ms. ms\<lparr>m_scheduled := Suc (m_scheduled ms)\<rparr>)"

definition record_job_dispatched :: "unit io" where
  "record_job_dispatched = count_metric (\<lambda>ms. ms\<lparr>m_dispatched := Suc (m_dispatched ms)\<rparr>)"

definition record_job_completed :: "unit io" where
  "record_job_completed = count_metric (\<lambda>ms. ms\<lparr>m_completed := Suc (m_completed ms)\<rparr>)"

definition record_job_failed :: "unit io" where
  "record_job_failed = count_metric (\<lambda>ms. ms\<lparr>m_failed := Suc (m_failed ms)\<rparr>)"

definition record_job_expired :: "unit io" where
  "record_job_expired = count_metric (\<lambda>ms. ms\<lparr>m_expired := Suc (m_expired ms)\<rparr>)"

text \<open>Called by \<open>WorkerPoolHandle::set_queue_depth\<close>, which nothing calls.\<close>

definition set_worker_queue_depth :: "nat \<Rightarrow> unit io" where
  "set_worker_queue_depth depth = count_metric (\<lambda>ms. ms\<lparr>m_queue_depth := depth\<rparr>)"

definition set_worker_active_count :: "nat \<Rightarrow> unit io" where
  "set_worker_active_count n = count_metric (\<lambda>ms. ms\<lparr>m_worker_active := n\<rparr>)"

text \<open>Of the histogram of durations the model keeps the number of records.\<close>

definition record_execution_duration :: "unit io" where
  "record_execution_duration = count_metric (\<lambda>ms. ms\<lparr>m_executions := Suc (m_executions ms)\<rparr>)"

definition record_webhook_failure :: "unit io" where
  "record_webhook_failure =
     count_metric (\<lambda>ms. ms\<lparr>m_webhook_failures := Suc (m_webhook_failures ms)\<rparr>)"

definition set_scheduler_heap_size :: "nat \<Rightarrow> unit io" where
  "set_scheduler_heap_size n = count_metric (\<lambda>ms. ms\<lparr>m_heap_size := n\<rparr>)"

definition set_recurring_jobs_active :: "int \<Rightarrow> unit io" where
  "set_recurring_jobs_active n = count_metric (\<lambda>ms. ms\<lparr>m_recurring_active := n\<rparr>)"

definition record_recurring_instance_created :: "unit io" where
  "record_recurring_instance_created =
     count_metric (\<lambda>ms. ms\<lparr>m_recurring_created := Suc (m_recurring_created ms)\<rparr>)"

lemmas recorder_defs = record_job_scheduled_def record_job_dispatched_def record_job_completed_def record_job_failed_def
  record_job_expired_def set_worker_queue_depth_def set_worker_active_count_def record_execution_duration_def
  record_webhook_failure_def set_scheduler_heap_size_def set_recurring_jobs_active_def
  record_recurring_instance_created_def

text \<open>An effect that says nothing of the metrics is an effect of all of them.\<close>

context effect_order begin

lemma recorders:
  "keeps R record_job_scheduled" "keeps R record_job_dispatched" "keeps R record_job_completed"
  "keeps R record_job_failed" "keeps R record_job_expired" "keeps R (set_worker_queue_depth n)"
  "keeps R (set_worker_active_count n)" "keeps R record_execution_duration" "keeps R record_webhook_failure"
  "keeps R (set_scheduler_heap_size n)" "keeps R (set_recurring_jobs_active v)" "keeps R record_recurring_instance_created"
  unfolding recorder_defs by (rule count_metric)+

end

lemmas [effect_intro] = sql.recorders posts.recorders pool.recorders

section \<open>The recorder\<close>

text \<open>What \<open>init\<close> describes to the recorder.\<close>

datatype metric_kind = Counter | Gauge | Histogram

definition described_metrics :: "(metric_kind \<times> string \<times> string) list" where
  "described_metrics =
     [(Counter, ''jobs_scheduled_total'', ''Total number of jobs created via the API''),
      (Counter, ''jobs_dispatched_total'', ''Total number of jobs dispatched to the worker pool''),
      (Counter, ''jobs_completed_total'', ''Total number of jobs completed successfully''),
      (Counter, ''jobs_failed_total'', ''Total number of jobs that reached a final failure state''),
      (Counter, ''jobs_expired_total'', ''Total number of jobs that hit TTL''),
      (Gauge, ''worker_queue_depth'', ''Current number of jobs waiting in the worker channel''),
      (Gauge, ''worker_active_count'', ''Number of jobs currently executing''),
      (Histogram, ''job_execution_duration_seconds'', ''Job execution duration in seconds''),
      (Counter, ''webhook_failures_total'', ''Total number of failed webhook delivery attempts''),
      (Gauge, ''scheduler_heap_size'', ''Number of jobs in the scheduler in-memory heap''),
      (Gauge, ''recurring_jobs_active'', ''Number of active recurring job templates''),
      (Counter, ''recurring_instances_created_total'', ''Total number of recurring job instances created'')]"

text \<open>The value of a metric, by the name under which the operations record it.\<close>

definition metric_value :: "metrics \<Rightarrow> string \<Rightarrow> int option" where
  "metric_value ms = map_of
     [(''jobs_scheduled_total'', int (m_scheduled ms)), (''jobs_dispatched_total'', int (m_dispatched ms)),
      (''jobs_completed_total'', int (m_completed ms)), (''jobs_failed_total'', int (m_failed ms)),
      (''jobs_expired_total'', int (m_expired ms)), (''worker_queue_depth'', int (m_queue_depth ms)),
      (''worker_active_count'', int (m_worker_active ms)), (''job_execution_duration_seconds'', int (m_executions ms)),
      (''webhook_failures_total'', int (m_webhook_failures ms)), (''scheduler_heap_size'', int (m_heap_size ms)),
      (''recurring_jobs_active'', m_recurring_active ms), (''recurring_instances_created_total'', int (m_recurring_created ms))]"

text \<open>
  \<open>init\<close> installs the recorder. The macros record nothing before it is there, so whatever the tasks have
  recorded until then is lost.
\<close>

definition metrics_init :: "unit io" where
  "metrics_init = modify_io (\<lambda>w. w\<lparr>w_metrics := no_metrics\<rparr>)"

text \<open>Between two values of the metrics, what is described as a counter or a histogram has not decreased.\<close>

definition counters_grow :: "metrics \<Rightarrow> metrics \<Rightarrow> bool" where
  "counters_grow a b \<longleftrightarrow> list_all (\<lambda>(kind, name, help).
     case (metric_value a name, metric_value b name) of
       (Some u, Some v) \<Rightarrow> kind = Gauge \<or> u \<le> v
     | _ \<Rightarrow> False) described_metrics"

lemma counters_grow_iff [simp]:
  "counters_grow a b \<longleftrightarrow> m_scheduled a \<le> m_scheduled b \<and> m_dispatched a \<le> m_dispatched b \<and>
     m_completed a \<le> m_completed b \<and> m_failed a \<le> m_failed b \<and> m_expired a \<le> m_expired b \<and>
     m_executions a \<le> m_executions b \<and> m_webhook_failures a \<le> m_webhook_failures b \<and>
     m_recurring_created a \<le> m_recurring_created b"
  by (simp add: counters_grow_def described_metrics_def metric_value_def)

end
