(* ===== verification/Payload_Codec.thy ===== *)
theory Payload_Codec
  imports World
begin

text \<open>
  The JSON form of a payload, as the serde attributes of \<open>JobPayload\<close> describe it: an object whose
  \<open>type\<close> member is the lower-case variant name, with the fields of the variant as its other members;
  \<open>headers\<close>, \<open>body\<close>, \<open>args\<close> and \<open>timeout_sec\<close> may be missing. The model takes the codec as a
  parameter (\<open>x_to_value\<close>, \<open>x_from_value\<close>) under the hypothesis \<open>codec_ok\<close>; the functions here are
  an instance, used where a theorem needs one.
\<close>

definition default_timeout :: nat where
  "default_timeout = 30"

text \<open>The payloads whose timeout is a \<open>u64\<close>.\<close>

definition payload_ok :: "job_payload \<Rightarrow> bool" where
  "payload_ok p \<longleftrightarrow> int (timeout_sec p) \<le> u64_max"

definition codec_ok :: "externals \<Rightarrow> bool" where
  "codec_ok x \<longleftrightarrow>
     (\<forall>p. payload_ok p \<longrightarrow> (\<exists>v. x_to_value x p = Some v \<and> x_from_value x v = Some p)) \<and>
     (\<forall>v p. x_from_value x v = Some p \<longrightarrow> payload_ok p)"

lemma codec_okD:
  assumes "codec_ok x"
  shows "payload_ok p \<Longrightarrow> \<exists>v. x_to_value x p = Some v \<and> x_from_value x v = Some p"
    "payload_ok p \<Longrightarrow> x_to_value x p = Some v \<Longrightarrow> x_from_value x v = Some p"
    "x_from_value x v = Some p \<Longrightarrow> payload_ok p"
  using assms by (force simp: codec_ok_def)+

section \<open>Serializing\<close>

definition text_or_null :: "string option \<Rightarrow> json" where
  "text_or_null s = (case s of None \<Rightarrow> JNull | Some v \<Rightarrow> JStr v)"

fun payload_to_value :: "job_payload \<Rightarrow> json" where
  "payload_to_value (Http m u hs b t) =
     JObj [(''type'', JStr ''http''), (''method'', JStr m), (''url'', JStr u),
       (''headers'', JObj (map (\<lambda>(k, v). (k, JStr v)) hs)),
       (''body'', text_or_null b), (''timeout_sec'', JNum (int t))]"
| "payload_to_value (Script p as t) =
     JObj [(''type'', JStr ''script''), (''path'', JStr p), (''args'', JArr (map JStr as)),
       (''timeout_sec'', JNum (int t))]"

section \<open>Deserializing\<close>

fun as_text :: "json \<Rightarrow> string option" where
  "as_text (JStr s) = Some s"
| "as_text _ = None"

fun as_optional_text :: "json \<Rightarrow> string option option" where
  "as_optional_text JNull = Some None"
| "as_optional_text (JStr s) = Some (Some s)"
| "as_optional_text _ = None"

fun as_u64 :: "json \<Rightarrow> nat option" where
  "as_u64 (JNum n) = (if 0 \<le> n \<and> n \<le> u64_max then Some (nat n) else None)"
| "as_u64 _ = None"

fun all_some :: "'a option list \<Rightarrow> 'a list option" where
  "all_some [] = Some []"
| "all_some (None # _) = None"
| "all_some (Some a # xs) = map_option (Cons a) (all_some xs)"

fun as_texts :: "json \<Rightarrow> string list option" where
  "as_texts (JArr vs) = all_some (map as_text vs)"
| "as_texts _ = None"

fun as_text_map :: "json \<Rightarrow> (string \<times> string) list option" where
  "as_text_map (JObj kvs) = all_some (map (\<lambda>(k, v). map_option (Pair k) (as_text v)) kvs)"
| "as_text_map _ = None"

text \<open>A member that must be there, and one that \<open>#[serde(default)]\<close> fills in when it is missing.\<close>

definition required :: "(json \<Rightarrow> 'a option) \<Rightarrow> (string \<times> json) list \<Rightarrow> string \<Rightarrow> 'a option" where
  "required f kvs k = Option.bind (map_of kvs k) f"

definition defaulted :: "'a \<Rightarrow> (json \<Rightarrow> 'a option) \<Rightarrow> (string \<times> json) list \<Rightarrow> string \<Rightarrow> 'a option" where
  "defaulted d f kvs k = (case map_of kvs k of None \<Rightarrow> Some d | Some v \<Rightarrow> f v)"

definition http_from_members :: "(string \<times> json) list \<Rightarrow> job_payload option" where
  "http_from_members kvs =
     Option.bind (required as_text kvs ''method'') (\<lambda>m.
     Option.bind (required as_text kvs ''url'') (\<lambda>u.
     Option.bind (defaulted [] as_text_map kvs ''headers'') (\<lambda>hs.
     Option.bind (defaulted None as_optional_text kvs ''body'') (\<lambda>b.
     Option.bind (defaulted default_timeout as_u64 kvs ''timeout_sec'') (\<lambda>t.
       Some (Http m u hs b t))))))"

definition script_from_members :: "(string \<times> json) list \<Rightarrow> job_payload option" where
  "script_from_members kvs =
     Option.bind (required as_text kvs ''path'') (\<lambda>p.
     Option.bind (defaulted [] as_texts kvs ''args'') (\<lambda>as.
     Option.bind (defaulted default_timeout as_u64 kvs ''timeout_sec'') (\<lambda>t.
       Some (Script p as t))))"

fun payload_from_value :: "json \<Rightarrow> job_payload option" where
  "payload_from_value (JObj kvs) =
     (case required as_text kvs ''type'' of
        None \<Rightarrow> None
      | Some tag \<Rightarrow>
          if tag = ''http'' then http_from_members kvs
          else if tag = ''script'' then script_from_members kvs
          else None)"
| "payload_from_value _ = None"

lemma all_some_text: "all_some (map (\<lambda>x. as_text (JStr x)) as) = Some as"
  by (induction as) auto

lemma all_some_headers:
  "all_some (map ((\<lambda>(k, v). map_option (Pair k) (as_text v)) \<circ> (\<lambda>(k, v). (k, JStr v))) hs) = Some hs"
  by (induction hs) auto

lemma as_text_map_map: "as_text_map (JObj (map (\<lambda>(k, v). (k, JStr v)) hs)) = Some hs"
  by (simp add: all_some_headers)

lemma as_texts_map: "as_texts (JArr (map JStr as)) = Some as"
  using all_some_text [of as] by (simp add: comp_def)

lemma as_optional_text_or_null [simp]: "as_optional_text (text_or_null b) = Some b"
  by (cases b) (simp_all add: text_or_null_def)

lemma payload_roundtrip_lemma:
  assumes "payload_ok p"
  shows "payload_from_value (payload_to_value p) = Some p"
  using assms
  by (cases p)
    (simp_all add: payload_ok_def required_def defaulted_def http_from_members_def
      script_from_members_def as_texts_map as_text_map_map del: as_text_map.simps as_texts.simps)

text \<open>A payload written to the JSONB column is read back as it was, for every variant and every
  timeout of type \<open>u64\<close>.\<close>

theorem payload_roundtrip:
  assumes "payload_ok p"
  shows "payload_from_value (payload_to_value p) = Some p"
  using assms by (rule payload_roundtrip_lemma)

theorem payload_roundtrip_witness:
  "payload_from_value (payload_to_value (Http ''GET'' ''u'' [(''a'', ''b'')] None 30)) =
     Some (Http ''GET'' ''u'' [(''a'', ''b'')] None 30)"
  by (rule payload_roundtrip) (simp add: payload_ok_def int_limits)

lemma as_u64_ok: "as_u64 v = Some n \<Longrightarrow> int n \<le> u64_max"
  by (cases v) (auto split: if_splits)

lemma defaulted_u64_ok: "defaulted default_timeout as_u64 kvs k = Some n \<Longrightarrow> int n \<le> u64_max"
  by (auto simp: defaulted_def default_timeout_def int_limits [symmetric] as_u64_ok
      split: option.splits) (simp add: int_limits)

lemma payload_from_value_ok:
  assumes "payload_from_value v = Some p"
  shows "payload_ok p"
  using assms
  by (cases v)
    (auto simp: payload_ok_def http_from_members_def script_from_members_def bind_eq_Some_conv
      dest: defaulted_u64_ok split: option.splits if_splits)

text \<open>The instance of the library parameters that the witnesses use: this codec, a schedule that
  fires every minute, and decimal text forms.\<close>

definition sample_externals :: externals where
  "sample_externals =
     \<lparr>x_to_value = (\<lambda>p. Some (payload_to_value p)), x_from_value = payload_from_value,
      x_cron = (\<lambda>s. if s = [] then None else Some (\<lambda>t. Some (t + seconds 60))),
      x_uuid_text = decimal, x_rfc3339 = (\<lambda>t. decimal (nat (t div seconds 1)))\<rparr>"

lemma sample_codec_ok: "codec_ok sample_externals"
  by (simp add: codec_ok_def sample_externals_def payload_from_value_ok payload_roundtrip_lemma)

text \<open>A row whose payload decodes, for the witnesses.\<close>

definition sample_payload :: json where
  "sample_payload = payload_to_value (Http ''GET'' ''u'' [] None 30)"

definition sample_row :: "uuid \<Rightarrow> string \<Rightarrow> string option \<Rightarrow> job_row" where
  "sample_row i st hook = new_row i 0 (decimal i) 1 sample_payload st 0 None 3 60 hook
     False None None None None None ''queue_once'' False"

lemma decode_sample_row:
  "\<exists>j. from_row (x_from_value sample_externals) (sample_row i (job_state_as_str st) hook) = Inr j \<and>
     job_state_of j = st \<and> job_webhook_url j = hook \<and> job_webhook_attempts j = 0"
  using payload_roundtrip_lemma [of "Http ''GET'' ''u'' [] None 30"]
  by (simp add: from_row_def sample_row_def new_row_def sample_externals_def sample_payload_def
      payload_ok_def int_limits)

end
