(* ===== verification/Request_Codec.thy ===== *)
theory Request_Codec
  imports Payload_Codec
begin

text \<open>
  The JSON bodies of requests and responses, as the serde attributes of \<open>src/models/job.rs\<close> describe
  them. The value is what \<open>serde_json\<close> has parsed, members in the order of the text and with
  repetitions; numbers are the integral ones. The text of instants is a parameter.
\<close>

section \<open>Structures\<close>

text \<open>
  A derived \<open>Deserialize\<close> of a struct takes an object, in which unknown members are skipped and a
  repeated known member is an error, or an array with the fields in their order, of which trailing ones
  may be missing.
\<close>

definition struct_members :: "string list \<Rightarrow> json \<Rightarrow> (string \<times> json) list option" where
  "struct_members names v =
     (case v of
        JObj kvs \<Rightarrow> if distinct (filter (\<lambda>k. k \<in> set names) (map fst kvs)) then Some kvs else None
      | JArr vs \<Rightarrow> if length vs \<le> length names then Some (zip names vs) else None
      | _ \<Rightarrow> None)"

fun as_i32 :: "json \<Rightarrow> int option" where
  "as_i32 (JNum n) = (if is_i32 n then Some n else None)"
| "as_i32 _ = None"

text \<open>\<open>Option\<close>: null is \<open>None\<close>.\<close>

definition as_optional :: "(json \<Rightarrow> 'a option) \<Rightarrow> json \<Rightarrow> 'a option option" where
  "as_optional f v = (if v = JNull then Some None else map_option Some (f v))"

definition as_time :: "(string \<Rightarrow> time option) \<Rightarrow> json \<Rightarrow> time option" where
  "as_time parse_time v = Option.bind (as_text v) parse_time"

definition or_null :: "('a \<Rightarrow> json) \<Rightarrow> 'a option \<Rightarrow> json" where
  "or_null f a = (case a of None \<Rightarrow> JNull | Some b \<Rightarrow> f b)"

section \<open>Requests\<close>

text \<open>
  The variants of \<open>ConcurrencyPolicy\<close> in snake case; a variant is its name, or an object whose only
  member is the name with null.
\<close>

definition variant_name :: "json \<Rightarrow> string option" where
  "variant_name v = (case v of JStr s \<Rightarrow> Some s | JObj [(s, JNull)] \<Rightarrow> Some s | _ \<Rightarrow> None)"

definition policy_from_value :: "json \<Rightarrow> concurrency_policy option" where
  "policy_from_value v = Option.bind (variant_name v) (\<lambda>s.
     if s = ''skip'' then Some Skip else if s = ''allow'' then Some Allow
     else if s = ''queue_once'' then Some QueueOnce else None)"

fun policy_to_value :: "concurrency_policy \<Rightarrow> json" where
  "policy_to_value Skip = JStr ''skip''"
| "policy_to_value Allow = JStr ''allow''"
| "policy_to_value QueueOnce = JStr ''queue_once''"

text \<open>The variants of \<open>JobState\<close> in upper snake case.\<close>

fun state_to_value :: "job_state \<Rightarrow> json" where
  "state_to_value Scheduled = JStr ''SCHEDULED''"
| "state_to_value Leased = JStr ''LEASED''"
| "state_to_value Running = JStr ''RUNNING''"
| "state_to_value Completed = JStr ''COMPLETED''"
| "state_to_value Failed = JStr ''FAILED''"
| "state_to_value Expired = JStr ''EXPIRED''"
| "state_to_value Cancelled = JStr ''CANCELLED''"
| "state_to_value DeadLetter = JStr ''DEAD_LETTER''"

definition recurrence_fields :: "string list" where
  "recurrence_fields = [''cron_expr'', ''end_at'', ''max_occurrences'', ''concurrency_policy'']"

definition recurrence_from_value :: "(string \<Rightarrow> time option) \<Rightarrow> json \<Rightarrow> recurrence_config option" where
  "recurrence_from_value parse_time v =
     Option.bind (struct_members recurrence_fields v) (\<lambda>kvs.
     Option.bind (required as_text kvs ''cron_expr'') (\<lambda>cron_expr.
     Option.bind (defaulted None (as_optional (as_time parse_time)) kvs ''end_at'') (\<lambda>end_at.
     Option.bind (defaulted None (as_optional as_i32) kvs ''max_occurrences'') (\<lambda>max_occurrences.
     Option.bind (defaulted QueueOnce policy_from_value kvs ''concurrency_policy'') (\<lambda>policy.
       Some \<lparr>rc_cron_expr = cron_expr, rc_end_at = end_at, rc_max_occurrences = max_occurrences,
             rc_concurrency_policy = policy\<rparr>)))))"

definition default_max_retries :: int where
  "default_max_retries = 3"

definition default_retry_delay :: int where
  "default_retry_delay = 60"

definition request_fields :: "string list" where
  "request_fields = [''idempotency_key'', ''payload'', ''scheduled_at'', ''expires_at'', ''max_retries'',
     ''retry_delay_sec'', ''webhook_url'', ''recurrence'']"

definition request_from_value ::
  "(json \<Rightarrow> job_payload option) \<Rightarrow> (string \<Rightarrow> time option) \<Rightarrow> json \<Rightarrow> create_job_request option" where
  "request_from_value payload_dec parse_time v =
     Option.bind (struct_members request_fields v) (\<lambda>kvs.
     Option.bind (required as_text kvs ''idempotency_key'') (\<lambda>key.
     Option.bind (required payload_dec kvs ''payload'') (\<lambda>payload.
     Option.bind (required (as_time parse_time) kvs ''scheduled_at'') (\<lambda>scheduled_at.
     Option.bind (defaulted None (as_optional (as_time parse_time)) kvs ''expires_at'') (\<lambda>expires_at.
     Option.bind (defaulted default_max_retries as_i32 kvs ''max_retries'') (\<lambda>max_retries.
     Option.bind (defaulted default_retry_delay as_i32 kvs ''retry_delay_sec'') (\<lambda>retry_delay_sec.
     Option.bind (defaulted None (as_optional as_text) kvs ''webhook_url'') (\<lambda>webhook_url.
     Option.bind (defaulted None (as_optional (recurrence_from_value parse_time)) kvs ''recurrence'') (\<lambda>recurrence.
       Some \<lparr>req_idempotency_key = key, req_payload = payload, req_scheduled_at = scheduled_at,
             req_expires_at = expires_at, req_max_retries = max_retries,
             req_retry_delay_sec = retry_delay_sec, req_webhook_url = webhook_url,
             req_recurrence = recurrence\<rparr>)))))))))"

definition patch_from_value :: "json \<Rightarrow> patch_job_request option" where
  "patch_from_value v =
     Option.bind (struct_members [''cron_expr''] v) (\<lambda>kvs.
       map_option (\<lambda>e. \<lparr>patch_cron_expr = e\<rparr>) (required as_text kvs ''cron_expr''))"

text \<open>The derived \<open>Serialize\<close> writes every field.\<close>

definition recurrence_to_value :: "(time \<Rightarrow> string) \<Rightarrow> recurrence_config \<Rightarrow> json" where
  "recurrence_to_value time_text rc =
     JObj [(''cron_expr'', JStr (rc_cron_expr rc)), (''end_at'', or_null (JStr \<circ> time_text) (rc_end_at rc)),
       (''max_occurrences'', or_null JNum (rc_max_occurrences rc)),
       (''concurrency_policy'', policy_to_value (rc_concurrency_policy rc))]"

definition request_to_value ::
  "(job_payload \<Rightarrow> json) \<Rightarrow> (time \<Rightarrow> string) \<Rightarrow> create_job_request \<Rightarrow> json" where
  "request_to_value payload_enc time_text req =
     JObj [(''idempotency_key'', JStr (req_idempotency_key req)), (''payload'', payload_enc (req_payload req)),
       (''scheduled_at'', JStr (time_text (req_scheduled_at req))),
       (''expires_at'', or_null (JStr \<circ> time_text) (req_expires_at req)),
       (''max_retries'', JNum (req_max_retries req)), (''retry_delay_sec'', JNum (req_retry_delay_sec req)),
       (''webhook_url'', or_null JStr (req_webhook_url req)),
       (''recurrence'', or_null (recurrence_to_value time_text) (req_recurrence req))]"

section \<open>Responses\<close>

definition response_to_value ::
  "(job_payload \<Rightarrow> json) \<Rightarrow> (time \<Rightarrow> string) \<Rightarrow> (uuid \<Rightarrow> string) \<Rightarrow> job_response \<Rightarrow> json" where
  "response_to_value payload_enc time_text uuid_text r =
     JObj [(''id'', JStr (uuid_text (resp_id r))), (''idempotency_key'', JStr (resp_idempotency_key r)),
       (''state'', state_to_value (resp_state r)), (''payload'', payload_enc (resp_payload r)),
       (''scheduled_at'', JStr (time_text (resp_scheduled_at r))),
       (''expires_at'', or_null (JStr \<circ> time_text) (resp_expires_at r)),
       (''attempt_count'', JNum (resp_attempt_count r)), (''max_retries'', JNum (resp_max_retries r)),
       (''retry_delay_sec'', JNum (resp_retry_delay_sec r)), (''webhook_url'', or_null JStr (resp_webhook_url r)),
       (''is_recurring'', JBool (resp_is_recurring r)), (''cron_expr'', or_null JStr (resp_cron_expr r)),
       (''next_instance_at'', or_null (JStr \<circ> time_text) (resp_next_instance_at r)),
       (''max_occurrences'', or_null JNum (resp_max_occurrences r)),
       (''occurrences_completed'', JNum (resp_occurrences_completed r)),
       (''recurrence_end_at'', or_null (JStr \<circ> time_text) (resp_recurrence_end_at r)),
       (''parent_job_id'', or_null (JStr \<circ> uuid_text) (resp_parent_job_id r)),
       (''concurrency_policy'', policy_to_value (resp_concurrency_policy r)),
       (''is_template'', JBool (resp_is_template r)),
       (''created_at'', JStr (time_text (resp_created_at r))), (''updated_at'', JStr (time_text (resp_updated_at r)))]"

section \<open>Round trips\<close>

lemma as_optional_or_null:
  "(\<And>a. v = Some a \<Longrightarrow> f (g a) = Some a \<and> g a \<noteq> JNull) \<Longrightarrow> as_optional f (or_null g v) = Some v"
  by (cases v) (auto simp: as_optional_def or_null_def)

lemma policy_roundtrip [simp]: "policy_from_value (policy_to_value p) = Some p"
  by (cases p) (simp_all add: policy_from_value_def variant_name_def)

text \<open>The text forms of serde are those the database stores.\<close>

lemma policy_value_text: "policy_to_value p = JStr (policy_as_str p)"
  by (cases p) simp_all

lemma state_value_text: "state_to_value s = JStr (job_state_as_str s)"
  by (cases s) simp_all

definition recurrence_ok :: "recurrence_config \<Rightarrow> bool" where
  "recurrence_ok rc \<longleftrightarrow> (case rc_max_occurrences rc of None \<Rightarrow> True | Some m \<Rightarrow> is_i32 m)"

definition request_ok :: "create_job_request \<Rightarrow> bool" where
  "request_ok req \<longleftrightarrow> payload_ok (req_payload req) \<and> is_i32 (req_max_retries req) \<and> is_i32 (req_retry_delay_sec req) \<and>
     (case req_recurrence req of None \<Rightarrow> True | Some rc \<Rightarrow> recurrence_ok rc)"

lemma as_time_text: "parse_time (time_text t) = Some t \<Longrightarrow> as_time parse_time (JStr (time_text t)) = Some t"
  by (simp add: as_time_def)

lemma recurrence_roundtrip:
  assumes "recurrence_ok rc" "\<And>t. parse_time (time_text t) = Some t"
  shows "recurrence_from_value parse_time (recurrence_to_value time_text rc) = Some rc"
proof -
  have "as_optional (as_time parse_time) (or_null (JStr \<circ> time_text) (rc_end_at rc)) = Some (rc_end_at rc)"
    using assms(2) by (intro as_optional_or_null) (simp add: as_time_text)
  moreover have "as_optional as_i32 (or_null JNum (rc_max_occurrences rc)) = Some (rc_max_occurrences rc)"
    using assms(1) by (intro as_optional_or_null) (simp add: recurrence_ok_def)
  ultimately show ?thesis
    by (simp add: recurrence_from_value_def recurrence_to_value_def struct_members_def recurrence_fields_def
        required_def defaulted_def)
qed


text \<open>A text of instants for the witnesses: one sign for each unit.\<close>

definition tally_text :: "time \<Rightarrow> string" where
  "tally_text t = (if 0 \<le> t then replicate (nat t) CHR ''+'' else replicate (nat (- t)) CHR ''-'')"

definition tally_parse :: "string \<Rightarrow> time option" where
  "tally_parse s = (if list_all (\<lambda>c. c = CHR ''+'') s then Some (int (length s))
     else if list_all (\<lambda>c. c = CHR ''-'') s then Some (- int (length s)) else None)"

lemma tally_roundtrip: "tally_parse (tally_text t) = Some t"
  by (simp add: tally_parse_def tally_text_def list_all_iff)

definition full_request :: create_job_request where
  "full_request =
     \<lparr>req_idempotency_key = ''k'', req_payload = Script ''a'' [''b''] 7, req_scheduled_at = 5, req_expires_at = Some (- 2),
      req_max_retries = 1, req_retry_delay_sec = - 1, req_webhook_url = Some ''u'',
      req_recurrence = Some \<lparr>rc_cron_expr = ''0 8 * * *'', rc_end_at = None, rc_max_occurrences = Some 2,
        rc_concurrency_policy = Allow\<rparr>\<rparr>"


section \<open>What decoding accepts\<close>

lemma as_i32_range: "as_i32 v = Some n \<Longrightarrow> is_i32 n"
  by (cases v) (auto split: if_splits)

lemma recurrence_from_value_ok: "recurrence_from_value parse_time v = Some rc \<Longrightarrow> recurrence_ok rc"
  by (auto simp: recurrence_from_value_def recurrence_ok_def bind_eq_Some_conv as_optional_def defaulted_def as_i32_range
      split: option.splits if_splits)

lemma request_from_value_ok:
  assumes "request_from_value payload_from_value parse_time v = Some req"
  shows "request_ok req"
proof -
  obtain kvs where "required payload_from_value kvs ''payload'' = Some (req_payload req)"
    "defaulted default_max_retries as_i32 kvs ''max_retries'' = Some (req_max_retries req)"
    "defaulted default_retry_delay as_i32 kvs ''retry_delay_sec'' = Some (req_retry_delay_sec req)"
    "defaulted None (as_optional (recurrence_from_value parse_time)) kvs ''recurrence'' = Some (req_recurrence req)"
    using assms unfolding request_from_value_def bind_eq_Some_conv by force
  moreover have "payload_ok p" if "required payload_from_value kvs k = Some p" for k p
    using that payload_from_value_ok by (auto simp: required_def bind_eq_Some_conv)
  moreover have "is_i32 n" if "defaulted d as_i32 kvs k = Some n" "is_i32 d" for d k n
    using that as_i32_range by (auto simp: defaulted_def split: option.splits)
  moreover have "case rc of None \<Rightarrow> True | Some c \<Rightarrow> recurrence_ok c"
    if "defaulted None (as_optional (recurrence_from_value parse_time)) kvs k = Some rc" for k rc
    using that recurrence_from_value_ok
    by (auto simp: defaulted_def as_optional_def split: option.splits if_splits)
  moreover have "is_i32 default_max_retries" "is_i32 default_retry_delay"
    by (simp_all add: default_max_retries_def default_retry_delay_def is_i32_def int_limits)
  ultimately show ?thesis unfolding request_ok_def by blast
qed

text \<open>A body with the three required members is accepted whatever other members it has, in any order,
  and the missing ones get their defaults: three retries, a delay of a minute, no expiry, no webhook and
  no recurrence.\<close>

theorem request_defaults:
  assumes "distinct (filter (\<lambda>k. k \<in> set request_fields) (map fst kvs))"
    and "map_of kvs ''idempotency_key'' = Some (JStr key)" "map_of kvs ''payload'' = Some v" "payload_dec v = Some p"
    and "map_of kvs ''scheduled_at'' = Some (JStr s)" "parse_time s = Some t"
    and "\<forall>k\<in>{''expires_at'', ''max_retries'', ''retry_delay_sec'', ''webhook_url'', ''recurrence''}. map_of kvs k = None"
  shows "request_from_value payload_dec parse_time (JObj kvs) =
    Some \<lparr>req_idempotency_key = key, req_payload = p, req_scheduled_at = t, req_expires_at = None,
      req_max_retries = 3, req_retry_delay_sec = 60, req_webhook_url = None, req_recurrence = None\<rparr>"
  using assms
  by (auto simp: request_from_value_def struct_members_def required_def defaulted_def as_time_def
      default_max_retries_def default_retry_delay_def)

theorem request_defaults_witness:
  "request_from_value payload_from_value tally_parse
     (JObj [(''note'', JNull), (''scheduled_at'', JStr ''+++''), (''payload'', JObj [(''type'', JStr ''script''), (''path'', JStr ''a'')]),
            (''note'', JNum 1), (''idempotency_key'', JStr ''k'')]) =
   Some \<lparr>req_idempotency_key = ''k'', req_payload = Script ''a'' [] 30, req_scheduled_at = 3, req_expires_at = None,
      req_max_retries = 3, req_retry_delay_sec = 60, req_webhook_url = None, req_recurrence = None\<rparr>"
proof -
  have "tally_parse ''+++'' = Some 3" by code_simp
  moreover have "payload_from_value (JObj [(''type'', JStr ''script''), (''path'', JStr ''a'')]) = Some (Script ''a'' [] 30)"
    by code_simp
  ultimately show ?thesis by (intro request_defaults) (simp_all add: request_fields_def del: payload_from_value.simps)
qed

end
