(* ===== verification/Repository.thy ===== *)
theory Repository
  imports Metrics
begin

text \<open>
  \<open>JobRepository\<close> of \<open>src/db/queries.rs\<close>: every method as a computation over the statements of
  \<open>Jobs_Table\<close>. Rows are decoded after the statement, so a row that does not decode is an error
  although the statement took effect.
\<close>

section \<open>Decoding\<close>

definition decode_row :: "externals \<Rightarrow> job_row \<Rightarrow> job io" where
  "decode_row x r =
     (case from_row (x_from_value x) r of
        Inl e \<Rightarrow> throw_io (Sqlx (DecodeError e))
      | Inr j \<Rightarrow> return_io j)"

definition decode_optional :: "externals \<Rightarrow> job_row option \<Rightarrow> job option io" where
  "decode_optional x row =
     (case row of
        None \<Rightarrow> return_io None
      | Some r \<Rightarrow> bind_io (decode_row x r) (\<lambda>j. return_io (Some j)))"

text \<open>\<open>fetch_optional\<close>: the first row of the result.\<close>

definition first_row :: "job_row list \<Rightarrow> job_row option" where
  "first_row rows = (case rows of [] \<Rightarrow> None | r # _ \<Rightarrow> Some r)"

definition select :: "(job_row \<Rightarrow> bool) \<Rightarrow> job_row list io" where
  "select p = statement (\<lambda>_ _ t. Inr (filter p t, t))"

text \<open>An UPDATE returns the number of rows it changed (\<open>rows_affected\<close>).\<close>

definition update :: "(event \<Rightarrow> job_row \<Rightarrow> bool) \<Rightarrow> (event \<Rightarrow> job_row \<Rightarrow> job_row) \<Rightarrow> nat io" where
  "update p g = statement (\<lambda>ev _ t. Inr (count_where (p ev) t, update_where (p ev) (g ev) t))"

section \<open>The methods\<close>

definition load_api_keys :: "(string \<times> uuid) list io" where
  "load_api_keys = bind_io (statement (\<lambda>_ _ t. Inr ((), t))) (\<lambda>_ w. (Inr (w_clients w), w))"

definition get_by_idempotency_key :: "externals \<Rightarrow> string \<Rightarrow> job option io" where
  "get_by_idempotency_key x key =
     bind_io (select (\<lambda>r. row_idempotency_key r = key)) (\<lambda>rows. decode_optional x (first_row rows))"

definition get_job_by_id :: "externals \<Rightarrow> uuid \<Rightarrow> uuid \<Rightarrow> job option io" where
  "get_job_by_id x jid client =
     bind_io (select (\<lambda>r. row_id r = jid \<and> row_client_id r = Some client))
       (\<lambda>rows. decode_optional x (first_row rows))"

definition get_job_by_id_internal :: "externals \<Rightarrow> uuid \<Rightarrow> job option io" where
  "get_job_by_id_internal x jid =
     bind_io (select (\<lambda>r. row_id r = jid)) (\<lambda>rows. decode_optional x (first_row rows))"

definition insert_job ::
  "externals \<Rightarrow> uuid \<Rightarrow> create_job_request \<Rightarrow> bool \<Rightarrow> bool \<Rightarrow> string option \<Rightarrow> time option \<Rightarrow>
   int option \<Rightarrow> time option \<Rightarrow> concurrency_policy \<Rightarrow> uuid option \<Rightarrow> time \<Rightarrow> job io" where
  "insert_job x client req is_template is_recurring cron_expr next_instance_at max_occurrences
     recurrence_end_at policy parent_job_id scheduled_at =
     (case x_to_value x (req_payload req) of
        None \<Rightarrow> throw_io (Sqlx EncodeError)
      | Some payload \<Rightarrow>
          bind_io
            (statement (\<lambda>ev clients t.
               let r = new_row (ev_uuid ev) (ev_now ev) (req_idempotency_key req) client payload
                     (job_state_as_str Scheduled) scheduled_at (req_expires_at req)
                     (req_max_retries req) (req_retry_delay_sec req) (req_webhook_url req)
                     is_recurring cron_expr next_instance_at max_occurrences recurrence_end_at
                     parent_job_id (policy_as_str policy) is_template
               in case insert_row clients r t of Inl e \<Rightarrow> Inl e | Inr t' \<Rightarrow> Inr (r, t')))
            (decode_row x))"

definition insert_instance :: "externals \<Rightarrow> job \<Rightarrow> time \<Rightarrow> string \<Rightarrow> job io" where
  "insert_instance x template scheduled_at idempotency_key =
     (let req = \<lparr>req_idempotency_key = idempotency_key,
                 req_payload = job_payload_of template,
                 req_scheduled_at = scheduled_at,
                 req_expires_at = job_expires_at template,
                 req_max_retries = job_max_retries template,
                 req_retry_delay_sec = job_retry_delay_sec template,
                 req_webhook_url = job_webhook_url template,
                 req_recurrence = None\<rparr>
      in insert_job x (case job_client_id template of None \<Rightarrow> nil_uuid | Some c \<Rightarrow> c) req
           False False None None None None (job_concurrency_policy template)
           (Some (job_id template)) scheduled_at)"

definition fetch_scheduled_jobs :: "int \<Rightarrow> scheduled_job list io" where
  "fetch_scheduled_jobs limit =
     statement (\<lambda>_ _ t. case select_scheduled limit t of Inl e \<Rightarrow> Inl e | Inr js \<Rightarrow> Inr (js, t))"

text \<open>The lease duration is a number of seconds of type \<open>u64\<close>, cast to \<open>i64\<close>.\<close>

definition lease_job :: "externals \<Rightarrow> uuid \<Rightarrow> nat \<Rightarrow> job option io" where
  "lease_job x jid lease_duration =
     (let secs = wrap_i64 (int lease_duration) in
      bind_io
        (statement (\<lambda>ev _ t.
           Inr (map (lease_set secs (ev_now ev)) (filter (lease_where jid) t),
                update_where (lease_where jid) (lease_set secs (ev_now ev)) t)))
        (\<lambda>rows. decode_optional x (first_row rows)))"

definition set_running :: "uuid \<Rightarrow> unit io" where
  "set_running jid =
     then_io (update (\<lambda>_. id_where jid) (\<lambda>ev. running_set (ev_now ev))) (return_io ())"

definition set_completed :: "uuid \<Rightarrow> unit io" where
  "set_completed jid =
     then_io (update (\<lambda>_. id_where jid) (\<lambda>ev. completed_set (ev_now ev))) (return_io ())"

definition set_state :: "uuid \<Rightarrow> job_state \<Rightarrow> unit io" where
  "set_state jid st =
     then_io (update (\<lambda>_. id_where jid) (\<lambda>ev. state_set st (ev_now ev))) (return_io ())"

definition schedule_retry :: "uuid \<Rightarrow> time \<Rightarrow> int \<Rightarrow> unit io" where
  "schedule_retry jid scheduled_at attempt_count =
     then_io (update (\<lambda>_. id_where jid) (\<lambda>ev. retry_set scheduled_at attempt_count (ev_now ev)))
       (return_io ())"

definition cancel_job_row :: "uuid \<Rightarrow> uuid \<Rightarrow> bool io" where
  "cancel_job_row jid client =
     bind_io (update (\<lambda>_. cancel_where jid client) (\<lambda>ev. cancelled_set (ev_now ev)))
       (\<lambda>n. return_io (0 < n))"

definition cancel_template_and_instances :: "uuid \<Rightarrow> uuid \<Rightarrow> nat io" where
  "cancel_template_and_instances template_id client =
     bind_io (update (\<lambda>_. cancel_template_where template_id client) (\<lambda>ev. cancelled_set (ev_now ev)))
       (\<lambda>template.
     bind_io (update (\<lambda>_. cancel_instances_where template_id) (\<lambda>ev. cancelled_set (ev_now ev)))
       (\<lambda>instances. return_io (template + instances)))"

definition update_cron_expr :: "uuid \<Rightarrow> uuid \<Rightarrow> string \<Rightarrow> bool io" where
  "update_cron_expr jid client cron_expr =
     bind_io
       (statement (\<lambda>ev _ t.
          let n = count_where (cron_where jid client) t in
          if 0 < n \<and> 100 < char_count cron_expr then Inl (ValueTooLong ''cron_expr'')
          else Inr (n, update_where (cron_where jid client) (cron_set cron_expr (ev_now ev)) t)))
       (\<lambda>n. return_io (0 < n))"

definition reap_expired_leases :: "nat io" where
  "reap_expired_leases = update (\<lambda>ev. reap_where (ev_now ev)) (\<lambda>ev. released_set (ev_now ev))"

definition recover_rows_on_startup :: "nat io" where
  "recover_rows_on_startup =
     update (\<lambda>ev. recover_where (ev_now ev)) (\<lambda>ev. released_set (ev_now ev))"

definition update_webhook_result :: "uuid \<Rightarrow> bool \<Rightarrow> int \<Rightarrow> unit io" where
  "update_webhook_result jid success attempts =
     then_io (update (\<lambda>_. id_where jid) (\<lambda>ev. webhook_set success attempts (ev_now ev)))
       (return_io ())"

definition increment_template_occurrences :: "uuid \<Rightarrow> time option \<Rightarrow> unit io" where
  "increment_template_occurrences template_id next_instance_at =
     statement (\<lambda>ev _ t.
       if (\<exists>r\<in>set t. id_where template_id r \<and> i32_max \<le> row_occurrences_completed r)
       then Inl IntegerOutOfRange
       else Inr ((), update_where (id_where template_id)
                       (increment_set next_instance_at (ev_now ev)) t))"

definition complete_template :: "uuid \<Rightarrow> unit io" where
  "complete_template template_id =
     then_io (update (\<lambda>_. id_where template_id) (\<lambda>ev. completed_set (ev_now ev))) (return_io ())"

definition count_active_siblings :: "uuid \<Rightarrow> concurrency_policy \<Rightarrow> nat io" where
  "count_active_siblings parent_id policy =
     (case policy of
        Allow \<Rightarrow> return_io 0
      | Skip \<Rightarrow> bind_io (select (siblings_where parent_id [''LEASED'', ''RUNNING'']))
          (\<lambda>rows. return_io (length rows))
      | QueueOnce \<Rightarrow> bind_io (select (siblings_where parent_id [''SCHEDULED'', ''LEASED'', ''RUNNING'']))
          (\<lambda>rows. return_io (length rows)))"

definition count_recurring_active :: "nat io" where
  "count_recurring_active = bind_io (select recurring_active_where) (\<lambda>rows. return_io (length rows))"

section \<open>Every method writes the table by the program's statements only\<close>

lemma sql_only_update:
  assumes "\<And>cl ev t. sql_step cl t (update_where (p ev) (g ev) t)"
  shows "sql_only (update p g)"
  unfolding update_def by (rule sql_only_statement) (auto intro: assms)

text \<open>A statement that only reads has every effect.\<close>

context effect_core begin

lemma reading:
  assumes "\<And>ev cl t a t'. q ev cl t = Inr (a, t') \<Longrightarrow> t' = t"
  shows "keeps R (statement q)"
proof (rule statement)
  fix w a t
  assume "q (current_event w) (client_ids w) (w_jobs w) = Inr (a, t)"
  then have "(tick w)\<lparr>w_jobs := t\<rparr> = tick w" using assms by (cases w) (auto simp: tick_def)
  then show "R w ((tick w)\<lparr>w_jobs := t\<rparr>)" using tick by simp
qed

lemma queries: "keeps R (select p)" "keeps R (decode_row x r)" "keeps R (decode_optional x row)"
  unfolding select_def decode_row_def decode_optional_def
  by ((rule reading; simp) | intro core_composition keeps_cases)+

lemma reads:
  "keeps R load_api_keys" "keeps R (get_by_idempotency_key x key)" "keeps R (get_job_by_id x i c)"
  "keeps R (get_job_by_id_internal x i)" "keeps R count_recurring_active" "keeps R (fetch_scheduled_jobs n)"
  "keeps R (count_active_siblings i p)"
proof -
  have "keeps R (statement (\<lambda>_ _ t. Inr ((), t)))" by (rule reading) simp
  moreover have "keeps R (\<lambda>w. (Inr (w_clients w), w))" by (simp add: keeps_def refl)
  ultimately show "keeps R load_api_keys" unfolding load_api_keys_def by (intro bind)
  show "keeps R (fetch_scheduled_jobs n)"
    unfolding fetch_scheduled_jobs_def by (rule reading) (auto split: sum.splits)
  show "keeps R (get_by_idempotency_key x key)" "keeps R (get_job_by_id x i c)"
    "keeps R (get_job_by_id_internal x i)" "keeps R count_recurring_active"
    unfolding get_by_idempotency_key_def get_job_by_id_def get_job_by_id_internal_def count_recurring_active_def
    by (intro core_composition queries)+
  show "keeps R (count_active_siblings i p)"
    by (cases p) (auto simp: count_active_siblings_def intro!: core_composition queries)
qed

end

lemmas [effect_intro] = sql.queries sql.reads

lemma sql_only_insert_job [effect_intro]:
  "sql_only (insert_job x c req tmpl recur cron nxt mx en pol par at)"
  unfolding insert_job_def
  by (intro effect_intro sql_only_statement)
    (auto simp: Let_def fresh_row_def new_row_def split: sum.splits intro!: r_into_rtranclp sql_step.insert)

lemma sql_only_insert_instance [effect_intro]: "sql_only (insert_instance x j at key)"
  unfolding insert_instance_def by (intro effect_intro)

lemma sql_only_lease_job [effect_intro]: "sql_only (lease_job x i d)"
  unfolding lease_job_def Let_def
  by (intro effect_intro sql_only_statement) (auto intro: sql_step.lease)

lemma sql_only_updates [effect_intro]:
  "sql_only (set_running i)" "sql_only (set_completed i)" "sql_only (schedule_retry i at n)"
  "sql_only (cancel_job_row i c)" "sql_only (cancel_template_and_instances i c)"
  "sql_only reap_expired_leases" "sql_only recover_rows_on_startup"
  "sql_only (update_webhook_result i ok n)" "sql_only (complete_template i)"
  unfolding set_running_def set_completed_def schedule_retry_def cancel_job_row_def
    cancel_template_and_instances_def reap_expired_leases_def recover_rows_on_startup_def
    update_webhook_result_def complete_template_def
  by (intro effect_intro sql_only_update sql_step.intros)+

lemma sql_only_set_state [effect_intro]: "is_terminal st \<Longrightarrow> sql_only (set_state i st)"
  unfolding set_state_def by (intro effect_intro sql_only_update sql_step.intros)

lemma sql_steps_update_cron:
  assumes "count_where (cron_where i c) t = 0 \<or> char_count e \<le> 100"
  shows "sql_steps cl t (update_where (cron_where i c) (cron_set e now) t)"
  using assms
  by (auto simp: count_where_zero update_where_none intro: r_into_rtranclp sql_step.update_cron)

lemma sql_only_update_cron_expr [effect_intro]: "sql_only (update_cron_expr i c e)"
  unfolding update_cron_expr_def
  by (intro effect_intro sql_only_statement)
    (auto simp: Let_def split: if_splits intro!: sql_steps_update_cron)

lemma sql_only_increment [effect_intro]: "sql_only (increment_template_occurrences i n)"
  unfolding increment_template_occurrences_def
  by (rule sql_only_statement) (auto split: if_splits intro: sql_step.increment)

section \<open>Effects that no statement has\<close>

text \<open>An effect that does not look at the table holds of every method.\<close>

context table_blind begin

lemma changes: "keeps R (update p' g)" "keeps R (lease_job x i d)"
  unfolding update_def lease_job_def by (intro core_composition any_statement queries keeps_cases)+

lemma writes:
  "keeps R (insert_job x c req tmpl recur cron nxt mx en pol par at)" "keeps R (insert_instance x j at key)"
  "keeps R (set_running i)" "keeps R (set_completed i)" "keeps R (set_state i st)"
  "keeps R (schedule_retry i at n)" "keeps R (cancel_job_row i c)"
  "keeps R (cancel_template_and_instances i c)" "keeps R (update_cron_expr i c e)"
  "keeps R reap_expired_leases" "keeps R recover_rows_on_startup"
  "keeps R (update_webhook_result i ok n)" "keeps R (increment_template_occurrences i nx)"
  "keeps R (complete_template i)"
  unfolding insert_instance_def insert_job_def set_running_def set_completed_def set_state_def
    schedule_retry_def cancel_job_row_def cancel_template_and_instances_def update_cron_expr_def
    reap_expired_leases_def recover_rows_on_startup_def update_webhook_result_def
    increment_template_occurrences_def complete_template_def
  by (intro core_composition any_statement queries changes keeps_if keeps_cases)+

lemmas methods = queries reads changes writes

end

lemmas [effect_intro] = posts_db.methods pool_db.methods

section \<open>The methods in a quiet environment\<close>

lemma first_row_filter: "first_row (filter p t) = List.find p t"
  by (induction t) (auto simp: first_row_def)

lemma first_row_map_filter: "first_row (map f (filter p t)) = map_option f (List.find p t)"
  by (induction t) (auto simp: first_row_def)

definition decoded :: "externals \<Rightarrow> job_row option \<Rightarrow> error + job option" where
  "decoded x row =
     (case row of None \<Rightarrow> Inr None
      | Some r \<Rightarrow> (case from_row (x_from_value x) r of
                    Inl e \<Rightarrow> Inl (Sqlx (DecodeError e)) | Inr j \<Rightarrow> Inr (Some j)))"

lemma decode_optional_run [run]: "decode_optional x row w = (decoded x row, w)"
  by (simp add: decode_optional_def decode_row_def decoded_def bind_io_def split: option.split sum.split)

lemma select_run [run]: "quiet w \<Longrightarrow> select p w = (Inr (filter p (w_jobs w)), (tick w)\<lparr>w_jobs := w_jobs w\<rparr>)"
  by (simp add: select_def statement_quiet)

lemma update_run [run]:
  "quiet w \<Longrightarrow> update p g w =
     (Inr (count_where (p (current_event w)) (w_jobs w)),
      (tick w)\<lparr>w_jobs := update_where (p (current_event w)) (g (current_event w)) (w_jobs w)\<rparr>)"
  by (simp add: update_def statement_quiet)

lemma tick_same_jobs [simp]: "(tick w)\<lparr>w_jobs := w_jobs w\<rparr> = tick w"
  by (simp add: tick_def)

lemma reads_run [run]:
  assumes "quiet w"
  shows "get_by_idempotency_key x key w =
      (decoded x (List.find (\<lambda>r. row_idempotency_key r = key) (w_jobs w)), tick w)"
    "get_job_by_id x i c w =
      (decoded x (List.find (\<lambda>r. row_id r = i \<and> row_client_id r = Some c) (w_jobs w)), tick w)"
    "get_job_by_id_internal x i w = (decoded x (List.find (\<lambda>r. row_id r = i) (w_jobs w)), tick w)"
    "count_recurring_active w = (Inr (count_where recurring_active_where (w_jobs w)), tick w)"
  using assms
  by (simp_all add: get_by_idempotency_key_def get_job_by_id_def get_job_by_id_internal_def
      count_recurring_active_def run first_row_filter count_where_def)

lemma fetch_scheduled_jobs_run [run]:
  "quiet w \<Longrightarrow> fetch_scheduled_jobs n w =
     (case select_scheduled n (w_jobs w) of Inl e \<Rightarrow> (Inl (Sqlx e), tick w) | Inr js \<Rightarrow> (Inr js, tick w))"
  by (simp add: fetch_scheduled_jobs_def statement_quiet split: sum.split)

lemma lease_job_run [run]:
  "quiet w \<Longrightarrow> lease_job x i d w =
     (decoded x (map_option (lease_set (wrap_i64 (int d)) (ev_now (current_event w)))
                   (List.find (lease_where i) (w_jobs w))),
      (tick w)\<lparr>w_jobs := update_where (lease_where i)
         (lease_set (wrap_i64 (int d)) (ev_now (current_event w))) (w_jobs w)\<rparr>)"
  by (simp add: lease_job_def statement_quiet run first_row_map_filter Let_def)

lemma updates_run [run]:
  assumes "quiet w"
  shows "set_running i w = (Inr (), (tick w)\<lparr>w_jobs :=
      update_where (id_where i) (running_set (ev_now (current_event w))) (w_jobs w)\<rparr>)"
    "set_completed i w = (Inr (), (tick w)\<lparr>w_jobs :=
      update_where (id_where i) (completed_set (ev_now (current_event w))) (w_jobs w)\<rparr>)"
    "set_state i st w = (Inr (), (tick w)\<lparr>w_jobs :=
      update_where (id_where i) (state_set st (ev_now (current_event w))) (w_jobs w)\<rparr>)"
    "schedule_retry i at n w = (Inr (), (tick w)\<lparr>w_jobs :=
      update_where (id_where i) (retry_set at n (ev_now (current_event w))) (w_jobs w)\<rparr>)"
    "update_webhook_result i ok n w = (Inr (), (tick w)\<lparr>w_jobs :=
      update_where (id_where i) (webhook_set ok n (ev_now (current_event w))) (w_jobs w)\<rparr>)"
    "complete_template i w = (Inr (), (tick w)\<lparr>w_jobs :=
      update_where (id_where i) (completed_set (ev_now (current_event w))) (w_jobs w)\<rparr>)"
    "cancel_job_row i c w = (Inr (0 < count_where (cancel_where i c) (w_jobs w)),
      (tick w)\<lparr>w_jobs := update_where (cancel_where i c) (cancelled_set (ev_now (current_event w))) (w_jobs w)\<rparr>)"
    "reap_expired_leases w = (Inr (count_where (reap_where (ev_now (current_event w))) (w_jobs w)),
      (tick w)\<lparr>w_jobs := update_where (reap_where (ev_now (current_event w)))
         (released_set (ev_now (current_event w))) (w_jobs w)\<rparr>)"
    "recover_rows_on_startup w = (Inr (count_where (recover_where (ev_now (current_event w))) (w_jobs w)),
      (tick w)\<lparr>w_jobs := update_where (recover_where (ev_now (current_event w)))
         (released_set (ev_now (current_event w))) (w_jobs w)\<rparr>)"
  using assms
  by (simp_all add: set_running_def set_completed_def set_state_def schedule_retry_def
      update_webhook_result_def complete_template_def cancel_job_row_def reap_expired_leases_def
      recover_rows_on_startup_def run)

text \<open>Incrementing the occurrences of a template does not leave the range of the column.\<close>

definition counts_below :: "uuid \<Rightarrow> table \<Rightarrow> bool" where
  "counts_below i t \<longleftrightarrow> \<not> (\<exists>r\<in>set t. id_where i r \<and> i32_max \<le> row_occurrences_completed r)"

lemma increment_run [run]:
  "quiet w \<Longrightarrow> increment_template_occurrences i n w =
     (if counts_below i (w_jobs w)
      then (Inr (), (tick w)\<lparr>w_jobs := update_where (id_where i)
              (increment_set n (ev_now (current_event w))) (w_jobs w)\<rparr>)
      else (Inl (Sqlx IntegerOutOfRange), tick w))"
  by (simp add: increment_template_occurrences_def statement_quiet counts_below_def)

text \<open>The siblings a policy counts.\<close>

definition active_siblings :: "uuid \<Rightarrow> concurrency_policy \<Rightarrow> table \<Rightarrow> nat" where
  "active_siblings i p t =
     (case p of Allow \<Rightarrow> 0
      | Skip \<Rightarrow> count_where (siblings_where i [''LEASED'', ''RUNNING'']) t
      | QueueOnce \<Rightarrow> count_where (siblings_where i [''SCHEDULED'', ''LEASED'', ''RUNNING'']) t)"

lemma count_active_siblings_run [run]:
  "quiet w \<Longrightarrow> count_active_siblings i p w =
     (Inr (active_siblings i p (w_jobs w)), if p = Allow then w else tick w)"
  by (cases p) (simp_all add: count_active_siblings_def active_siblings_def run count_where_def)

end
