(* ===== verification/Recurring.thy ===== *)
theory Recurring
  imports Repository Payload_Codec
begin

text \<open>
  \<open>src/recurring.rs\<close>: cron expressions, the creation of a recurring template with its first
  instance, and the spawning of the next instance after a successful run.
\<close>

section \<open>Cron expressions\<close>

text \<open>
  The number of bytes of the whitespace character (\<open>char::is_whitespace\<close>) at the head of a UTF-8
  byte sequence, 0 if it starts with another character.
\<close>

definition byte :: "char \<Rightarrow> nat" where
  "byte c = of_char c"

definition whitespace_len :: "string \<Rightarrow> nat" where
  "whitespace_len s =
     (case map byte (take 3 s) of
        [] \<Rightarrow> 0
      | a # rest \<Rightarrow>
          if (9 \<le> a \<and> a \<le> 13) \<or> a = 32 then 1
          else (case rest of
                  [] \<Rightarrow> 0
                | b # rest' \<Rightarrow>
                    if a = 0xC2 \<and> (b = 0x85 \<or> b = 0xA0) then 2
                    else (case rest' of
                            [] \<Rightarrow> 0
                          | c # _ \<Rightarrow>
                              if (a = 0xE1 \<and> b = 0x9A \<and> c = 0x80)
                                \<or> (a = 0xE2 \<and> b = 0x80 \<and> ((0x80 \<le> c \<and> c \<le> 0x8A) \<or> c = 0xA8 \<or> c = 0xA9 \<or> c = 0xAF))
                                \<or> (a = 0xE2 \<and> b = 0x81 \<and> c = 0x9F)
                                \<or> (a = 0xE3 \<and> b = 0x80 \<and> c = 0x80)
                              then 3 else 0)))"

lemma whitespace_len_le: "whitespace_len s \<le> length s"
  by (cases s; cases "tl s"; cases "tl (tl s)") (auto simp: whitespace_len_def)

text \<open>\<open>str::split_whitespace\<close>; \<open>field\<close> is the field being read.\<close>

function split_fields :: "string \<Rightarrow> string \<Rightarrow> string list" where
  "split_fields field s =
     (if s = [] then (if field = [] then [] else [field])
      else if whitespace_len s = 0 then split_fields (field @ [hd s]) (tl s)
      else (if field = [] then [] else [field]) @ split_fields [] (drop (whitespace_len s) s))"
  by pat_completeness auto
termination
  by (relation "measure (\<lambda>(field, s). length s)") auto

declare split_fields.simps [simp del]

definition split_whitespace :: "string \<Rightarrow> string list" where
  "split_whitespace s = split_fields [] s"

definition normalize_cron_expr :: "string \<Rightarrow> string" where
  "normalize_cron_expr expr =
     (let n = length (split_whitespace expr) in
      if n = 5 then ''0 '' @ expr @ '' *''
      else if n = 6 then expr @ '' *''
      else expr)"

definition next_fire_after :: "externals \<Rightarrow> string \<Rightarrow> time \<Rightarrow> error + time" where
  "next_fire_after x cron_expr after =
     (case x_cron x (normalize_cron_expr cron_expr) of
        None \<Rightarrow> Inl CronSyntax
      | Some schedule \<Rightarrow>
          (case schedule after of None \<Rightarrow> Inl NoNextFire | Some t \<Rightarrow> Inr t))"

text \<open>A pure \<open>Result\<close> under the \<open>?\<close> operator.\<close>

definition lift_result :: "error + 'a \<Rightarrow> 'a io" where
  "lift_result r = (case r of Inl e \<Rightarrow> throw_io e | Inr a \<Rightarrow> return_io a)"

section \<open>Templates and instances\<close>

definition refresh_metrics :: "unit io" where
  "refresh_metrics =
     bind_io (attempt count_recurring_active)
       (\<lambda>r. case r of
          Inl e \<Rightarrow> return_io ()
        | Inr n \<Rightarrow> set_recurring_jobs_active (int n))"

text \<open>\<open>format!("{}:{}", template_id, fire.to_rfc3339())\<close>.\<close>

definition instance_key :: "externals \<Rightarrow> uuid \<Rightarrow> time \<Rightarrow> string" where
  "instance_key x template_id fire = x_uuid_text x template_id @ '':'' @ x_rfc3339 x fire"

definition create_recurring ::
  "externals \<Rightarrow> uuid \<Rightarrow> create_job_request \<Rightarrow> recurrence_config \<Rightarrow> (job \<times> job) io" where
  "create_recurring x client req recurrence =
     bind_io (lift_result (next_fire_after x (rc_cron_expr recurrence) (req_scheduled_at req)))
       (\<lambda>first_fire.
     bind_io (insert_job x client req True True (Some (rc_cron_expr recurrence)) (Some first_fire)
                (rc_max_occurrences recurrence) (rc_end_at recurrence)
                (rc_concurrency_policy recurrence) None (req_scheduled_at req))
       (\<lambda>template.
     bind_io (insert_instance x template first_fire (instance_key x (job_id template) first_fire))
       (\<lambda>inst.
     then_io record_recurring_instance_created
       (then_io refresh_metrics
         (then_io notify_one (return_io (template, inst)))))))"

definition finish_template :: "uuid \<Rightarrow> unit io" where
  "finish_template template_id =
     then_io (complete_template template_id) (then_io refresh_metrics (return_io ()))"

text \<open>The last part of \<open>spawn_next_instance\<close>: the key is looked up, the instance inserted.\<close>

definition insert_next :: "externals \<Rightarrow> uuid \<Rightarrow> job \<Rightarrow> time \<Rightarrow> unit io" where
  "insert_next x template_id template next_fire =
     (let key = instance_key x template_id next_fire in
      bind_io (get_by_idempotency_key x key) (\<lambda>existing.
      if existing \<noteq> None then return_io ()
      else
        bind_io (insert_instance x template next_fire key) (\<lambda>_.
        then_io (increment_template_occurrences template_id (Some next_fire))
          (then_io record_recurring_instance_created
            (then_io refresh_metrics
              (then_io notify_one (return_io ())))))))"

text \<open>\<open>spawn_next_instance\<close> from the check of the recurrence's end on.\<close>

definition spawn_at :: "externals \<Rightarrow> uuid \<Rightarrow> job \<Rightarrow> time \<Rightarrow> unit io" where
  "spawn_at x template_id template next_fire =
     (if (case job_recurrence_end_at template of None \<Rightarrow> False | Some end_at \<Rightarrow> end_at < next_fire)
      then finish_template template_id
      else
        bind_io (count_active_siblings template_id (job_concurrency_policy template))
          (\<lambda>active.
        if 0 < active \<and> job_concurrency_policy template \<noteq> Allow
        then then_io (increment_template_occurrences template_id (Some next_fire))
               (return_io ())
        else insert_next x template_id template next_fire))"

definition spawn_next_instance :: "externals \<Rightarrow> uuid \<Rightarrow> time \<Rightarrow> unit io" where
  "spawn_next_instance x template_id last_scheduled_at =
     bind_io (get_job_by_id_internal x template_id) (\<lambda>found.
     case found of
       None \<Rightarrow> return_io ()
     | Some template \<Rightarrow>
         if \<not> (job_is_template template \<and> job_is_recurring template) then return_io ()
         else if job_state_of template = Cancelled then return_io ()
         else
           (case job_cron_expr template of
              None \<Rightarrow> return_io ()
            | Some cron_expr \<Rightarrow>
                let next_occurrences = wrap_i32 (job_occurrences_completed template + 1) in
                if (case job_max_occurrences template of
                      None \<Rightarrow> False | Some m \<Rightarrow> m \<le> next_occurrences)
                then finish_template template_id
                else bind_io (lift_result (next_fire_after x cron_expr last_scheduled_at))
                       (spawn_at x template_id template)))"

context effect_core begin

lemma lift_result: "keeps R (lift_result r)"
  unfolding lift_result_def by (intro core_composition keeps_cases)

end

context effect_order begin

lemma refreshing: "keeps R refresh_metrics"
  unfolding refresh_metrics_def by (intro composition keeps_cases reads recorders)

end

lemmas [effect_intro] = sql.lift_result posts.lift_result pool.lift_result sql.refreshing posts.refreshing pool.refreshing

lemma sql_only_create_recurring [effect_intro]: "sql_only (create_recurring x c req rc)"
  unfolding create_recurring_def record_recurring_instance_created_def by (intro effect_intro)

lemma sql_only_finish_template [effect_intro]: "sql_only (finish_template i)"
  unfolding finish_template_def by (intro effect_intro)

lemma sql_only_insert_next [effect_intro]: "sql_only (insert_next x i j t)"
  unfolding insert_next_def record_recurring_instance_created_def by (intro effect_intro)

lemma sql_only_spawn_at [effect_intro]: "sql_only (spawn_at x i j t)"
  unfolding spawn_at_def by (intro effect_intro)

lemma sql_only_spawn_next_instance [effect_intro]: "sql_only (spawn_next_instance x i t)"
  unfolding spawn_next_instance_def by (intro effect_intro)

text \<open>An effect that does not look at the table holds of creating and spawning when it holds of the
  counting.\<close>

context table_blind begin

lemma recurring:
  assumes "keeps R refresh_metrics" "keeps R record_recurring_instance_created"
  shows "keeps R (create_recurring x c req rc)" "keeps R (finish_template i)" "keeps R (spawn_next_instance x i at)"
  unfolding create_recurring_def finish_template_def spawn_next_instance_def spawn_at_def insert_next_def
  by (intro core_composition keeps_if keeps_cases methods lift_result assms)+

end

lemmas [effect_intro] = posts_db.recurring [OF posts.refreshing posts.recorders(12)]
  pool_db.recurring [OF pool.refreshing pool.recorders(12)]

section \<open>Fields of a normalised expression\<close>

lemma whitespace_len_append: "s \<noteq> [] \<Longrightarrow> whitespace_len (s @ '' '' @ u) = whitespace_len s"
  by (cases s; cases "tl s"; cases "tl (tl s)") (auto simp: whitespace_len_def byte_def split: list.split)

lemma split_fields_star: "split_fields field (s @ '' *'') = split_fields field s @ [''*'']"
proof (induction field s rule: split_fields.induct)
  case (1 field s)
  have star: "split_fields [] ''*'' = [''*'']"
    by (simp add: split_fields.simps whitespace_len_def byte_def)
  show ?case
  proof (cases "s = []")
    case True
    then show ?thesis
      by (simp add: split_fields.simps [of field "'' *''"] split_fields.simps [of field "[]"] star
          whitespace_len_def byte_def)
  next
    case False
    have w: "whitespace_len (s @ '' *'') = whitespace_len s"
      using whitespace_len_append [OF False, of "''*''"] by simp
    show ?thesis
    proof (cases "whitespace_len s = 0")
      case True
      with 1 False w show ?thesis
        by (simp add: split_fields.simps [of field "s @ '' *''"] split_fields.simps [of field s])
    next
      case 2: False
      with 1 False w whitespace_len_le [of s] show ?thesis
        by (simp add: split_fields.simps [of field "s @ '' *''"] split_fields.simps [of field s])
    qed
  qed
qed

lemma split_fields_zero: "split_fields [] (''0 '' @ s) = ''0'' # split_fields [] s"
proof -
  have "whitespace_len (''0 '' @ s) = 0"
    by (auto simp: whitespace_len_def byte_def split: list.split)
  moreover have "whitespace_len ('' '' @ s) = 1"
    by (simp add: whitespace_len_def byte_def)
  ultimately show ?thesis
    by (simp add: split_fields.simps [of "[]" "CHR ''0'' # CHR '' '' # s"]
        split_fields.simps [of "''0''" "CHR '' '' # s"])
qed

text \<open>The \<open>cron\<close> crate wants seven fields. An expression of five fields gets a seconds field in
  front and a year field behind, one of six fields a year field, and any other expression is left
  as it is; the given fields are kept in order.\<close>

theorem normalize_cron_expr_fields:
  "split_whitespace (normalize_cron_expr e) =
     (let fs = split_whitespace e in
      if length fs = 5 then [''0''] @ fs @ [''*'']
      else if length fs = 6 then fs @ [''*'']
      else fs)"
  using split_fields_star [of "[]" "''0 '' @ e"] split_fields_star [of "[]" e]
    split_fields_zero [of e]
  by (simp add: normalize_cron_expr_def split_whitespace_def Let_def)

section \<open>Inserting\<close>

definition instance_row :: "externals \<Rightarrow> event \<Rightarrow> job \<Rightarrow> time \<Rightarrow> json \<Rightarrow> job_row" where
  "instance_row x ev template at v =
     new_row (ev_uuid ev) (ev_now ev) (instance_key x (job_id template) at)
       (case job_client_id template of None \<Rightarrow> nil_uuid | Some c \<Rightarrow> c) v ''SCHEDULED'' at
       (job_expires_at template) (job_max_retries template) (job_retry_delay_sec template)
       (job_webhook_url template) False None None None None (Some (job_id template))
       (policy_as_str (job_concurrency_policy template)) False"

lemma insert_job_run [run]:
  "quiet w \<Longrightarrow> insert_job x c req tm rc cr nx mo re po pa at w =
     (case x_to_value x (req_payload req) of
        None \<Rightarrow> (Inl (Sqlx EncodeError), w)
      | Some v \<Rightarrow>
          (let r = new_row (ev_uuid (current_event w)) (ev_now (current_event w))
                     (req_idempotency_key req) c v (job_state_as_str Scheduled) at
                     (req_expires_at req) (req_max_retries req) (req_retry_delay_sec req)
                     (req_webhook_url req) rc cr nx mo re pa (policy_as_str po) tm
           in case insert_row (client_ids w) r (w_jobs w) of
                Inl e \<Rightarrow> (Inl (Sqlx e), tick w)
              | Inr t \<Rightarrow> decode_row x r ((tick w)\<lparr>w_jobs := t\<rparr>)))"
  by (simp add: insert_job_def run statement_quiet Let_def split: option.split sum.split)

lemma decode_row_total:
  assumes "row_state r = job_state_as_str st" "x_from_value x (row_payload r) \<noteq> None"
  shows "\<exists>j. from_row (x_from_value x) r = Inr j \<and> decode_row x r = return_io j"
  using from_row_total [of r "x_from_value x"] assms by (auto simp: decode_row_def)

lemma decode_new_row:
  assumes "codec_ok x" "payload_ok p" "x_to_value x p = Some v"
  shows "\<exists>j. decode_row x (new_row i n k c v (job_state_as_str Scheduled) at ex mr rd wu rc cr nx mo re
     pa po tm) = return_io j"
proof -
  let ?r = "new_row i n k c v (job_state_as_str Scheduled) at ex mr rd wu rc cr nx mo re pa po tm"
  have "row_state ?r = job_state_as_str Scheduled" "x_from_value x (row_payload ?r) \<noteq> None"
    using codec_okD(2) [OF assms] by (simp_all add: new_row_def)
  then show ?thesis using decode_row_total by blast
qed

lemma insert_instance_run:
  assumes "quiet w" "codec_ok x" "payload_ok (job_payload_of j)"
  shows "\<exists>v. x_to_value x (job_payload_of j) = Some v \<and>
    (case insert_row (client_ids w) (instance_row x (current_event w) j at v) (w_jobs w) of
       Inl e \<Rightarrow> insert_instance x j at (instance_key x (job_id j) at) w = (Inl (Sqlx e), tick w)
     | Inr t \<Rightarrow> \<exists>i. insert_instance x j at (instance_key x (job_id j) at) w =
                    (Inr i, (tick w)\<lparr>w_jobs := t\<rparr>))"
proof -
  obtain v where v: "x_to_value x (job_payload_of j) = Some v" "x_from_value x v = Some (job_payload_of j)"
    using codec_okD(1) [OF assms(2,3)] by blast
  obtain i where i: "decode_row x (instance_row x (current_event w) j at v) = return_io i"
    using decode_new_row [OF assms(2,3) v(1)] by (fastforce simp: instance_row_def)
  show ?thesis
    using v assms(1) i [unfolded instance_row_def]
    by (auto simp: insert_instance_def run Let_def instance_row_def split: sum.split)
qed

section \<open>What spawning does to the table\<close>

text \<open>The number of instances of a template.\<close>

definition instances :: "uuid \<Rightarrow> table \<Rightarrow> nat" where
  "instances i t = count_where (\<lambda>r. row_parent_job_id r = Some i) t"

definition live_template :: "job_row \<Rightarrow> bool" where
  "live_template r \<longleftrightarrow> row_is_template r \<and> row_is_recurring r \<and> row_state r \<noteq> ''CANCELLED''"

definition below_max :: "job_row \<Rightarrow> bool" where
  "below_max r \<longleftrightarrow> (case row_max_occurrences r of None \<Rightarrow> True
     | Some m \<Rightarrow> wrap_i32 (row_occurrences_completed r + 1) < m)"

definition before_end :: "job_row \<Rightarrow> time \<Rightarrow> bool" where
  "before_end r f \<longleftrightarrow> (case row_recurrence_end_at r of None \<Rightarrow> True | Some e \<Rightarrow> f \<le> e)"

definition fires :: "externals \<Rightarrow> job_row \<Rightarrow> time \<Rightarrow> time \<Rightarrow> bool" where
  "fires x r prev f \<longleftrightarrow>
     (case row_cron_expr r of None \<Rightarrow> False | Some e \<Rightarrow> next_fire_after x e prev = Inr f)"

definition row_policy :: "job_row \<Rightarrow> concurrency_policy" where
  "row_policy r = (case policy_from_str (row_concurrency_policy r) of None \<Rightarrow> QueueOnce | Some p \<Rightarrow> p)"

text \<open>
  The four effects \<open>spawn_next_instance\<close> may have when its statements are delivered: none, the
  template is finished, an occurrence is counted without an instance, or exactly one instance is
  inserted and the occurrence is counted.
\<close>

inductive spawn_effect :: "externals \<Rightarrow> uuid \<Rightarrow> time \<Rightarrow> uuid list \<Rightarrow> table \<Rightarrow> table \<Rightarrow> bool"
  for x template_id prev clients t where
  nothing: "spawn_effect x template_id prev clients t t"
| finished: "row_with_id template_id t = Some r \<Longrightarrow> live_template r \<Longrightarrow>
    \<not> below_max r \<or> (\<exists>f. fires x r prev f \<and> \<not> before_end r f) \<Longrightarrow>
    spawn_effect x template_id prev clients t
      (update_where (id_where template_id) (completed_set now) t)"
| skipped: "row_with_id template_id t = Some r \<Longrightarrow> live_template r \<Longrightarrow> below_max r \<Longrightarrow>
    fires x r prev f \<Longrightarrow> before_end r f \<Longrightarrow>
    row_policy r \<noteq> Allow \<Longrightarrow> 0 < active_siblings template_id (row_policy r) t \<Longrightarrow>
    spawn_effect x template_id prev clients t
      (update_where (id_where template_id) (increment_set (Some f) now) t)"
| spawned: "row_with_id template_id t = Some r \<Longrightarrow> live_template r \<Longrightarrow> below_max r \<Longrightarrow>
    fires x r prev f \<Longrightarrow> before_end r f \<Longrightarrow>
    row_policy r = Allow \<or> active_siblings template_id (row_policy r) t = 0 \<Longrightarrow>
    from_row (x_from_value x) r = Inr j \<Longrightarrow>
    insert_row clients (instance_row x ev j f v) t = Inr t' \<Longrightarrow>
    spawn_effect x template_id prev clients t
      (update_where (id_where template_id) (increment_set (Some f) now) t')"

inductive_cases spawn_effectE: "spawn_effect x i prev cl t t'"

lemma from_row_policy_eq: "from_row dec r = Inr j \<Longrightarrow> job_concurrency_policy j = row_policy r"
  by (auto simp: from_row_def row_policy_def split: option.splits)

lemma refresh_metrics_table [simp]: "quiet w \<Longrightarrow> w_jobs (snd (refresh_metrics w)) = w_jobs w"
  "quiet w \<Longrightarrow> \<exists>w'. refresh_metrics w = (Inr (), w') \<and> w_jobs w' = w_jobs w"
  by (simp_all add: refresh_metrics_def set_recurring_jobs_active_def run)

lemma finish_template_run [run]:
  "quiet w \<Longrightarrow> \<exists>w'. finish_template i w = (Inr (), w') \<and>
     w_jobs w' = update_where (id_where i) (completed_set (ev_now (current_event w))) (w_jobs w)"
  by (auto simp: finish_template_def refresh_metrics_def set_recurring_jobs_active_def run)

lemma insert_keeps_counts_below:
  "insert_row cl (instance_row x ev j f v) t = Inr t' \<Longrightarrow> counts_below i t \<Longrightarrow> counts_below i t'"
  by (auto simp: counts_below_def instance_row_def new_row_def int_limits dest!: insert_row_InrD(1))

lemma insert_next_effect:
  assumes "quiet w" "codec_ok x" "job_id j = i" "counts_below i (w_jobs w)"
    and "payload_ok (job_payload_of j)"
  shows "w_jobs (snd (insert_next x i j f w)) = w_jobs w \<or>
    (\<exists>ev v t n. insert_row (client_ids w) (instance_row x ev j f v) (w_jobs w) = Inr t \<and>
       w_jobs (snd (insert_next x i j f w)) = update_where (id_where i) (increment_set (Some f) n) t)"
proof -
  let ?key = "instance_key x i f"
  obtain v where v: "case insert_row (client_ids w) (instance_row x (current_event (tick w)) j f v) (w_jobs w) of
      Inl e \<Rightarrow> insert_instance x j f ?key (tick w) = (Inl (Sqlx e), tick (tick w))
    | Inr t \<Rightarrow> \<exists>k. insert_instance x j f ?key (tick w) = (Inr k, (tick (tick w))\<lparr>w_jobs := t\<rparr>)"
    using insert_instance_run [of "tick w" x j f] assms(1,2,3,5) by auto
  consider (decode_error) e where "decoded x (List.find (\<lambda>s. row_idempotency_key s = ?key) (w_jobs w)) = Inl e"
    | (duplicate) k where "decoded x (List.find (\<lambda>s. row_idempotency_key s = ?key) (w_jobs w)) = Inr (Some k)"
    | (insert_error) e where "decoded x (List.find (\<lambda>s. row_idempotency_key s = ?key) (w_jobs w)) = Inr None"
        "insert_row (client_ids w) (instance_row x (current_event (tick w)) j f v) (w_jobs w) = Inl e"
    | (insert_ok) t where "decoded x (List.find (\<lambda>s. row_idempotency_key s = ?key) (w_jobs w)) = Inr None"
        "insert_row (client_ids w) (instance_row x (current_event (tick w)) j f v) (w_jobs w) = Inr t"
    by (metis not_Some_eq sum.exhaust)
  then show ?thesis
  proof cases
    case insert_ok
    then obtain k where k: "insert_instance x j f ?key (tick w) = (Inr k, (tick (tick w))\<lparr>w_jobs := t\<rparr>)"
      using v by auto
    have "counts_below i t" using insert_keeps_counts_below [OF insert_ok(2) assms(4)] .
    then have "\<exists>n. w_jobs (snd (insert_next x i j f w)) =
        update_where (id_where i) (increment_set (Some f) n) t"
      using insert_ok(1) k assms(1)
      by (auto simp: insert_next_def run Let_def refresh_metrics_def set_recurring_jobs_active_def
          record_recurring_instance_created_def)
    with insert_ok(2) show ?thesis by blast
  qed (use v assms(1) in \<open>simp_all add: insert_next_def run Let_def\<close>)
qed

lemma spawn_at_effect:
  assumes "quiet w" "codec_ok x" "row_with_id i (w_jobs w) = Some r" "from_row (x_from_value x) r = Inr j"
    and "live_template r" "below_max r" "fires x r prev f" and cnt: "counts_below i (w_jobs w)"
  shows "spawn_effect x i prev (client_ids w) (w_jobs w) (w_jobs (snd (spawn_at x i j f w)))"
proof -
  note j = from_row_InrD [OF assms(4)] from_row_policy_eq [OF assms(4)]
  have ji: "job_id j = i" using j assms(3) by (auto simp: row_with_id_def dest: find_SomeD)
  have pay: "payload_ok (job_payload_of j)" using codec_okD(3) [OF assms(2) j(4)] .
  have past: "(case job_recurrence_end_at j of None \<Rightarrow> False | Some e \<Rightarrow> e < f) \<longleftrightarrow> \<not> before_end r f"
    using j by (auto simp: before_end_def split: option.splits)
  let ?p = "row_policy r" and ?w1 = "if row_policy r = Allow then w else tick w"
  consider (past_end) "\<not> before_end r f"
    | (skip) "before_end r f" "0 < active_siblings i ?p (w_jobs w)" "?p \<noteq> Allow"
    | (go) "before_end r f" "?p = Allow \<or> active_siblings i ?p (w_jobs w) = 0"
    by blast
  then show ?thesis
  proof cases
    case past_end
    then have "\<not> below_max r \<or> (\<exists>f. fires x r prev f \<and> \<not> before_end r f)" using assms(7) by blast
    note eff = spawn_effect.finished [OF assms(3,5) this]
    obtain w' where "finish_template i w = (Inr (), w')"
      "w_jobs w' = update_where (id_where i) (completed_set (ev_now (current_event w))) (w_jobs w)"
      using finish_template_run [OF assms(1)] by blast
    then show ?thesis using eff past past_end by (simp add: spawn_at_def)
  next
    case skip
    then show ?thesis
      using spawn_effect.skipped [OF assms(3,5,6,7) skip(1,3,2)] past cnt assms(1) j
      by (simp add: spawn_at_def run)
  next
    case go
    have sp: "spawn_at x i j f w = insert_next x i j f ?w1"
      using go past assms(1) j by (auto simp: spawn_at_def run)
    have w1: "client_ids ?w1 = client_ids w" "w_jobs ?w1 = w_jobs w" by simp_all
    have "quiet ?w1" "counts_below i (w_jobs ?w1)" using assms(1) cnt by simp_all
    from insert_next_effect [OF this(1) assms(2) ji this(2) pay, of f]
    show ?thesis
    proof (elim disjE exE conjE)
      assume "w_jobs (snd (insert_next x i j f ?w1)) = w_jobs ?w1"
      then show ?thesis using sp spawn_effect.nothing by simp
    next
      fix ev v t n
      assume "insert_row (client_ids ?w1) (instance_row x ev j f v) (w_jobs ?w1) = Inr t"
        and "w_jobs (snd (insert_next x i j f ?w1)) = update_where (id_where i) (increment_set (Some f) n) t"
      then show ?thesis
        using sp spawn_effect.spawned [OF assms(3,5,6,7) go(1,2) assms(4), of "client_ids w" ev v t n]
        by (simp only: w1)
    qed
  qed
qed

lemma spawn_live_template:
  assumes "quiet w" "row_with_id i (w_jobs w) = Some r" "from_row (x_from_value x) r = Inr j"
    and "live_template r"
  shows "spawn_next_instance x i prev w =
    (case row_cron_expr r of None \<Rightarrow> return_io () | Some e \<Rightarrow>
       if \<not> below_max r then finish_template i
       else bind_io (lift_result (next_fire_after x e prev)) (spawn_at x i j)) (tick w)"
proof -
  note j = from_row_InrD [OF assms(3)]
  have l: "job_is_template j" "job_is_recurring j" "job_state_of j \<noteq> Cancelled"
    using j assms(4) by (auto simp: live_template_def)
  have lim: "(case job_max_occurrences j of None \<Rightarrow> False
      | Some m \<Rightarrow> m \<le> wrap_i32 (job_occurrences_completed j + 1)) \<longleftrightarrow> \<not> below_max r"
    using j by (auto simp: below_max_def split: option.splits)
  show ?thesis
    using assms(1,2,3) j(15) l lim
    by (simp add: spawn_next_instance_def run decoded_def row_with_id_def Let_def
        split: option.split)
qed

lemma spawn_dead_template:
  assumes "quiet w" "case row_with_id i (w_jobs w) of None \<Rightarrow> True
      | Some r \<Rightarrow> \<not> live_template r \<or> (\<exists>e. from_row (x_from_value x) r = Inl e)"
  shows "w_jobs (snd (spawn_next_instance x i prev w)) = w_jobs w"
proof (cases "row_with_id i (w_jobs w)")
  case None
  then show ?thesis
    using assms(1) by (simp add: spawn_next_instance_def run decoded_def row_with_id_def)
next
  case (Some r)
  show ?thesis
  proof (cases "from_row (x_from_value x) r")
    case (Inl e)
    then show ?thesis
      using assms(1) Some by (simp add: spawn_next_instance_def run decoded_def row_with_id_def)
  next
    case (Inr j)
    then have "\<not> (job_is_template j \<and> job_is_recurring j) \<or> job_state_of j = Cancelled"
      using assms(2) Some from_row_InrD [OF Inr] by (auto simp: live_template_def)
    then show ?thesis
      using assms(1) Some Inr by (auto simp: spawn_next_instance_def run decoded_def row_with_id_def)
  qed
qed

lemma spawn_implements_effect:
  assumes "quiet w" "codec_ok x" "counts_below template_id (w_jobs w)"
  shows "spawn_effect x template_id prev (client_ids w) (w_jobs w)
           (w_jobs (snd (spawn_next_instance x template_id prev w)))"
proof -
  note dead = spawn_dead_template [OF assms(1), where i = template_id and x = x and prev = prev]
  show ?thesis
  proof (cases "\<exists>r j. row_with_id template_id (w_jobs w) = Some r \<and> live_template r \<and>
      from_row (x_from_value x) r = Inr j")
    case False
    have "\<not> live_template r \<or> (\<exists>e. from_row (x_from_value x) r = Inl e)"
      if "row_with_id template_id (w_jobs w) = Some r" for r
      using False that by (cases "from_row (x_from_value x) r") auto
    then have "case row_with_id template_id (w_jobs w) of None \<Rightarrow> True
      | Some r \<Rightarrow> \<not> live_template r \<or> (\<exists>e. from_row (x_from_value x) r = Inl e)"
      by (simp split: option.split)
    then show ?thesis using dead spawn_effect.nothing by simp
  next
    case True
    then obtain r j where r: "row_with_id template_id (w_jobs w) = Some r" "live_template r"
      "from_row (x_from_value x) r = Inr j" by blast
    note run_live = spawn_live_template [OF assms(1) r(1,3,2), of prev]
    consider (no_cron) "row_cron_expr r = None"
      | (limit) e where "row_cron_expr r = Some e" "\<not> below_max r"
      | (cron_error) e er where "row_cron_expr r = Some e" "below_max r" "next_fire_after x e prev = Inl er"
      | (fire) e f where "row_cron_expr r = Some e" "below_max r" "next_fire_after x e prev = Inr f"
      by (metis not_Some_eq sum.exhaust)
    then show ?thesis
    proof cases
      case limit
      obtain w' where "finish_template template_id (tick w) = (Inr (), w')" "w_jobs w' =
          update_where (id_where template_id) (completed_set (ev_now (current_event (tick w)))) (w_jobs w)"
        using finish_template_run [of "tick w" template_id] assms(1) by auto
      then show ?thesis
        using limit run_live spawn_effect.finished [OF r(1,2)] by simp
    next
      case fire
      then have "fires x r prev f" by (simp add: fires_def)
      then show ?thesis
        using spawn_at_effect [of "tick w" x template_id r j prev f] assms r fire run_live
        by (simp add: lift_result_def)
    qed (use run_live in \<open>simp_all add: lift_result_def bind_io_def spawn_effect.nothing\<close>)
  qed
qed

text \<open>C14: Every run of \<open>spawn_next_instance\<close> whose statements reach the database has one of the
  four effects of the specification: nothing, finishing the template (its maximum or its end is
  reached), counting an occurrence that the concurrency policy forbids to start, or inserting
  exactly one instance and counting it.\<close>

theorem spawn_next_instance_refines:
  assumes "quiet w" "codec_ok x" "counts_below template_id (w_jobs w)"
  shows "spawn_effect x template_id prev (client_ids w) (w_jobs w)
           (w_jobs (snd (spawn_next_instance x template_id prev w)))"
  using assms by (rule spawn_implements_effect)

section \<open>The bound on the number of instances\<close>

text \<open>
  The template \<open>i\<close> has the maximum \<open>m\<close>, and its instances are one more than its counted occurrences
  at most: the first instance is inserted with the template and is not counted.
\<close>

definition occurrences_ok :: "uuid list \<Rightarrow> uuid \<Rightarrow> int \<Rightarrow> table \<Rightarrow> bool" where
  "occurrences_ok clients i m t \<longleftrightarrow> table_ok clients t \<and> is_i32 m \<and>
     (case row_with_id i t of
        None \<Rightarrow> False
      | Some r \<Rightarrow> row_max_occurrences r = Some m \<and> row_parent_job_id r \<noteq> Some i \<and>
          0 \<le> row_occurrences_completed r \<and>
          (row_occurrences_completed r = 0 \<or> row_occurrences_completed r < m) \<and>
          int (instances i t) \<le> row_occurrences_completed r + 1)"

lemma occurrences_ok_counts_below: "occurrences_ok cl i m t \<Longrightarrow> counts_below i t"
  using only_row_with_id
  by (fastforce simp: occurrences_ok_def counts_below_def table_ok_def id_where_def is_i32_def int_limits
      split: option.splits)

lemma instances_insert:
  "insert_row cl (instance_row x ev j f v) t = Inr t' \<Longrightarrow> job_id j = i \<Longrightarrow>
     instances i t' = Suc (instances i t)"
  by (auto simp: instances_def count_where_def instance_row_def new_row_def dest!: insert_row_InrD(1))

lemma instances_counted [simp]:
  "instances i (update_where (id_where j) (increment_set f n) t) = instances i t"
  "instances i (update_where (id_where j) (completed_set n) t) = instances i t"
  by (simp_all add: instances_def increment.children set_completed.children)

lemma row_with_id_counted [simp]:
  "row_with_id i (update_where (id_where i) (increment_set f n) t) = map_option (increment_set f n) (row_with_id i t)"
  "row_with_id i (update_where (id_where i) (completed_set n) t) = map_option (completed_set n) (row_with_id i t)"
  by (cases "row_with_id i t";
      auto simp: row_with_id_update increment_set_def completed_set_def id_where_def
        dest: row_with_id_SomeD)+

text \<open>Every effect of the specification keeps it.\<close>

lemma spawn_effect_occurrences:
  assumes "spawn_effect x i prev cl t t'" "occurrences_ok cl i m t" "table_ok cl t'"
  shows "occurrences_ok cl i m t'"
  using assms(1)
proof cases
  case nothing
  then show ?thesis using assms by simp
next
  case finished
  then show ?thesis using assms(2,3)
    by (simp add: occurrences_ok_def completed_set_def)
next
  case (skipped r f now)
  then have "row_occurrences_completed r + 1 < m"
    using assms(2) by (auto simp: occurrences_ok_def below_max_def is_i32_def int_limits)
  then show ?thesis using assms(2,3) skipped
    by (auto simp: occurrences_ok_def increment_set_def)
next
  case (spawned r f j ev v t1 now)
  then have lt: "row_occurrences_completed r + 1 < m"
    using assms(2) by (auto simp: occurrences_ok_def below_max_def is_i32_def int_limits)
  have "job_id j = i"
    using spawned from_row_InrD(1) row_with_id_SomeD by fastforce
  then have "instances i t1 = Suc (instances i t)" "row_with_id i t1 = Some r"
    using instances_insert row_with_id_insert spawned by blast+
  then show ?thesis using assms(2,3) spawned lt
    by (auto simp: occurrences_ok_def increment_set_def)
qed

lemma spawn_keeps_occurrences:
  assumes "quiet w" "codec_ok x" "occurrences_ok (client_ids w) i m (w_jobs w)"
  shows "occurrences_ok (client_ids w) i m (w_jobs (snd (spawn_next_instance x i prev w)))"
proof -
  note s = sql_onlyD [OF sql_only_spawn_next_instance [of x i prev], of w]
  have "table_ok (client_ids w) (w_jobs w)" using assms(3) by (simp add: occurrences_ok_def)
  then have "table_ok (client_ids w) (w_jobs (snd (spawn_next_instance x i prev w)))"
    using integrity.steps s(1) by blast
  then show ?thesis
    using spawn_effect_occurrences spawn_implements_effect assms occurrences_ok_counts_below
    by blast
qed

text \<open>Any number of spawns, one after the completion of each instance.\<close>

definition spawn_all :: "externals \<Rightarrow> uuid \<Rightarrow> time list \<Rightarrow> world \<Rightarrow> world" where
  "spawn_all x i prevs w = fold (\<lambda>prev w. snd (spawn_next_instance x i prev w)) prevs w"

lemma spawn_all_keeps_occurrences:
  assumes "quiet w" "codec_ok x" "occurrences_ok (client_ids w) i m (w_jobs w)"
  shows "occurrences_ok (client_ids w) i m (w_jobs (spawn_all x i prevs w))"
  using assms(1,3)
proof (induction prevs arbitrary: w)
  case Nil
  then show ?case by (simp add: spawn_all_def)
next
  case (Cons prev prevs)
  note s = sql_onlyD [OF sql_only_spawn_next_instance [of x i prev], of w]
  from Cons.IH [of "snd (spawn_next_instance x i prev w)"]
    spawn_keeps_occurrences [OF Cons.prems(1) assms(2) Cons.prems(2)] s Cons.prems(1)
  show ?case by (simp add: spawn_all_def)
qed

lemma occurrences_ok_bound: "occurrences_ok cl i m t \<Longrightarrow> int (instances i t) \<le> max 1 m"
  by (auto simp: occurrences_ok_def split: option.splits)

lemma fresh_template_has_no_instances:
  assumes "table_ok cl t" "i \<notin> row_id ` set t"
  shows "instances i t = 0"
  using assms
  by (auto simp: instances_def count_where_zero table_ok_def list_all_iff split: option.splits)

text \<open>The row of a template.\<close>

definition template_row ::
  "event \<Rightarrow> uuid \<Rightarrow> create_job_request \<Rightarrow> recurrence_config \<Rightarrow> time \<Rightarrow> json \<Rightarrow> job_row" where
  "template_row ev client req rc first_fire v =
     new_row (ev_uuid ev) (ev_now ev) (req_idempotency_key req) client v ''SCHEDULED''
       (req_scheduled_at req) (req_expires_at req) (req_max_retries req)
       (req_retry_delay_sec req) (req_webhook_url req) True (Some (rc_cron_expr rc))
       (Some first_fire) (rc_max_occurrences rc) (rc_end_at rc) None
       (policy_as_str (rc_concurrency_policy rc)) True"

text \<open>A successful \<open>create_recurring\<close> inserts the template and its first instance.\<close>

lemma create_recurring_tables:
  assumes q: "quiet w" and c: "codec_ok x" and p: "payload_ok (req_payload req)"
    and cr: "create_recurring x client req rc w = (Inr (tmpl, inst), w')"
  obtains f v v' ev ev' t1 t2 where
    "next_fire_after x (rc_cron_expr rc) (req_scheduled_at req) = Inr f"
    "insert_row (client_ids w) (template_row ev client req rc f v) (w_jobs w) = Inr t1"
    "from_row (x_from_value x) (template_row ev client req rc f v) = Inr tmpl"
    "insert_row (client_ids w) (instance_row x ev' tmpl f v') t1 = Inr t2"
    "w_jobs w' = t2"
proof -
  obtain v where v: "x_to_value x (req_payload req) = Some v" "x_from_value x v = Some (req_payload req)"
    using codec_okD(1) [OF c p] by blast
  let ?ev = "current_event w"
  obtain f where f: "next_fire_after x (rc_cron_expr rc) (req_scheduled_at req) = Inr f"
    using cr by (cases "next_fire_after x (rc_cron_expr rc) (req_scheduled_at req)")
      (auto simp: create_recurring_def lift_result_def)
  let ?r = "template_row ?ev client req rc f v"
  have "row_state ?r = job_state_as_str Scheduled" "x_from_value x (row_payload ?r) \<noteq> None"
    using v by (simp_all add: template_row_def new_row_def)
  then obtain j where j: "from_row (x_from_value x) ?r = Inr j" "decode_row x ?r = return_io j"
    using decode_row_total by blast
  have pj: "payload_ok (job_payload_of j)"
    using from_row_InrD(4) [OF j(1)] codec_okD(3) [OF c] by blast
  obtain t1 where t1: "insert_row (client_ids w) ?r (w_jobs w) = Inr t1"
    using cr f q v
    by (cases "insert_row (client_ids w) ?r (w_jobs w)")
      (auto simp: create_recurring_def lift_result_def run Let_def template_row_def)
  define w1 where "w1 = (tick w)\<lparr>w_jobs := t1\<rparr>"
  have w1: "quiet w1" "client_ids w1 = client_ids w" "w_jobs w1 = t1"
    using q by (simp_all add: w1_def)
  obtain v' where v': "x_to_value x (job_payload_of j) = Some v'"
    and ins: "case insert_row (client_ids w1) (instance_row x (current_event w1) j f v') (w_jobs w1) of
       Inl e \<Rightarrow> insert_instance x j f (instance_key x (job_id j) f) w1 = (Inl (Sqlx e), tick w1)
     | Inr t \<Rightarrow> \<exists>i. insert_instance x j f (instance_key x (job_id j) f) w1 =
                    (Inr i, (tick w1)\<lparr>w_jobs := t\<rparr>)"
    using insert_instance_run [OF w1(1) c pj] by blast
  have step: "create_recurring x client req rc w =
      bind_io (insert_instance x j f (instance_key x (job_id j) f))
       (\<lambda>inst. then_io record_recurring_instance_created
       (then_io refresh_metrics (then_io notify_one (return_io (j, inst))))) w1"
    using f q v t1 j(2)
    by (simp add: create_recurring_def lift_result_def run Let_def template_row_def w1_def)
  obtain t2 where t2: "insert_row (client_ids w1) (instance_row x (current_event w1) j f v') (w_jobs w1) = Inr t2"
    using ins cr step
    by (cases "insert_row (client_ids w1) (instance_row x (current_event w1) j f v') (w_jobs w1)")
      (auto simp: run)
  then obtain k where k: "insert_instance x j f (instance_key x (job_id j) f) w1 = (Inr k, (tick w1)\<lparr>w_jobs := t2\<rparr>)"
    using ins by auto
  let ?w2 = "(tick w1)\<lparr>w_jobs := t2\<rparr>"
  let ?w3 = "?w2\<lparr>w_metrics := (w_metrics ?w2)\<lparr>m_recurring_created := Suc (m_recurring_created (w_metrics ?w2))\<rparr>\<rparr>"
  obtain w4 where w4: "refresh_metrics ?w3 = (Inr (), w4)" "w_jobs w4 = t2"
    using refresh_metrics_table(2) [of ?w3] w1(1) by auto
  have "tmpl = j" "w_jobs w' = t2"
    using cr step k w4 by (auto simp: run record_recurring_instance_created_def)
  then show thesis
    using that [OF f t1 _ _ ] j(1) t2 w1 by simp
qed

lemma create_recurring_establishes:
  assumes "quiet w" "codec_ok x" "payload_ok (req_payload req)"
    and ok: "table_ok (client_ids w) (w_jobs w)" and m: "rc_max_occurrences rc = Some m" "is_i32 m"
    and cr: "create_recurring x client req rc w = (Inr (tmpl, inst), w')"
  shows "occurrences_ok (client_ids w) (job_id tmpl) m (w_jobs w')"
proof -
  obtain f v v' ev ev' t1 t2 where
    f: "next_fire_after x (rc_cron_expr rc) (req_scheduled_at req) = Inr f"
    and t1: "insert_row (client_ids w) (template_row ev client req rc f v) (w_jobs w) = Inr t1"
    and j: "from_row (x_from_value x) (template_row ev client req rc f v) = Inr tmpl"
    and t2: "insert_row (client_ids w) (instance_row x ev' tmpl f v') t1 = Inr t2" "w_jobs w' = t2"
    by (rule create_recurring_tables [OF assms(1,2,3) cr])
  let ?r = "template_row ev client req rc f v" and ?i = "job_id tmpl"
  have i: "row_id ?r = ?i" using from_row_InrD(1) [OF j] by simp
  have fresh: "?i \<notin> row_id ` set (w_jobs w)" "t1 = w_jobs w @ [?r]"
    using insert_row_InrD(1,3) [OF t1] i by simp_all
  have none: "List.find (\<lambda>r. row_id r = ?i) (w_jobs w) = None"
    using fresh(1) by (force simp: find_None_iff)
  have "row_with_id ?i t1 = Some ?r"
    using fresh(2) i by (simp add: row_with_id_def find_append_None [OF none])
  then have row: "row_with_id ?i t2 = Some ?r" using row_with_id_insert [OF t2(1)] by blast
  have no_parent: "row_parent_job_id ?r = None" by (simp add: template_row_def new_row_def)
  have "instances ?i t1 = 0"
    using fresh_template_has_no_instances [OF ok fresh(1)] fresh(2) no_parent
    by (simp add: instances_def count_where_def)
  then have one: "instances ?i t2 = 1" using instances_insert [OF t2(1) refl] by simp
  have "table_ok (client_ids w) t2"
    using insert_keeps_table_ok t1 t2(1) ok by blast
  moreover have "row_max_occurrences ?r = Some m" "row_occurrences_completed ?r = 0"
    using m by (simp_all add: template_row_def new_row_def)
  ultimately show ?thesis
    using row one no_parent m t2(2) by (simp add: occurrences_ok_def)
qed

text \<open>C15: A template created with the maximum \<open>m\<close> never gets more than \<open>max 1 m\<close> instances, however
  many times its instances complete and spawn the next, as long as the statements reach the
  database.\<close>

theorem max_occurrences_bound:
  assumes "quiet w" "codec_ok x" "payload_ok (req_payload req)"
    and "table_ok (client_ids w) (w_jobs w)" "rc_max_occurrences rc = Some m" "is_i32 m"
    and "create_recurring x client req rc w = (Inr (tmpl, inst), w')"
  shows "int (instances (job_id tmpl) (w_jobs (spawn_all x (job_id tmpl) prevs w'))) \<le> max 1 m"
proof -
  note s = sql_onlyD [OF sql_only_create_recurring [of x client req rc], of w, unfolded assms(7) snd_conv]
  have "occurrences_ok (client_ids w') (job_id tmpl) m (w_jobs w')" "quiet w'"
    using create_recurring_establishes [OF assms] s assms(1) by simp_all
  then show ?thesis
    using spawn_all_keeps_occurrences assms(2) occurrences_ok_bound by blast
qed

definition sample_request :: create_job_request where
  "sample_request =
     \<lparr>req_idempotency_key = ''k'', req_payload = Http ''GET'' ''u'' [] None 30,
      req_scheduled_at = 0, req_expires_at = None, req_max_retries = 3, req_retry_delay_sec = 60,
      req_webhook_url = None, req_recurrence = None\<rparr>"

definition sample_recurrence :: recurrence_config where
  "sample_recurrence =
     \<lparr>rc_cron_expr = ''0 8 * * *'', rc_end_at = None, rc_max_occurrences = Some 2,
      rc_concurrency_policy = QueueOnce\<rparr>"

lemma sample_created:
  "\<exists>tmpl inst w'. create_recurring sample_externals 1 sample_request sample_recurrence (idle_world []) =
     (Inr (tmpl, inst), w') \<and> job_id tmpl = 100"
proof -
  have "map_sum (\<lambda>_. ()) (\<lambda>(a, b). job_id a)
      (fst (create_recurring sample_externals 1 sample_request sample_recurrence (idle_world []))) = Inr 100"
    by code_simp
  then show ?thesis
    by (cases "create_recurring sample_externals 1 sample_request sample_recurrence (idle_world [])";
        cases "fst (create_recurring sample_externals 1 sample_request sample_recurrence (idle_world []))")
      auto
qed

theorem max_occurrences_bound_witness:
  "\<exists>tmpl inst w'. create_recurring sample_externals 1 sample_request sample_recurrence (idle_world []) =
       (Inr (tmpl, inst), w') \<and> job_id tmpl = 100 \<and>
     int (instances (job_id tmpl)
       (w_jobs (spawn_all sample_externals (job_id tmpl) [seconds 60, seconds 120] w'))) \<le> max 1 2"
proof -
  obtain tmpl inst w' where c: "create_recurring sample_externals 1 sample_request sample_recurrence
      (idle_world []) = (Inr (tmpl, inst), w')" "job_id tmpl = 100"
    using sample_created by blast
  have "int (instances (job_id tmpl)
      (w_jobs (spawn_all sample_externals (job_id tmpl) [seconds 60, seconds 120] w'))) \<le> max 1 2"
    by (rule max_occurrences_bound [OF quiet_idle_world sample_codec_ok _ _ _ _ c(1)])
      (simp_all add: sample_request_def sample_recurrence_def payload_ok_def table_ok_def
        is_i32_def int_limits)
  with c show ?thesis by blast
qed

definition sample_template :: job_row where
  "sample_template = new_row 7 0 ''t'' 1 (payload_to_value (Http ''GET'' ''u'' [] None 30))
     ''SCHEDULED'' 0 None 3 60 None True (Some ''0 8 * * *'') (Some 0) (Some 2) None None
     (policy_as_str Allow) True"

theorem spawn_next_instance_refines_witness:
  "spawn_effect sample_externals 7 0 [1] [sample_template]
     (w_jobs (snd (spawn_next_instance sample_externals 7 0 (idle_world [sample_template])))) \<and>
   instances 7 (w_jobs (snd (spawn_next_instance sample_externals 7 0 (idle_world [sample_template])))) = 1"
proof
  show "spawn_effect sample_externals 7 0 [1] [sample_template]
     (w_jobs (snd (spawn_next_instance sample_externals 7 0 (idle_world [sample_template]))))"
    using spawn_next_instance_refines [of "idle_world [sample_template]" sample_externals 7 0]
    by (simp add: sample_codec_ok counts_below_def sample_template_def new_row_def int_limits)
qed code_simp

definition losing_world :: "nat \<Rightarrow> table \<Rightarrow> world" where
  "losing_world k t = (idle_world t)\<lparr>w_env := \<lambda>n. if n = k
     then (idle_event n)\<lparr>ev_delivery := Dropped\<rparr> else idle_event n\<rparr>"

definition sample_first_instance :: job_row where
  "sample_first_instance = new_row 8 0 ''7:0'' 1 (payload_to_value (Http ''GET'' ''u'' [] None 30))
     ''COMPLETED'' 0 None 3 60 None False None None None None (Some 7) (policy_as_str Allow) False"

text \<open>The statements of a spawn are not in one transaction. When the statement that counts the
  occurrence is lost after the instance was inserted, the template gets one instance more than its
  maximum: with the maximum 2 and the first instance there, two spawns leave two instances when
  nothing is lost and three when that statement is lost in the first spawn.\<close>

theorem lost_increment_exceeds_maximum:
  "row_max_occurrences sample_template = Some 2 \<and>
   instances 7 (w_jobs (spawn_all sample_externals 7 [0, seconds 60]
     (idle_world [sample_template, sample_first_instance]))) = 2 \<and>
   instances 7 (w_jobs (spawn_all sample_externals 7 [0, seconds 60]
     (losing_world 3 [sample_template, sample_first_instance]))) = 3"
  by (intro conjI) code_simp+

end
