(* ===== verification/Webhook.thy ===== *)
theory Webhook
  imports Repository Config Payload_Codec
begin

text \<open>
  \<open>src/webhook.rs\<close>: the delivery of a job's final state to its webhook, with retries and exponential
  backoff, and the recording of the outcome.
\<close>

section \<open>Delivering\<close>

text \<open>One POST. The log of the world keeps every request.\<close>

definition post_hook :: "string \<Rightarrow> job_response \<Rightarrow> string \<Rightarrow> hook_reply io" where
  "post_hook url body event w =
     (Inr (ev_reply (current_event w)), (tick w)\<lparr>w_posts := w_posts w @ [HookPost url body event]\<rparr>)"

definition is_success :: "hook_reply \<Rightarrow> bool" where
  "is_success r = (case r of HookStatus n \<Rightarrow> 200 \<le> n \<and> n < 300 | HookError \<Rightarrow> False)"

definition sleep_secs :: "nat \<Rightarrow> unit io" where
  "sleep_secs n = modify_io (\<lambda>w. w\<lparr>w_sleeps := w_sleeps w @ [n]\<rparr>)"

text \<open>\<open>2u64.saturating_pow(attempts as u32)\<close>.\<close>

definition backoff_secs :: "int \<Rightarrow> nat" where
  "backoff_secs attempts = nat (saturate_u64 (2 ^ nat (attempts mod 4294967296)))"

text \<open>
  The loop, from \<open>attempts\<close> on; it returns whether a delivery succeeded and the number of attempts.
  The fuel is the number of attempts left. It runs out only when \<open>max_retries\<close> is \<open>i32::MAX\<close>: then
  the test \<open>attempts <= max_retries\<close> never fails, and the loop ends only with a delivery.
\<close>

fun deliver :: "nat \<Rightarrow> string \<Rightarrow> job_response \<Rightarrow> string \<Rightarrow> int \<Rightarrow> int \<Rightarrow> (bool \<times> int) io" where
  "deliver fuel url body event max_retries attempts =
     (if attempts \<le> max_retries
      then (case fuel of
              0 \<Rightarrow> throw_io Diverged
            | Suc fuel' \<Rightarrow>
                let attempts = wrap_i32 (attempts + 1) in
                bind_io (post_hook url body event) (\<lambda>reply.
                if is_success reply then return_io (True, attempts)
                else
                  then_io record_webhook_failure
                    (if attempts \<le> max_retries
                     then then_io (sleep_secs (backoff_secs attempts))
                            (deliver fuel' url body event max_retries attempts)
                     else deliver fuel' url body event max_retries attempts)))
      else return_io (False, attempts))"

declare deliver.simps [simp del]

definition emit :: "externals \<Rightarrow> config \<Rightarrow> uuid \<Rightarrow> unit io" where
  "emit x cfg jid =
     bind_io (attempt (get_job_by_id_internal x jid)) (\<lambda>found.
     case found of
       Inl e \<Rightarrow> return_io ()
     | Inr None \<Rightarrow> return_io ()
     | Inr (Some j) \<Rightarrow>
         if \<not> is_terminal (job_state_of j) then return_io ()
         else
           (case job_webhook_url j of
              None \<Rightarrow> return_io ()
            | Some url \<Rightarrow>
                bind_io (deliver (nat (c_webhook_max_retries cfg - job_webhook_attempts j + 1)) url
                           (response_of_job j) (job_state_as_str (job_state_of j))
                           (c_webhook_max_retries cfg) (job_webhook_attempts j))
                  (\<lambda>(success, attempts).
                bind_io (attempt (update_webhook_result jid success attempts))
                  (\<lambda>_. return_io ()))))"

section \<open>The database sees only the outcome\<close>

lemma sql_only_post_hook [effect_intro]: "sql_only (post_hook u b e)"
  by (simp add: keeps_def sql_effect_def post_hook_def)

lemma sql_only_sleep_secs [effect_intro]: "sql_only (sleep_secs n)"
  unfolding sleep_secs_def by (auto intro: effect_intro)

lemma sql_only_record_webhook_failure [effect_intro]: "sql_only record_webhook_failure"
  unfolding record_webhook_failure_def by (intro effect_intro)

text \<open>The delivery has every effect of a request, of the sleep and of the counting of a failure; the
  report has those that the two statements around the delivery have as well.\<close>

context effect_core begin

lemma deliver:
  assumes "\<And>u b e. keeps R (post_hook u b e)" "\<And>n. keeps R (sleep_secs n)" "keeps R record_webhook_failure"
  shows "keeps R (deliver fuel u b e m a)"
proof (induction fuel arbitrary: a)
  case 0
  show ?case by (subst deliver.simps) (auto intro: core_composition)
next
  case (Suc fuel)
  show ?case
    by (subst deliver.simps) (auto simp: Let_def intro!: core_composition keeps_if assms Suc.IH)
qed

lemma emit:
  assumes "\<And>fuel u b e m a. keeps R (deliver fuel u b e m a)" "\<And>ok n. keeps R (update_webhook_result i ok n)"
  shows "keeps R (emit x cfg i)"
  unfolding emit_def by (intro core_composition keeps_if keeps_cases reads assms)

end

lemma leaves_pool_posting [effect_intro]:
  "leaves_pool (post_hook u b e)" "leaves_pool (sleep_secs n)" "leaves_pool record_webhook_failure"
  by (simp_all add: keeps_def pool_effect_def pool_state_def post_hook_def sleep_secs_def record_webhook_failure_def
      modify_io_def count_metric_def)

lemma deliver_effects [effect_intro]: "sql_only (deliver fuel u b e m a)" "leaves_pool (deliver fuel u b e m a)"
  by (intro sql.deliver pool.deliver effect_intro)+

lemma emit_effects [effect_intro]: "sql_only (emit x cfg i)" "leaves_pool (emit x cfg i)"
  by (intro sql.emit pool.emit effect_intro)+

section \<open>How often a webhook is called\<close>

text \<open>The reply to the request \<open>k\<close> requests from now.\<close>

definition reply_at :: "world \<Rightarrow> nat \<Rightarrow> hook_reply" where
  "reply_at w k = ev_reply (w_env w (w_tick w + k))"

text \<open>
  \<open>delivered w w' n a hook k s\<close>: of at most \<open>n\<close> requests \<open>k\<close> were sent, all equal to \<open>hook\<close>, with the
  backoff after attempt \<open>a + i\<close> before the request \<open>i\<close>; only the last one may be answered with
  success, which is \<open>s\<close>.
\<close>

definition delivered :: "world \<Rightarrow> world \<Rightarrow> nat \<Rightarrow> int \<Rightarrow> hook_post \<Rightarrow> nat \<Rightarrow> bool \<Rightarrow> bool" where
  "delivered w w' n a hook k s \<longleftrightarrow>
     k \<le> n \<and> w_posts w' = w_posts w @ replicate k hook \<and>
     w_sleeps w' = w_sleeps w @ map (\<lambda>i. backoff_secs (a + int i)) [1..<k] \<and>
     (\<forall>i. Suc i < k \<longrightarrow> \<not> is_success (reply_at w i)) \<and>
     (s \<longleftrightarrow> 0 < k \<and> is_success (reply_at w (k - 1))) \<and> (\<not> s \<longrightarrow> k = n) \<and>
     w_jobs w' = w_jobs w \<and> w_env w' = w_env w \<and> w_clients w' = w_clients w"

lemma deliver_done:
  "max_retries < a \<Longrightarrow> deliver fuel u b e max_retries a w = (Inr (False, a), w)"
  by (simp add: deliver.simps)

text \<open>The world after a request, and after a request that failed as attempt \<open>a\<close>.\<close>

definition posted :: "hook_post \<Rightarrow> world \<Rightarrow> world" where
  "posted hook w = (tick w)\<lparr>w_posts := w_posts w @ [hook]\<rparr>"

definition failed_once :: "hook_post \<Rightarrow> int \<Rightarrow> int \<Rightarrow> world \<Rightarrow> world" where
  "failed_once hook max_retries a w =
     (let w1 = (posted hook w)\<lparr>w_metrics := (w_metrics w)\<lparr>m_webhook_failures :=
                 Suc (m_webhook_failures (w_metrics w))\<rparr>\<rparr>
      in if a \<le> max_retries then w1\<lparr>w_sleeps := w_sleeps w @ [backoff_secs a]\<rparr> else w1)"

lemma deliver_step:
  assumes "a \<le> max_retries" "is_i32 a" "is_i32 max_retries" "max_retries < i32_max"
  shows "deliver (Suc fuel) u b e max_retries a w =
    (if is_success (reply_at w 0) then (Inr (True, a + 1), posted (HookPost u b e) w)
     else deliver fuel u b e max_retries (a + 1) (failed_once (HookPost u b e) max_retries (a + 1) w))"
proof -
  have "wrap_i32 (a + 1) = a + 1"
    using assms(1,2,4) by (intro wrap_i32_id) (auto simp: is_i32_def int_limits)
  then show ?thesis
    using assms(1)
    by (subst deliver.simps)
      (simp add: posted_def failed_once_def post_hook_def run Let_def reply_at_def current_event_def
        record_webhook_failure_def sleep_secs_def)
qed

lemma failed_once_simps [simp]:
  "w_posts (failed_once h m a w) = w_posts w @ [h]" "w_jobs (failed_once h m a w) = w_jobs w"
  "w_env (failed_once h m a w) = w_env w" "w_clients (failed_once h m a w) = w_clients w"
  "reply_at (failed_once h m a w) i = reply_at w (Suc i)"
  "w_sleeps (failed_once h m a w) = w_sleeps w @ (if a \<le> m then [backoff_secs a] else [])"
  by (simp_all add: failed_once_def posted_def reply_at_def Let_def)

lemma map_upt_from_1: "map f [1..<Suc k] = (if 0 < k then f 1 # map (\<lambda>i. f (Suc i)) [1..<k] else [])"
  by (induction k) auto

lemma deliver_spec:
  assumes "is_i32 a" "is_i32 max_retries" "max_retries < i32_max" "fuel = nat (max_retries - a + 1)"
  shows "\<exists>k s w'. deliver fuel u b e max_retries a w = (Inr (s, a + int k), w') \<and>
    delivered w w' fuel a (HookPost u b e) k s"
  using assms(1,4)
proof (induction fuel arbitrary: a w)
  case 0
  then have "max_retries < a" by simp
  then show ?case by (intro exI [of _ 0] exI [of _ False] exI [of _ w]) (simp add: deliver_done delivered_def)
next
  case (Suc fuel)
  have le: "a \<le> max_retries" and fuel: "fuel = nat (max_retries - (a + 1) + 1)" using Suc.prems by simp_all
  have a1: "is_i32 (a + 1)"
    using Suc.prems(1) le assms(2,3) by (auto simp: is_i32_def int_limits)
  note step = deliver_step [OF le Suc.prems(1) assms(2,3), of fuel u b e w]
  show ?case
  proof (cases "is_success (reply_at w 0)")
    case True
    then show ?thesis
      by (intro exI [of _ 1] exI [of _ True] exI [of _ "posted (HookPost u b e) w"])
        (simp add: step delivered_def posted_def)
  next
    case False
    define w3 where "w3 = failed_once (HookPost u b e) max_retries (a + 1) w"
    obtain k s w' where k: "deliver fuel u b e max_retries (a + 1) w3 = (Inr (s, a + 1 + int k), w')"
      "delivered w3 w' fuel (a + 1) (HookPost u b e) k s"
      using Suc.IH [OF a1 fuel] by blast
    have "a + 1 + int k = a + int (Suc k)" by simp
    then have run: "deliver (Suc fuel) u b e max_retries a w = (Inr (s, a + int (Suc k)), w')"
      using False step k(1) unfolding w3_def by (simp only: if_False)
    note w3 = w3_def
    have same: "w_posts w' = w_posts w3 @ replicate k (HookPost u b e)" "k \<le> fuel" "\<not> s \<longrightarrow> k = fuel"
      "w_jobs w' = w_jobs w3" "w_env w' = w_env w3" "w_clients w' = w_clients w3"
      using k(2) unfolding delivered_def by blast+
    have pos: "0 < k \<longleftrightarrow> a + 1 \<le> max_retries"
    proof -
      have "k \<le> fuel" "s \<longrightarrow> 0 < k" "\<not> s \<longrightarrow> k = fuel"
        using k(2) unfolding delivered_def by blast+
      then show ?thesis unfolding fuel by (cases s) (simp_all add: add1_zle_eq)
    qed
    have "w_sleeps w' = w_sleeps w3 @ map (\<lambda>i. backoff_secs (a + 1 + int i)) [1..<k]"
      using k(2) unfolding delivered_def by blast
    moreover have "a + 1 + int i = a + int (Suc i)" for i by simp
    ultimately have sleeps: "w_sleeps w' = w_sleeps w3 @ map (\<lambda>i. backoff_secs (a + int (Suc i))) [1..<k]"
      by (simp only:)
    have "delivered w w' (Suc fuel) a (HookPost u b e) (Suc k) s"
      unfolding delivered_def
    proof (intro conjI allI impI)
      show "w_sleeps w' = w_sleeps w @ map (\<lambda>i. backoff_secs (a + int i)) [1..<Suc k]"
        using pos unfolding map_upt_from_1 sleeps by (cases "k = 0") (simp_all add: w3)
    next
      fix i assume "Suc i < Suc k"
      then show "\<not> is_success (reply_at w i)"
        using k(2) False by (cases i) (auto simp: delivered_def w3)
    next
      show "s = (0 < Suc k \<and> is_success (reply_at w (Suc k - 1)))"
        using k(2) False by (cases k) (auto simp: delivered_def w3)
    next
      show "w_posts w' = w_posts w @ replicate (Suc k) (HookPost u b e)"
        using same(1) by (simp add: w3)
    qed (use same w3 in simp_all)
    with run show ?thesis by blast
  qed
qed

lemma webhook_of_terminal:
  assumes "quiet w" "List.find (\<lambda>r. row_id r = jid) (w_jobs w) = Some r"
    and "from_row (x_from_value x) r = Inr j" "is_terminal (job_state_of j)"
    and "job_webhook_url j = Some url"
  shows "emit x cfg jid w =
    (case deliver (nat (c_webhook_max_retries cfg - job_webhook_attempts j + 1)) url
        (response_of_job j) (row_state r) (c_webhook_max_retries cfg) (job_webhook_attempts j) (tick w) of
       (Inl e, w1) \<Rightarrow> (Inl e, w1)
     | (Inr (s, a), w1) \<Rightarrow> (Inr (), snd (update_webhook_result jid s a w1)))"
proof -
  note row = from_row_InrD(5) [OF assms(3)]
  let ?d = "deliver (nat (c_webhook_max_retries cfg - job_webhook_attempts j + 1)) url
    (response_of_job j) (row_state r) (c_webhook_max_retries cfg) (job_webhook_attempts j)"
  have q: "quiet (snd (?d (tick w)))"
    using sql_onlyD(5) [OF deliver_effects(1)] assms(1) by simp
  show ?thesis
    using assms q row
    by (auto simp: emit_def run decoded_def split: prod.split sum.split)
qed


text \<open>A job that is not in a terminal state, or has no webhook, or is not in the table, causes no
  request and no write.\<close>

theorem emit_silent:
  assumes "quiet w" "case List.find (\<lambda>r. row_id r = jid) (w_jobs w) of None \<Rightarrow> True
      | Some r \<Rightarrow> row_state r \<in> {''SCHEDULED'', ''LEASED'', ''RUNNING''} \<or> row_webhook_url r = None"
  shows "emit x cfg jid w = (Inr (), tick w)"
proof (cases "List.find (\<lambda>r. row_id r = jid) (w_jobs w)")
  case None
  then show ?thesis using assms(1) by (simp add: emit_def run decoded_def)
next
  case (Some r)
  show ?thesis
  proof (cases "from_row (x_from_value x) r")
    case (Inl e)
    then show ?thesis using assms(1) Some by (simp add: emit_def run decoded_def)
  next
    case (Inr j)
    have "\<not> is_terminal (job_state_of j) \<or> job_webhook_url j = None"
      using assms(2) Some from_row_InrD(5,12) [OF Inr] by (cases "job_state_of j") auto
    then show ?thesis using assms(1) Some Inr
      by (auto simp: emit_def run decoded_def split: option.split)
  qed
qed

definition deaf_world :: "table \<Rightarrow> world" where
  "deaf_world t = (idle_world t)\<lparr>w_env := \<lambda>n. (idle_event n)\<lparr>ev_reply := HookError\<rparr>\<rparr>"

lemma quiet_deaf_world [simp]: "quiet (deaf_world t)"
  by (simp add: quiet_def deaf_world_def idle_event_def)


theorem emit_silent_witness:
  "emit sample_externals sample_config 5 (idle_world [sample_row 5 ''RUNNING'' (Some ''h'')]) =
     (Inr (), tick (idle_world [sample_row 5 ''RUNNING'' (Some ''h'')]))"
  by (rule emit_silent) (simp_all add: sample_row_def new_row_def)

end
