(* ===== verification/Executor.thy ===== *)
theory Executor
  imports World
begin

text \<open>
  \<open>src/worker/executor.rs\<close>: the execution of a payload. The HTTP client, the file system, the
  processes and the clock are a parameter (\<open>exec_env\<close>); what the code does with their answers is
  modelled, paths and byte slices with the rules of the standard library.
\<close>

section \<open>Paths\<close>

text \<open>\<open>Path::join\<close> on Unix: an absolute path replaces the base.\<close>

definition path_join :: "string \<Rightarrow> string \<Rightarrow> string" where
  "path_join base p =
     (if p \<noteq> [] \<and> hd p = CHR ''/'' then p
      else if base \<noteq> [] \<and> last base \<noteq> CHR ''/'' then base @ ''/'' @ p
      else base @ p)"

datatype path_component = RootDir | CurDir | ParentDir | Normal string

fun split_slash :: "string \<Rightarrow> string \<Rightarrow> string list" where
  "split_slash part [] = [part]"
| "split_slash part (c # cs) =
     (if c = CHR ''/'' then part # split_slash [] cs else split_slash (part @ [c]) cs)"

text \<open>Empty parts and dots are dropped, but for a dot at the start of a relative path.\<close>

definition part_component :: "string \<Rightarrow> path_component list" where
  "part_component part =
     (if part = [] \<or> part = ''.'' then []
      else if part = ''..'' then [ParentDir] else [Normal part])"

definition components :: "string \<Rightarrow> path_component list" where
  "components p =
     (let parts = split_slash [] p in
      (if p \<noteq> [] \<and> hd p = CHR ''/'' then [RootDir]
       else if hd parts = ''.'' then [CurDir] else []) @ concat (map part_component parts))"

definition is_prefix_of :: "path_component list \<Rightarrow> path_component list \<Rightarrow> bool" where
  "is_prefix_of xs ys \<longleftrightarrow> take (length xs) ys = xs"

definition path_starts_with :: "string \<Rightarrow> string \<Rightarrow> bool" where
  "path_starts_with p base \<longleftrightarrow> is_prefix_of (components base) (components p)"

section \<open>The environment of an execution\<close>

datatype http_outcome = HttpFailed string | HttpResponse nat "string option"

datatype command_outcome =
    CommandFailed string
  | CommandOutput (cmd_stdout: string) (cmd_stderr: string) (cmd_code: "int option")

text \<open>
  Whether the timeout strikes; \<open>str::to_uppercase\<close> and the parser of HTTP methods; a request; the
  canonical form of a path (an error is its text); a command; \<open>String::from_utf8_lossy\<close>. A process
  killed by a signal has no exit code.
\<close>

record exec_env =
  ee_times_out :: bool
  ee_uppercase :: "string \<Rightarrow> string"
  ee_method :: "string \<Rightarrow> string + string"
  ee_request :: "string \<Rightarrow> string \<Rightarrow> (string \<times> string) list \<Rightarrow> string option \<Rightarrow> http_outcome"
  ee_canonicalize :: "string \<Rightarrow> string + string"
  ee_command :: "string \<Rightarrow> string list \<Rightarrow> command_outcome"
  ee_lossy :: "string \<Rightarrow> string"

section \<open>Executing\<close>

record execution_result =
  res_success :: bool
  res_output :: string
  res_status_code :: "nat option"

definition max_capture_bytes :: nat where
  "max_capture_bytes = 64 * 1024"

text \<open>\<open>truncate\<close>: slicing a string inside a character panics.\<close>

definition truncate :: "string \<Rightarrow> error + string" where
  "truncate s =
     (if length s \<le> max_capture_bytes then Inr s
      else if is_char_boundary s max_capture_bytes
        then Inr (take max_capture_bytes s @ ''...(truncated)'')
      else Inl (Panicked ''byte index is not a char boundary''))"

definition validate_script_path :: "exec_env \<Rightarrow> string \<Rightarrow> string \<Rightarrow> string + string" where
  "validate_script_path ee safe_dir path =
     (let candidate = path_join safe_dir path in
      case ee_canonicalize ee safe_dir of
        Inl e \<Rightarrow> Inl (''script safe dir unavailable: '' @ e)
      | Inr canonical_safe \<Rightarrow>
          (case ee_canonicalize ee candidate of
             Inl e \<Rightarrow> Inl (''script path invalid: '' @ e)
           | Inr canonical_script \<Rightarrow>
               if \<not> path_starts_with canonical_script canonical_safe
               then Inl ''script path escapes safe directory''
               else Inr canonical_script))"

definition failure :: "string \<Rightarrow> execution_result" where
  "failure out = \<lparr>res_success = False, res_output = out, res_status_code = None\<rparr>"

definition execute_http ::
  "exec_env \<Rightarrow> string \<Rightarrow> string \<Rightarrow> (string \<times> string) list \<Rightarrow> string option \<Rightarrow> error + execution_result" where
  "execute_http ee meth url headers body =
     (case ee_method ee (ee_uppercase ee meth) of
        Inl e \<Rightarrow> Inr (failure (''invalid HTTP method: '' @ e))
      | Inr m \<Rightarrow>
          (case ee_request ee m url headers body of
             HttpFailed e \<Rightarrow> Inr (failure e)
           | HttpResponse status body_text \<Rightarrow>
               let text = (case body_text of None \<Rightarrow> [] | Some t \<Rightarrow> t) in
               (case truncate text of
                  Inl e \<Rightarrow> Inl e
                | Inr truncated \<Rightarrow>
                    Inr \<lparr>res_success = (200 \<le> status \<and> status < 300), res_output = truncated,
                         res_status_code = Some status\<rparr>)))"

text \<open>An exit code is an \<open>i32\<close>, cast to \<open>u16\<close>.\<close>

definition execute_script :: "exec_env \<Rightarrow> string \<Rightarrow> string \<Rightarrow> string list \<Rightarrow> error + execution_result" where
  "execute_script ee safe_dir path args =
     (case validate_script_path ee safe_dir path of
        Inl e \<Rightarrow> Inr (failure e)
      | Inr valid_path \<Rightarrow>
          (case ee_command ee valid_path args of
             CommandFailed e \<Rightarrow> Inr (failure e)
           | CommandOutput out err code \<Rightarrow>
               (case truncate (ee_lossy ee out) of
                  Inl e \<Rightarrow> Inl e
                | Inr stdout \<Rightarrow>
                    (case truncate (ee_lossy ee err) of
                       Inl e \<Rightarrow> Inl e
                     | Inr stderr \<Rightarrow>
                         Inr \<lparr>res_success = (code = Some 0),
                              res_output = (if stderr = [] then stdout
                                            else stdout @ [CHR 0x0A] @ ''stderr: '' @ stderr),
                              res_status_code = map_option (\<lambda>c. nat (c mod 65536)) code\<rparr>))))"

fun execute_inner :: "exec_env \<Rightarrow> string \<Rightarrow> job_payload \<Rightarrow> error + execution_result" where
  "execute_inner ee safe_dir (Http m u hs b t) = execute_http ee m u hs b"
| "execute_inner ee safe_dir (Script p as t) = execute_script ee safe_dir p as"

definition execute :: "exec_env \<Rightarrow> string \<Rightarrow> job_payload \<Rightarrow> error + execution_result" where
  "execute ee safe_dir payload =
     (if ee_times_out ee
      then Inr (failure (''execution timed out after '' @ decimal (timeout_sec payload) @ ''s''))
      else execute_inner ee safe_dir payload)"

section \<open>Captured output\<close>

lemma truncate_bound: "truncate s = Inr out \<Longrightarrow> length out \<le> max_capture_bytes + 14"
  by (auto simp: truncate_def max_capture_bytes_def split: if_splits)

lemma truncate_panic_example:
  "truncate (replicate 65535 (CHR ''a'') @ [CHR 0xC3, CHR 0xA9]) =
     Inl (Panicked ''byte index is not a char boundary'')"
  by (simp add: truncate_def max_capture_bytes_def is_char_boundary_def nth_append is_continuation_def)

text \<open>Capturing an output panics exactly when the output is longer than 64 KiB and the byte at 64
  KiB continues a multi-byte character, as in 65535 ASCII characters followed by a two-byte one.\<close>

theorem truncate_panics_iff:
  "((\<exists>e. truncate s = Inl e) \<longleftrightarrow> 65536 < length s \<and> is_continuation (s ! 65536)) \<and>
   (\<exists>s e. truncate s = Inl e)"
proof
  show "(\<exists>e. truncate s = Inl e) \<longleftrightarrow> 65536 < length s \<and> is_continuation (s ! 65536)"
    by (auto simp: truncate_def max_capture_bytes_def is_char_boundary_def)
qed (use truncate_panic_example in blast)

section \<open>Scripts stay in the safe directory\<close>

text \<open>
  What \<open>canonicalize\<close> documents: an absolute path whose parts are names, without \<open>.\<close> and \<open>..\<close>.
\<close>

definition name_ok :: "string \<Rightarrow> bool" where
  "name_ok n \<longleftrightarrow> n \<noteq> [] \<and> CHR ''/'' \<notin> set n \<and> n \<noteq> ''.'' \<and> n \<noteq> ''..''"

definition absolute_path :: "string list \<Rightarrow> string" where
  "absolute_path names = (if names = [] then ''/'' else concat (map (\<lambda>n. CHR ''/'' # n) names))"

definition canonical :: "exec_env \<Rightarrow> bool" where
  "canonical ee \<longleftrightarrow> (\<forall>p q. ee_canonicalize ee p = Inr q \<longrightarrow>
     (\<exists>names. list_all name_ok names \<and> q = absolute_path names))"

lemma split_slash_name: "CHR ''/'' \<notin> set n \<Longrightarrow> split_slash part (n @ s) = split_slash (part @ n) s"
  by (induction n arbitrary: part) auto

lemma split_slash_names:
  "list_all name_ok names \<Longrightarrow>
   split_slash part (concat (map (\<lambda>n. CHR ''/'' # n) names)) = part # names"
proof (induction names arbitrary: part)
  case (Cons n names)
  then show ?case using split_slash_name [of n "[]"] by (simp add: name_ok_def)
qed simp

lemma components_absolute_path:
  assumes "list_all name_ok names"
  shows "components (absolute_path names) = RootDir # map Normal names"
proof -
  have parts: "concat (map part_component names) = map Normal names"
    using assms by (induction names) (auto simp: part_component_def name_ok_def)
  show ?thesis
  proof (cases "names = []")
    case True
    then show ?thesis by (simp add: absolute_path_def components_def part_component_def)
  next
    case False
    then have "hd (absolute_path names) = CHR ''/''" "absolute_path names \<noteq> []"
      by (cases names; simp add: absolute_path_def)+
    moreover have "split_slash [] (absolute_path names) = [] # names"
      using False split_slash_names [OF assms] by (simp add: absolute_path_def)
    ultimately show ?thesis
      by (simp add: components_def Let_def parts part_component_def [of "[]"])
  qed
qed

lemma is_prefix_of_map: "is_prefix_of (RootDir # map Normal xs) (RootDir # map Normal ys) \<Longrightarrow> \<exists>zs. ys = xs @ zs"
  by (simp add: is_prefix_of_def take_map)
    (metis append_take_drop_id inj_map_eq_map inj_def path_component.inject)

lemma validate_script_path_inside:
  assumes "canonical ee" "validate_script_path ee safe_dir path = Inr p"
  shows "\<exists>safe rest. ee_canonicalize ee safe_dir = Inr (absolute_path safe) \<and>
    ee_canonicalize ee (path_join safe_dir path) = Inr p \<and> p = absolute_path (safe @ rest)"
proof -
  obtain cs where cs: "ee_canonicalize ee safe_dir = Inr cs"
    and p: "ee_canonicalize ee (path_join safe_dir path) = Inr p" "path_starts_with p cs"
    using assms(2) by (auto simp: validate_script_path_def split: sum.splits if_splits)
  obtain safe names where n: "list_all name_ok safe" "cs = absolute_path safe"
    "list_all name_ok names" "p = absolute_path names"
    using assms(1) cs p(1) unfolding canonical_def by blast
  then obtain rest where "names = safe @ rest"
    using p(2) is_prefix_of_map by (auto simp: path_starts_with_def components_absolute_path)
  with n cs p(1) show ?thesis by blast
qed


text \<open>A file system for the witnesses: \<open>/s\<close> and \<open>/s/a\<close> exist.\<close>

definition sample_exec_env :: exec_env where
  "sample_exec_env =
     \<lparr>ee_times_out = False, ee_uppercase = id, ee_method = Inr,
      ee_request = (\<lambda>_ _ _ _. HttpResponse 200 (Some ''ok'')),
      ee_canonicalize = (\<lambda>p. if p = ''/s'' then Inr ''/s'' else if p = ''/s/a'' then Inr ''/s/a''
         else if p = ''/s/../sx'' then Inr ''/sx'' else Inl ''not found''),
      ee_command = (\<lambda>_ _. CommandOutput ''done'' [] (Some 0)), ee_lossy = id\<rparr>"

lemma canonical_sample: "canonical sample_exec_env"
proof -
  have names: "list_all name_ok [''s'']" "list_all name_ok [''s'', ''a'']" "list_all name_ok [''sx'']"
    by (simp_all add: name_ok_def)
  have "\<exists>names. list_all name_ok names \<and> q = absolute_path names"
    if "q = absolute_path [''s''] \<or> q = absolute_path [''s'', ''a''] \<or> q = absolute_path [''sx'']" for q
    using that names by blast
  then show ?thesis
    by (auto simp: canonical_def sample_exec_env_def absolute_path_def split: if_splits)
qed

lemma validate_sample: "validate_script_path sample_exec_env ''/s'' ''a'' = Inr ''/s/a''"
  by code_simp


text \<open>An execution reports success exactly when the timeout did not strike and either the server
  answered with a status in 200..299 or the script, found in the safe directory, exited with code 0.\<close>

theorem execute_success_iff:
  assumes "execute ee safe_dir payload = Inr res"
  shows "res_success res \<longleftrightarrow> \<not> ee_times_out ee \<and>
    (case payload of
       Http m u hs b t \<Rightarrow> \<exists>meth status txt. ee_method ee (ee_uppercase ee m) = Inr meth \<and>
         ee_request ee meth u hs b = HttpResponse status txt \<and> 200 \<le> status \<and> status \<le> 299
     | Script p as t \<Rightarrow> \<exists>script out err. validate_script_path ee safe_dir p = Inr script \<and>
         ee_command ee script as = CommandOutput out err (Some 0))"
  using assms
  by (cases payload)
    (auto simp: execute_def execute_http_def execute_script_def failure_def Let_def
      split: sum.splits if_splits http_outcome.splits command_outcome.splits)

theorem execute_success_iff_witness:
  "\<exists>res. execute sample_exec_env ''/s'' (Script ''a'' [] 5) = Inr res \<and>
    (res_success res \<longleftrightarrow> \<not> ee_times_out sample_exec_env \<and>
      (\<exists>script out err. validate_script_path sample_exec_env ''/s'' ''a'' = Inr script \<and>
         ee_command sample_exec_env script [] = CommandOutput out err (Some 0))) \<and>
    res_success res"
proof -
  have e: "execute sample_exec_env ''/s'' (Script ''a'' [] 5) =
      Inr \<lparr>res_success = True, res_output = ''done'', res_status_code = Some 0\<rparr>"
    using validate_sample
    by (simp add: execute_def execute_script_def truncate_def max_capture_bytes_def sample_exec_env_def)
  from execute_success_iff [OF e] e show ?thesis by simp
qed

end
