(* ===== verification/Result_Handler.thy ===== *)
theory Result_Handler
  imports Recurring Webhook Executor
begin

text \<open>
  \<open>src/worker/result.rs\<close>: what follows the execution of a job. A success completes the job and spawns
  the next instance of its template; a failure expires the job, dead-letters it or schedules a retry;
  a final state is reported to the webhook.
\<close>

section \<open>The handler\<close>

text \<open>
  \<open>now + ChronoDuration::seconds(n)\<close> of the \<open>chrono\<close> crate: a duration of more than \<open>i64::MAX\<close>
  milliseconds panics, and so does a sum outside the years -262143 to 262142.
\<close>

definition max_duration_secs :: int where
  "max_duration_secs = 9223372036854775"

definition min_instant :: time where
  "min_instant = seconds (- 8334601228800)"

definition max_instant :: time where
  "max_instant = seconds 8210266876800 - 1"

definition add_seconds :: "time \<Rightarrow> int \<Rightarrow> error + time" where
  "add_seconds now n =
     (if n < - max_duration_secs \<or> max_duration_secs < n
      then Inl (Panicked ''TimeDelta::seconds out of bounds'')
      else let t = now + seconds n in
        if t < min_instant \<or> max_instant < t
        then Inl (Panicked ''DateTime + TimeDelta overflowed'')
        else Inr t)"

text \<open>The four ends of \<open>handle\<close>, in the order of the code.\<close>

definition handle_success :: "externals \<Rightarrow> config \<Rightarrow> job \<Rightarrow> unit io" where
  "handle_success x cfg j =
     then_io (set_completed (job_id j))
       (then_io record_job_completed
         (then_io (case job_parent_job_id j of
                     None \<Rightarrow> return_io ()
                   | Some parent_id \<Rightarrow> spawn_next_instance x parent_id (job_scheduled_at j))
           (then_io (emit x cfg (job_id j)) (return_io ()))))"

definition handle_expired :: "externals \<Rightarrow> config \<Rightarrow> job \<Rightarrow> unit io" where
  "handle_expired x cfg j =
     then_io (set_state (job_id j) Expired)
       (then_io record_job_expired (then_io (emit x cfg (job_id j)) (return_io ())))"

definition handle_dead_letter :: "externals \<Rightarrow> config \<Rightarrow> job \<Rightarrow> unit io" where
  "handle_dead_letter x cfg j =
     then_io (set_state (job_id j) DeadLetter)
       (then_io record_job_failed (then_io (emit x cfg (job_id j)) (return_io ())))"

definition handle_retry :: "config \<Rightarrow> job \<Rightarrow> time \<Rightarrow> int \<Rightarrow> unit io" where
  "handle_retry cfg j now next_attempt =
     (let delay_secs = compute_retry_delay (job_retry_delay_sec j) next_attempt (c_max_retry_backoff_secs cfg)
      in bind_io (lift_result (add_seconds now delay_secs)) (\<lambda>retry_at.
         then_io (schedule_retry (job_id j) retry_at next_attempt)
           (then_io notify_one (return_io ()))))"

definition handle :: "externals \<Rightarrow> config \<Rightarrow> job \<Rightarrow> execution_result \<Rightarrow> unit io" where
  "handle x cfg j result =
     then_io record_execution_duration
       (bind_io utc_now (\<lambda>now.
        if res_success result then handle_success x cfg j
        else if (case job_expires_at j of None \<Rightarrow> False | Some expires_at \<Rightarrow> expires_at \<le> now)
        then handle_expired x cfg j
        else
          let next_attempt = wrap_i32 (job_attempt_count j + 1) in
          if job_max_retries j < next_attempt then handle_dead_letter x cfg j
          else handle_retry cfg j now next_attempt))"

lemma sql_only_metrics [effect_intro]:
  "sql_only record_execution_duration" "sql_only record_job_completed"
  "sql_only record_job_failed" "sql_only record_job_expired"
  unfolding record_execution_duration_def record_job_completed_def record_job_failed_def
    record_job_expired_def
  by (intro effect_intro)+

lemma sql_only_handle_ends [effect_intro]:
  "sql_only (handle_success x cfg j)" "sql_only (handle_expired x cfg j)"
  "sql_only (handle_dead_letter x cfg j)" "sql_only (handle_retry cfg j now n)"
  unfolding handle_success_def handle_expired_def handle_dead_letter_def handle_retry_def
  by (intro effect_intro; simp)+

lemma sql_only_handle [effect_intro]: "sql_only (handle x cfg j res)"
  unfolding handle_def by (intro effect_intro)

lemma leaves_pool_handle [effect_intro]: "leaves_pool (handle x cfg j res)"
  unfolding handle_def handle_success_def handle_expired_def handle_dead_letter_def handle_retry_def
    record_execution_duration_def record_job_completed_def record_job_failed_def record_job_expired_def
  by (intro effect_intro)

section \<open>What reporting to the webhook writes\<close>

lemma post_and_sleep_jobs [simp]:
  "w_jobs (snd (post_hook u b e w)) = w_jobs w" "w_jobs (snd (sleep_secs n w)) = w_jobs w"
  "w_jobs (snd (record_webhook_failure w)) = w_jobs w"
  by (simp_all add: post_hook_def sleep_secs_def record_webhook_failure_def count_metric_def modify_io_def)

lemma deliver_jobs: "w_jobs (snd (deliver fuel u b e m a w)) = w_jobs w"
proof (induction fuel arbitrary: a w)
  case 0
  show ?case by (subst deliver.simps) simp
next
  case (Suc fuel)
  show ?case
    by (subst deliver.simps)
      (simp add: Let_def run Suc.IH post_hook_def sleep_secs_def record_webhook_failure_def)
qed

text \<open>Reporting changes at most the webhook columns of the job's row.\<close>

definition webhook_columns :: "(job_row \<Rightarrow> job_row) \<Rightarrow> bool" where
  "webhook_columns g \<longleftrightarrow> g = (\<lambda>r. r) \<or> (\<exists>ok n t. g = webhook_set ok n t)"

lemma update_where_id [simp]: "update_where p (\<lambda>r. r) t = t"
  by (simp add: update_where_def)

lemma emit_writes:
  assumes "quiet w"
  shows "\<exists>g. webhook_columns g \<and> w_jobs (snd (emit x cfg i w)) = update_where (id_where i) g (w_jobs w)"
proof -
  let ?id = "\<lambda>r::job_row. r"
  have id: "webhook_columns ?id" by (simp add: webhook_columns_def)
  have unchanged: ?thesis if "w_jobs (snd (emit x cfg i w)) = w_jobs w"
    using that id by (intro exI [of _ ?id]) simp
  show ?thesis
  proof (cases "decoded x (List.find (\<lambda>r. row_id r = i) (w_jobs w))")
    case (Inl e)
    then have "\<exists>e'. e = Sqlx e'" by (auto simp: decoded_def split: option.splits sum.splits)
    then show ?thesis using Inl assms by (intro unchanged) (auto simp: emit_def run)
  next
    case (Inr found)
    show ?thesis
    proof (cases "\<exists>j url. found = Some j \<and> is_terminal (job_state_of j) \<and> job_webhook_url j = Some url")
      case False
      then show ?thesis using Inr assms
        by (intro unchanged) (auto simp: emit_def run split: option.splits)
    next
      case True
      then obtain j url where j: "found = Some j" "is_terminal (job_state_of j)" "job_webhook_url j = Some url"
        by blast
      let ?d = "deliver (nat (c_webhook_max_retries cfg - job_webhook_attempts j + 1)) url
        (response_of_job j) (job_state_as_str (job_state_of j)) (c_webhook_max_retries cfg)
        (job_webhook_attempts j) (tick w)"
      obtain res w1 where d: "?d = (res, w1)" by fastforce
      have w1: "quiet w1" "w_jobs w1 = w_jobs w"
        using sql_onlyD(5) [OF deliver_effects(1)] deliver_jobs d assms by (metis snd_conv tick_simps(1) quiet_simps(1))+
      show ?thesis
      proof (cases res)
        case (Inl e)
        then show ?thesis using Inr j d w1 assms
          by (intro unchanged) (simp add: emit_def run)
      next
        case (Inr p)
        obtain s a where p: "p = (s, a)" by fastforce
        have "w_jobs (snd (emit x cfg i w)) =
            update_where (id_where i) (webhook_set s a (ev_now (current_event w1))) (w_jobs w)"
          using \<open>decoded x _ = Inr found\<close> j d w1 assms Inr p by (simp add: emit_def run)
        moreover have "webhook_columns (webhook_set s a (ev_now (current_event w1)))"
          unfolding webhook_columns_def by blast
        ultimately show ?thesis by blast
      qed
    qed
  qed
qed

lemma webhook_columns_keep:
  assumes "webhook_columns g"
  shows "row_identity (g r) = row_identity r" "row_id (g r) = row_id r" "row_state (g r) = row_state r"
    "row_scheduled_at (g r) = row_scheduled_at r" "row_attempt_count (g r) = row_attempt_count r"
    "row_leased_until (g r) = row_leased_until r"
  using assms by (auto simp: webhook_columns_def webhook_set_def row_identity_def)

lemma update_where_twice:
  "(\<And>r. p (g r) = p r) \<Longrightarrow> update_where p h (update_where p g t) = update_where p (\<lambda>r. h (g r)) t"
  by (simp add: update_where_def)

lemma final_state_then_emit:
  assumes "quiet w" "w_jobs w = update_where (id_where i) (state_set st n) t"
  shows "\<exists>g. w_jobs (snd (emit x cfg i w)) = update_where (id_where i) g t \<and>
    (\<forall>r. row_identity (g r) = row_identity r \<and> row_state (g r) = job_state_as_str st)"
proof -
  obtain g where g: "webhook_columns g" "w_jobs (snd (emit x cfg i w)) = update_where (id_where i) g (w_jobs w)"
    using emit_writes [OF assms(1)] by blast
  have "w_jobs (snd (emit x cfg i w)) = update_where (id_where i) (\<lambda>r. g (state_set st n r)) t"
    using g(2) assms(2) by (simp add: update_where_twice id_where_def state_set_def)
  moreover have "row_identity (g (state_set st n r)) = row_identity r \<and>
      row_state (g (state_set st n r)) = job_state_as_str st" for r
    using webhook_columns_keep [OF g(1), of "state_set st n r"] by (simp add: state_set_def row_identity_def)
  ultimately show ?thesis by blast
qed

section \<open>Failures\<close>

definition expired_at :: "time \<Rightarrow> job \<Rightarrow> bool" where
  "expired_at now j \<longleftrightarrow> (\<exists>e. job_expires_at j = Some e \<and> e \<le> now)"

text \<open>What a failed execution makes of the job's row \<open>r\<close> at the instant \<open>now\<close>: \<open>r'\<close>.\<close>

definition failure_row :: "config \<Rightarrow> time \<Rightarrow> job \<Rightarrow> job_row \<Rightarrow> job_row \<Rightarrow> bool" where
  "failure_row cfg now j r r' \<longleftrightarrow> row_identity r' = row_identity r \<and>
     (if expired_at now j then row_state r' = ''EXPIRED''
      else if job_max_retries j \<le> job_attempt_count j then row_state r' = ''DEAD_LETTER''
      else (case add_seconds now (compute_retry_delay (job_retry_delay_sec j) (job_attempt_count j + 1)
                                    (c_max_retry_backoff_secs cfg)) of
              Inl _ \<Rightarrow> r' = r
            | Inr retry_at \<Rightarrow> row_state r' = ''SCHEDULED'' \<and> row_scheduled_at r' = retry_at \<and>
                row_attempt_count r' = job_attempt_count j + 1 \<and> row_leased_until r' = None))"

lemma handle_failure_run:
  assumes "\<not> res_success result" "is_i32 (job_attempt_count j)" "job_attempt_count j < i32_max"
  shows "handle x cfg j result w =
    (if expired_at (ev_now (current_event w)) j then handle_expired x cfg j
     else if job_max_retries j \<le> job_attempt_count j then handle_dead_letter x cfg j
     else handle_retry cfg j (ev_now (current_event w)) (job_attempt_count j + 1))
      (tick (w\<lparr>w_metrics := (w_metrics w)\<lparr>m_executions := Suc (m_executions (w_metrics w))\<rparr>\<rparr>))"
proof -
  have "wrap_i32 (job_attempt_count j + 1) = job_attempt_count j + 1"
    using assms(2,3) by (intro wrap_i32_id) (auto simp: is_i32_def int_limits)
  moreover have "(case job_expires_at j of None \<Rightarrow> False | Some e \<Rightarrow> e \<le> n) \<longleftrightarrow> expired_at n j" for n
    by (simp add: expired_at_def split: option.split)
  ultimately show ?thesis
    using assms(1) by (simp add: handle_def run record_execution_duration_def Let_def)
qed

lemma handle_failure_rows:
  assumes "quiet w" "\<not> res_success result" "is_i32 (job_attempt_count j)" "job_attempt_count j < i32_max"
  shows "\<exists>g. w_jobs (snd (handle x cfg j result w)) = update_where (id_where (job_id j)) g (w_jobs w) \<and>
    (\<forall>r. failure_row cfg (ev_now (current_event w)) j r (g r))"
proof -
  let ?now = "ev_now (current_event w)"
  define w1 where "w1 = tick (w\<lparr>w_metrics := (w_metrics w)\<lparr>m_executions := Suc (m_executions (w_metrics w))\<rparr>\<rparr>)"
  have w1: "quiet w1" "w_jobs w1 = w_jobs w" using assms(1) by (simp_all add: w1_def)
  note run_eq = handle_failure_run [OF assms(2-4), of x cfg w, folded w1_def]
  have final: "\<exists>g. w_jobs (snd (then_io (set_state (job_id j) st) (then_io (count_metric m)
      (then_io (emit x cfg (job_id j)) (return_io ()))) w1)) = update_where (id_where (job_id j)) g (w_jobs w) \<and>
      (\<forall>r. row_identity (g r) = row_identity r \<and> row_state (g r) = job_state_as_str st)" for st m
  proof -
    let ?n = "ev_now (current_event w1)"
    let ?w2 = "(tick w1)\<lparr>w_jobs := update_where (id_where (job_id j)) (state_set st ?n) (w_jobs w1),
      w_metrics := m (w_metrics w1)\<rparr>"
    have "snd (then_io (set_state (job_id j) st) (then_io (count_metric m)
        (then_io (emit x cfg (job_id j)) (return_io ()))) w1) = snd (emit x cfg (job_id j) ?w2)"
      using w1 by (simp add: run split: prod.split sum.split)
    moreover have "quiet ?w2" "w_jobs ?w2 = update_where (id_where (job_id j)) (state_set st ?n) (w_jobs w)"
      using w1 by simp_all
    ultimately show ?thesis using final_state_then_emit by metis
  qed
  consider (expired) "expired_at ?now j"
    | (dead) "\<not> expired_at ?now j" "job_max_retries j \<le> job_attempt_count j"
    | (retry) "\<not> expired_at ?now j" "\<not> job_max_retries j \<le> job_attempt_count j"
    by blast
  then show ?thesis
  proof cases
    case expired
    then show ?thesis
      using final [of Expired "\<lambda>ms. ms\<lparr>m_expired := Suc (m_expired ms)\<rparr>"] run_eq
      by (simp add: handle_expired_def record_job_expired_def failure_row_def)
  next
    case dead
    then show ?thesis
      using final [of DeadLetter "\<lambda>ms. ms\<lparr>m_failed := Suc (m_failed ms)\<rparr>"] run_eq
      by (simp add: handle_dead_letter_def record_job_failed_def failure_row_def)
  next
    case retry
    let ?add = "add_seconds ?now (compute_retry_delay (job_retry_delay_sec j) (job_attempt_count j + 1)
      (c_max_retry_backoff_secs cfg))"
    show ?thesis
    proof (cases ?add)
      case (Inl e)
      then show ?thesis using retry run_eq w1
        by (intro exI [of _ "\<lambda>r. r"]) (simp add: handle_retry_def lift_result_def failure_row_def bind_io_def)
    next
      case (Inr at)
      then show ?thesis using retry run_eq w1
        by (intro exI [of _ "retry_set at (job_attempt_count j + 1) (ev_now (current_event w1))"])
          (simp add: handle_retry_def lift_result_def failure_row_def run retry_set_def row_identity_def)
    qed
  qed
qed

text \<open>C13: A failed execution has exactly one of three results for the job's row, decided in this order:
  it expires when its TTL has passed, it is dead-lettered when its attempts have reached
  \<open>max_retries\<close>, and otherwise it is scheduled again with one more attempt, unleased, at the instant
  the backoff gives (or left as it is when that instant does not exist, which is a panic). No other
  row changes, and no row is added: a failed instance does not spawn the next one.\<close>

theorem handle_failure_outcome:
  assumes "quiet w" "\<not> res_success result" "is_i32 (job_attempt_count j)" "job_attempt_count j < i32_max"
  shows "\<exists>g. w_jobs (snd (handle x cfg j result w)) = update_where (id_where (job_id j)) g (w_jobs w) \<and>
    (\<forall>r. failure_row cfg (ev_now (current_event w)) j r (g r))"
  using assms by (rule handle_failure_rows)

definition sample_job :: job where
  "sample_job = (case from_row payload_from_value (sample_row 5 ''RUNNING'' None) of
     Inr j \<Rightarrow> j | Inl _ \<Rightarrow> undefined)"

lemma sample_job_simps:
  "job_id sample_job = 5" "job_attempt_count sample_job = 0" "job_max_retries sample_job = 3"
  "job_retry_delay_sec sample_job = 60" "job_expires_at sample_job = None"
  "job_parent_job_id sample_job = None" "job_state_of sample_job = Running"
proof -
  obtain j where "from_row payload_from_value (sample_row 5 ''RUNNING'' None) = Inr j"
    using decode_sample_row [of 5 Running None] by (auto simp: sample_externals_def)
  from from_row_InrD [OF this] this
  show "job_id sample_job = 5" "job_attempt_count sample_job = 0" "job_max_retries sample_job = 3"
    "job_retry_delay_sec sample_job = 60" "job_expires_at sample_job = None"
    "job_parent_job_id sample_job = None" "job_state_of sample_job = Running"
    by (simp_all add: sample_job_def sample_row_def new_row_def)
      (metis job_state_as_str.simps(3) job_state_as_str_inj)
qed

theorem handle_failure_outcome_witness:
  "\<exists>r. w_jobs (snd (handle sample_externals sample_config sample_job (failure ''no'')
        (idle_world [sample_row 5 ''RUNNING'' None]))) = [r] \<and>
     row_state r = ''SCHEDULED'' \<and> row_attempt_count r = 1 \<and> row_scheduled_at r = seconds 60"
proof -
  let ?w = "idle_world [sample_row 5 ''RUNNING'' None]"
  obtain g where g: "w_jobs (snd (handle sample_externals sample_config sample_job (failure ''no'') ?w)) =
      update_where (id_where 5) g [sample_row 5 ''RUNNING'' None]"
    "failure_row sample_config 0 sample_job r (g r)" for r
  proof -
    have "\<not> res_success (failure ''no'')" "is_i32 (job_attempt_count sample_job)"
      "job_attempt_count sample_job < i32_max" "ev_now (current_event ?w) = 0"
      by (simp_all add: failure_def sample_job_simps is_i32_def int_limits current_event_def
          idle_world_def idle_event_def)
    from that handle_failure_outcome [OF quiet_idle_world this(1-3), of sample_externals sample_config] this(4)
    show ?thesis by (metis idle_world_simps(1) sample_job_simps(1))
  qed
  have d: "add_seconds 0 (compute_retry_delay 60 1 3600) = Inr (seconds 60)"
    by code_simp
  have "row_state (g r) = ''SCHEDULED'' \<and> row_attempt_count (g r) = 1 \<and> row_scheduled_at (g r) = seconds 60" for r
    using g(2) [of r] d by (simp add: failure_row_def expired_at_def sample_job_simps sample_config_def)
  then show ?thesis using g(1)
    by (simp add: update_where_def id_where_def sample_row_def new_row_def)
qed

section \<open>The instant of a retry\<close>

lemma retry_delay_in_range:
  assumes "is_i32 r" "0 \<le> r" "0 \<le> a" "a \<le> 32" "0 \<le> m"
  shows "compute_retry_delay r (a + 1) m = min (r * 2 ^ nat a) m" "0 \<le> compute_retry_delay r (a + 1) m"
proof -
  have "is_i32 (a + 1)" using assms by (simp add: is_i32_def int_limits)
  then show "compute_retry_delay r (a + 1) m = min (r * 2 ^ nat a) m"
    using retry_delay_exact_lemma [of r "a + 1" m] assms by simp
  then show "0 \<le> compute_retry_delay r (a + 1) m" using assms by simp
qed

lemma retry_instant:
  assumes "is_i32 (job_retry_delay_sec j)" "0 \<le> job_retry_delay_sec j"
    and "0 \<le> job_attempt_count j" "job_attempt_count j \<le> 32"
    and "0 \<le> c_max_retry_backoff_secs cfg" "min_instant \<le> now"
    and "now + seconds (c_max_retry_backoff_secs cfg) \<le> max_instant"
  shows "\<exists>at. add_seconds now (compute_retry_delay (job_retry_delay_sec j) (job_attempt_count j + 1)
      (c_max_retry_backoff_secs cfg)) = Inr at \<and>
    at = now + seconds (min (job_retry_delay_sec j * 2 ^ nat (job_attempt_count j)) (c_max_retry_backoff_secs cfg)) \<and>
    now \<le> at \<and> at \<le> now + seconds (c_max_retry_backoff_secs cfg)"
proof -
  note d = retry_delay_in_range [OF assms(1-5)]
  let ?d = "compute_retry_delay (job_retry_delay_sec j) (job_attempt_count j + 1) (c_max_retry_backoff_secs cfg)"
  have cap: "?d \<le> c_max_retry_backoff_secs cfg" by (rule retry_delay_cap)
  then have le: "now + seconds ?d \<le> now + seconds (c_max_retry_backoff_secs cfg)" by simp
  have "seconds ?d \<le> max_instant - min_instant" using le assms(6,7) by linarith
  then have "?d \<le> max_duration_secs"
    by (simp add: seconds_def max_instant_def min_instant_def max_duration_secs_def)
  then have "add_seconds now ?d = Inr (now + seconds ?d)"
    using d(2) le assms(6,7) by (auto simp: add_seconds_def Let_def max_duration_secs_def seconds_def)
  then show ?thesis using d le by simp
qed



text \<open>A job with the default delay of 60 seconds and at least 60 retries panics its worker at the
  60th failure, whatever the environment does: the wrapped delay is -2^61 seconds, which
  \<open>Duration::seconds\<close> rejects. The row is left as it is.\<close>

theorem retry_60_panics:
  assumes "\<not> res_success result" "job_expires_at j = None" "job_attempt_count j = 59"
    and "60 \<le> job_max_retries j" "job_retry_delay_sec j = 60" "c_max_retry_backoff_secs cfg = 3600"
  shows "fst (handle x cfg j result w) = Inl (Panicked ''TimeDelta::seconds out of bounds'') \<and>
    w_jobs (snd (handle x cfg j result w)) = w_jobs w"
proof -
  have d: "add_seconds now (compute_retry_delay 60 60 3600) = Inl (Panicked ''TimeDelta::seconds out of bounds'')" for now
  proof -
    have "compute_retry_delay 60 60 3600 = - 2305843009213693952" by code_simp
    then show ?thesis by (simp add: add_seconds_def max_duration_secs_def)
  qed
  have "is_i32 (job_attempt_count j)" "job_attempt_count j < i32_max"
    using assms(3) by (simp_all add: is_i32_def int_limits)
  from handle_failure_run [OF assms(1) this, of x cfg w] show ?thesis
    using assms d by (simp add: expired_at_def handle_retry_def lift_result_def bind_io_def)
qed

theorem retry_60_panics_witness:
  "fst (handle sample_externals sample_config
      (sample_job\<lparr>job_attempt_count := 59, job_max_retries := 100\<rparr>) (failure ''no'') (idle_world [])) =
     Inl (Panicked ''TimeDelta::seconds out of bounds'')"
  using retry_60_panics [of "failure ''no''" "sample_job\<lparr>job_attempt_count := 59, job_max_retries := 100\<rparr>"
      sample_config sample_externals "idle_world []"]
  by (simp add: failure_def sample_job_simps sample_config_def)

section \<open>Errors of the handler\<close>

text \<open>The errors a computation may return.\<close>

definition errors_in :: "error set \<Rightarrow> 'a io \<Rightarrow> bool" where
  "errors_in E m \<longleftrightarrow> (\<forall>w e w'. m w = (Inl e, w') \<longrightarrow> e \<in> E)"

lemma errors_in_basic:
  "errors_in E (return_io a)" "e \<in> E \<Longrightarrow> errors_in E (throw_io e)"
  by (simp_all add: errors_in_def)

lemma errors_in_bind: "errors_in E m \<Longrightarrow> (\<And>a. errors_in E (k a)) \<Longrightarrow> errors_in E (bind_io m k)"
  unfolding errors_in_def bind_io_def by (fastforce split: prod.splits sum.splits)

lemma errors_in_then: "errors_in E m \<Longrightarrow> errors_in E k \<Longrightarrow> errors_in E (then_io m k)"
  by (simp add: then_io_def errors_in_bind)

lemma errors_in_cases:
  "errors_in E m \<Longrightarrow> errors_in E k \<Longrightarrow> errors_in E (if b then m else k)"
  "errors_in E m \<Longrightarrow> (\<And>a. errors_in E (f a)) \<Longrightarrow> errors_in E (case v of None \<Rightarrow> m | Some a \<Rightarrow> f a)"
  "(\<And>e. errors_in E (g e)) \<Longrightarrow> (\<And>a. errors_in E (h a)) \<Longrightarrow> errors_in E (case r of Inl e \<Rightarrow> g e | Inr a \<Rightarrow> h a)"
  "(\<And>a b. errors_in E (l a b)) \<Longrightarrow> errors_in E (case pr of (a, b) \<Rightarrow> l a b)"
  by (simp_all split: option.split sum.split prod.split)

lemma errors_in_statement: "errors_in (range Sqlx) (statement q)"
  by (auto simp: errors_in_def statement_def split: delivery.splits sum.splits)

text \<open>A database error is caught.\<close>

lemma errors_in_attempt: "errors_in (range Sqlx) m \<Longrightarrow> errors_in E (attempt m)"
  unfolding errors_in_def attempt_def
  by (fastforce split: prod.splits sum.splits error.splits)

lemmas errors_in_intro = errors_in_basic errors_in_bind errors_in_then errors_in_cases
  errors_in_statement errors_in_attempt

lemma errors_in_methods:
  "errors_in (range Sqlx) (get_job_by_id_internal x i)" "errors_in (range Sqlx) (update_webhook_result i ok n)"
  unfolding get_job_by_id_internal_def update_webhook_result_def select_def update_def
    decode_optional_def decode_row_def
  by (intro errors_in_intro; simp)+

lemma errors_in_deliver: "errors_in {Diverged} (deliver fuel u b e m a)"
proof (induction fuel arbitrary: a)
  case 0
  show ?case by (subst deliver.simps) (intro errors_in_intro; simp add: errors_in_basic)
next
  case (Suc fuel)
  have "errors_in {Diverged} (post_hook u b e)" "errors_in {Diverged} (sleep_secs n)"
    "errors_in {Diverged} record_webhook_failure" for n
    by (simp_all add: errors_in_def post_hook_def sleep_secs_def record_webhook_failure_def
        modify_io_def count_metric_def)
  with Suc.IH show ?case
    by (subst deliver.simps) (auto simp: Let_def intro!: errors_in_intro)
qed

lemma errors_in_emit: "errors_in {Diverged} (emit x cfg i)"
  unfolding emit_def by (intro errors_in_intro errors_in_methods errors_in_deliver)

text \<open>An error, but for a loop without end, comes before any webhook is sent.\<close>

definition silent_error :: "'a io \<Rightarrow> bool" where
  "silent_error m \<longleftrightarrow> (\<forall>w e w'. m w = (Inl e, w') \<longrightarrow> e = Diverged \<or> w_posts w' = w_posts w)"

lemma silent_error_no_posts: "no_posts m \<Longrightarrow> silent_error m"
  by (auto simp: silent_error_def dest: no_postsD)

lemma silent_error_bind:
  assumes "no_posts m" "\<And>a. silent_error (k a)" shows "silent_error (bind_io m k)"
  unfolding silent_error_def
proof (intro allI impI)
  fix w e w'
  assume b: "bind_io m k w = (Inl e, w')"
  obtain r w1 where m: "m w = (r, w1)" by fastforce
  show "e = Diverged \<or> w_posts w' = w_posts w"
    using no_postsD [OF assms(1) m] assms(2) b m
    by (cases r) (fastforce simp: bind_io_def silent_error_def)+
qed

lemma silent_error_then: "no_posts m \<Longrightarrow> silent_error k \<Longrightarrow> silent_error (then_io m k)"
  by (simp add: then_io_def silent_error_bind)

lemma silent_error_last: "errors_in {Diverged} m \<Longrightarrow> silent_error (then_io m (return_io ()))"
  by (auto simp: silent_error_def errors_in_def then_io_def bind_io_def split: prod.splits sum.splits)

lemma silent_error_if: "silent_error m \<Longrightarrow> silent_error k \<Longrightarrow> silent_error (if b then m else k)"
  by simp

lemma no_posts_handler_parts:
  "no_posts record_execution_duration" "no_posts record_job_completed"
  "no_posts record_job_failed" "no_posts record_job_expired" "no_posts (handle_retry cfg j now n)"
  unfolding record_execution_duration_def record_job_completed_def record_job_failed_def
    record_job_expired_def handle_retry_def
  by (intro effect_intro)+

lemma silent_error_handle: "silent_error (handle x cfg j res)"
  unfolding handle_def handle_success_def handle_expired_def handle_dead_letter_def Let_def
  by (intro silent_error_then silent_error_bind silent_error_if silent_error_last errors_in_emit
      silent_error_no_posts [OF no_posts_handler_parts(5)] no_posts_handler_parts effect_intro)

text \<open>When the handler returns an error or panics, no webhook has been sent. In particular a job
  that succeeded is completed without its callback when the next instance of its template cannot be
  spawned, in any environment.\<close>

theorem handler_error_sends_no_webhook:
  assumes "handle x cfg j result w = (Inl e, w')" "e \<noteq> Diverged"
  shows "w_posts w' = w_posts w"
  using assms silent_error_handle [of x cfg j result] by (auto simp: silent_error_def)

text \<open>A template whose cron expression was replaced by one that does not parse.\<close>

definition broken_template :: job_row where
  "broken_template = sample_template\<lparr>row_cron_expr := Some []\<rparr>"

definition hooked_instance :: job_row where
  "hooked_instance = sample_first_instance\<lparr>row_state := ''RUNNING'', row_webhook_url := Some ''h''\<rparr>"

definition hooked_job :: job where
  "hooked_job = sample_job\<lparr>job_id := 8, job_parent_job_id := Some 7, job_webhook_url := Some ''h''\<rparr>"

definition success_result :: execution_result where
  "success_result = \<lparr>res_success = True, res_output = [], res_status_code = Some 200\<rparr>"

theorem handler_error_sends_no_webhook_witness:
  "fst (handle sample_externals sample_config hooked_job success_result
      (idle_world [broken_template, hooked_instance])) = Inl CronSyntax \<and>
   w_posts (snd (handle sample_externals sample_config hooked_job success_result
      (idle_world [broken_template, hooked_instance]))) = [] \<and>
   map row_state (w_jobs (snd (handle sample_externals sample_config hooked_job success_result
      (idle_world [broken_template, hooked_instance])))) = [''SCHEDULED'', ''COMPLETED'']"
proof -
  let ?h = "handle sample_externals sample_config hooked_job success_result
      (idle_world [broken_template, hooked_instance])"
  have e: "fst ?h = Inl CronSyntax" by code_simp
  have "w_posts (snd ?h) = w_posts (idle_world [broken_template, hooked_instance])"
    by (rule handler_error_sends_no_webhook [of sample_externals sample_config hooked_job success_result _ CronSyntax])
      (simp_all add: prod_eq_iff e)
  moreover have "map row_state (w_jobs (snd ?h)) = [''SCHEDULED'', ''COMPLETED'']" by code_simp
  ultimately show ?thesis using e by (simp add: idle_world_def)
qed

section \<open>Success\<close>

lemma spawn_effect_other_state:
  assumes "spawn_effect x p prev cl t t'" "row_with_id i t = Some r" "row_state r = ''COMPLETED''"
  shows "\<exists>r'. row_with_id i t' = Some r' \<and> row_state r' = ''COMPLETED'' \<and> row_identity r' = row_identity r"
  using assms
proof cases
  case (spawned r0 f j ev v t1 n)
  have "row_with_id i t1 = Some r" using row_with_id_insert [OF spawned(9) assms(2)] .
  then show ?thesis using spawned(1) assms(3)
    by (simp add: row_with_id_update increment_set_def row_identity_def)
qed (auto simp: row_with_id_update increment_set_def completed_set_def row_identity_def)

lemma emit_keeps_row:
  assumes "quiet w" "row_with_id i (w_jobs w) = Some r"
  shows "\<exists>r'. row_with_id i (w_jobs (snd (emit x cfg k w))) = Some r' \<and> row_state r' = row_state r \<and>
    row_identity r' = row_identity r"
proof -
  obtain g where g: "webhook_columns g" "w_jobs (snd (emit x cfg k w)) = update_where (id_where k) g (w_jobs w)"
    using emit_writes [OF assms(1)] by blast
  then show ?thesis
    using assms(2) webhook_columns_keep [OF g(1)] by (simp add: row_with_id_update)
qed

lemma counts_below_completed: "counts_below p (update_where q (completed_set n) t) = counts_below p t"
  by (induction t) (auto simp: counts_below_def update_where_def id_where_def completed_set_def)

text \<open>C34: After a successful execution the job's row is COMPLETED and stays so through the spawning of
  the next instance and the webhook, also when the spawning fails.\<close>

theorem handle_success_completes:
  assumes "quiet w" "codec_ok x" "res_success result"
    and "row_with_id (job_id j) (w_jobs w) = Some r"
    and "\<And>p. job_parent_job_id j = Some p \<Longrightarrow> counts_below p (w_jobs w)"
  shows "\<exists>r'. row_with_id (job_id j) (w_jobs (snd (handle x cfg j result w))) = Some r' \<and>
    row_state r' = ''COMPLETED'' \<and> row_identity r' = row_identity r"
proof -
  let ?i = "job_id j"
  define w1 where "w1 = tick (w\<lparr>w_metrics := (w_metrics w)\<lparr>m_executions := Suc (m_executions (w_metrics w))\<rparr>\<rparr>)"
  define w2 where "w2 = (tick w1)\<lparr>w_jobs := update_where (id_where ?i)
    (completed_set (ev_now (current_event w1))) (w_jobs w1), w_metrics :=
      (w_metrics w1)\<lparr>m_completed := Suc (m_completed (w_metrics w1))\<rparr>\<rparr>"
  have w2: "quiet w2" using assms(1) by (simp add: w2_def w1_def)
  have r2: "\<exists>r2. row_with_id ?i (w_jobs w2) = Some r2 \<and> row_state r2 = ''COMPLETED'' \<and> row_identity r2 = row_identity r"
    using assms(4) row_with_id_SomeD [OF assms(4)]
    by (simp add: w2_def w1_def row_with_id_update completed_set_def id_where_def row_identity_def)
  let ?spawn = "case job_parent_job_id j of None \<Rightarrow> return_io ()
    | Some parent_id \<Rightarrow> spawn_next_instance x parent_id (job_scheduled_at j)"
  have run_eq: "handle x cfg j result w = then_io ?spawn (then_io (emit x cfg ?i) (return_io ())) w2"
    using assms(1,3) by (simp add: handle_def handle_success_def run record_execution_duration_def
        record_job_completed_def w1_def w2_def)
  obtain res w3 where sp: "?spawn w2 = (res, w3)" by fastforce
  have w3: "quiet w3 \<and> (\<exists>r3. row_with_id ?i (w_jobs w3) = Some r3 \<and> row_state r3 = ''COMPLETED'' \<and>
      row_identity r3 = row_identity r)"
  proof (cases "job_parent_job_id j")
    case None
    then show ?thesis using sp w2 r2 by simp
  next
    case (Some p)
    have "counts_below p (w_jobs w2)"
      using assms(5) [OF Some] by (simp add: w2_def w1_def counts_below_completed)
    from spawn_implements_effect [OF w2 assms(2) this, of "job_scheduled_at j"]
    have "spawn_effect x p (job_scheduled_at j) (client_ids w2) (w_jobs w2) (w_jobs w3)"
      using sp Some by simp
    moreover have "quiet w3"
      using sql_onlyD(5) [OF sql_only_spawn_next_instance, of x p "job_scheduled_at j" w2] sp Some w2 by simp
    ultimately show ?thesis using spawn_effect_other_state r2 by metis
  qed
  show ?thesis
  proof (cases res)
    case (Inl e)
    then show ?thesis using run_eq sp w3 by (simp add: run)
  next
    case (Inr u)
    then have "snd (handle x cfg j result w) = snd (emit x cfg ?i w3)"
      using run_eq sp by (simp add: run split: prod.split sum.split)
    then show ?thesis using emit_keeps_row [of w3 ?i _ x cfg ?i] w3 by metis
  qed
qed

theorem handle_success_completes_witness:
  "\<exists>r'. row_with_id 8 (w_jobs (snd (handle sample_externals sample_config hooked_job success_result
      (idle_world [sample_template, hooked_instance])))) = Some r' \<and>
    row_state r' = ''COMPLETED'' \<and> row_identity r' = row_identity hooked_instance"
  using handle_success_completes [of "idle_world [sample_template, hooked_instance]" sample_externals
      success_result hooked_job hooked_instance sample_config]
  by (simp add: sample_codec_ok success_result_def hooked_job_def hooked_instance_def row_with_id_def
      sample_template_def sample_first_instance_def new_row_def counts_below_def id_where_def int_limits)

end
