(* ===== verification/Scheduler.thy ===== *)
theory Scheduler
  imports Repository Binary_Heap Config Recurring
begin

text \<open>
  \<open>src/scheduler.rs\<close>: the heap of upcoming jobs, the dispatch of due jobs to the workers, and the two
  things an iteration of the loop may do.
\<close>

section \<open>The channel to the workers\<close>

datatype send_result = Sent | Full | Closed

text \<open>\<open>try_send\<close> on a channel of \<open>worker_queue_size\<close> places.\<close>

definition try_send :: "config \<Rightarrow> job \<Rightarrow> send_result io" where
  "try_send cfg j w =
     (if w_closed w then (Inr Closed, w)
      else if c_worker_queue_size cfg \<le> length (w_queue w) then (Inr Full, w)
      else (Inr Sent, w\<lparr>w_queue := w_queue w @ [j]\<rparr>))"

definition set_heap :: "scheduled_job list \<Rightarrow> unit io" where
  "set_heap h = modify_io (\<lambda>w. w\<lparr>w_heap := h\<rparr>)"

text \<open>A new scheduler has an empty heap; the notification, the channel and the flag are handed to it.\<close>

definition scheduler_new :: "unit io" where
  "scheduler_new = set_heap []"

section \<open>Refreshing and dispatching\<close>

definition refresh_heap :: "config \<Rightarrow> unit io" where
  "refresh_heap cfg =
     bind_io (fetch_scheduled_jobs (c_heap_lookahead_limit cfg)) (\<lambda>jobs.
     then_io (set_heap (build_heap jobs))
       (then_io (set_scheduler_heap_size (length (build_heap jobs))) (return_io ())))"

text \<open>The loop of \<open>dispatch_due_jobs\<close> on the heap; every pop is visible in the state.\<close>

function dispatch_from :: "externals \<Rightarrow> config \<Rightarrow> time \<Rightarrow> scheduled_job list \<Rightarrow> unit io" where
  "dispatch_from x cfg now heap =
     (case heap_peek heap of
        None \<Rightarrow> return_io ()
      | Some soonest \<Rightarrow>
          if now < sj_scheduled_at soonest then return_io ()
          else
            (case heap_pop heap of
               None \<Rightarrow> throw_io (Panicked ''unwrap on a None value'')
             | Some (scheduled, heap') \<Rightarrow>
                 then_io (set_heap heap')
                   (bind_io (lease_job x (sj_id scheduled) (c_lease_duration cfg)) (\<lambda>leased.
                    case leased of
                      None \<Rightarrow> dispatch_from x cfg now heap'
                    | Some j \<Rightarrow>
                        bind_io (try_send cfg j) (\<lambda>sent.
                        case sent of
                          Sent \<Rightarrow> then_io record_job_dispatched (dispatch_from x cfg now heap')
                        | Full \<Rightarrow>
                            then_io (schedule_retry (job_id j) (job_scheduled_at j) (job_attempt_count j))
                              (then_io notify_one (return_io ()))
                        | Closed \<Rightarrow> return_io ())))))"
  by pat_completeness auto
termination
  by (relation "measure (\<lambda>(x, cfg, now, heap). length heap)") (auto dest: heap_pop_length)

declare dispatch_from.simps [simp del]

definition dispatch_due_jobs :: "externals \<Rightarrow> config \<Rightarrow> unit io" where
  "dispatch_due_jobs x cfg = bind_io utc_now (\<lambda>now. (\<lambda>w. dispatch_from x cfg now (w_heap w) w))"

section \<open>The loop\<close>

text \<open>The sleep before the next dispatch, in microseconds.\<close>

definition sleep_delay :: "scheduled_job list \<Rightarrow> time \<Rightarrow> time" where
  "sleep_delay heap now =
     (case heap_peek heap of
        None \<Rightarrow> seconds 3600
      | Some j \<Rightarrow> max 0 (sj_scheduled_at j - now))"

definition store_alive :: "unit io" where
  "store_alive = modify_io (\<lambda>w. w\<lparr>w_alive := True\<rparr>)"

text \<open>The head of the loop: the liveness flag is set and the sleep is computed. \<open>Utc::now\<close> is read
  only when there is a job.\<close>

definition loop_head :: "time io" where
  "loop_head =
     then_io store_alive (\<lambda>w.
       (case heap_peek (w_heap w) of
          None \<Rightarrow> return_io (sleep_delay (w_heap w) 0) w
        | Some j \<Rightarrow> bind_io utc_now (\<lambda>now. return_io (sleep_delay (w_heap w) now)) w))"

text \<open>The two branches of the \<open>select!\<close>; an error is logged and the loop goes on. \<open>notified\<close> takes the
  permit.\<close>

definition on_timer :: "externals \<Rightarrow> config \<Rightarrow> unit io" where
  "on_timer x cfg = bind_io (attempt (dispatch_due_jobs x cfg)) (\<lambda>_. return_io ())"

definition on_notified :: "config \<Rightarrow> unit io" where
  "on_notified cfg =
     then_io (modify_io (\<lambda>w. w\<lparr>w_permit := False\<rparr>))
       (bind_io (attempt (refresh_heap cfg)) (\<lambda>_. return_io ()))"

definition scheduler_start :: "config \<Rightarrow> unit io" where
  "scheduler_start cfg = bind_io (attempt (refresh_heap cfg)) (\<lambda>_. return_io ())"

section \<open>What the scheduler may change\<close>

text \<open>
  An effect of the three statements of the scheduler that says nothing of its heap, its flag and the
  channel is an effect of everything the scheduler does.
\<close>

locale scheduler_effect = effect_order +
  assumes lease: "keeps R (lease_job x i d)"
    and give_back: "keeps R (schedule_retry i at n)"
    and fetch: "keeps R (fetch_scheduled_jobs limit)"
    and own: "R w (w\<lparr>w_heap := h\<rparr>)" "R w (w\<lparr>w_alive := b\<rparr>)" "R w (w\<lparr>w_queue := q\<rparr>)"
begin

lemma parts:
  "keeps R (try_send cfg j)" "keeps R (set_heap h)" "keeps R store_alive" "keeps R record_job_dispatched"
  "keeps R (set_scheduler_heap_size n)"
  unfolding set_heap_def store_alive_def record_job_dispatched_def set_scheduler_heap_size_def
  by (simp_all add: keeps_def try_send_def own refl modify_io_def count_metric_def metrics)

lemmas intros = composition lease give_back fetch parts keeps_cases keeps_if

lemma dispatch_from: "keeps R (dispatch_from x cfg now heap)"
proof (induction x cfg now heap rule: dispatch_from.induct)
  case (1 x cfg now heap)
  show ?case
    by (subst dispatch_from.simps) (auto intro!: intros 1 split: option.split send_result.split)
qed

lemma iterations:
  "keeps R (refresh_heap cfg)" "keeps R (dispatch_due_jobs x cfg)" "keeps R (on_timer x cfg)"
  "keeps R (on_notified cfg)" "keeps R (scheduler_start cfg)" "keeps R loop_head"
proof -
  have permit: "keeps R (modify_io (\<lambda>w. w\<lparr>w_permit := b\<rparr>))" for b by (rule keeps_modify) (rule permit)
  have "keeps R (\<lambda>w. dispatch_from x cfg now (w_heap w) w)" for now
    using dispatch_from by (simp add: keeps_def)
  then show d: "keeps R (dispatch_due_jobs x cfg)" unfolding dispatch_due_jobs_def by (intro composition)
  show r: "keeps R (refresh_heap cfg)" unfolding refresh_heap_def by (intro intros)
  show "keeps R (on_timer x cfg)" "keeps R (on_notified cfg)" "keeps R (scheduler_start cfg)"
    unfolding on_timer_def on_notified_def scheduler_start_def by (intro composition d r permit)+
  have "keeps R (\<lambda>w. (case heap_peek (w_heap w) of
      None \<Rightarrow> return_io (sleep_delay (w_heap w) 0) w
    | Some j \<Rightarrow> bind_io utc_now (\<lambda>now. return_io (sleep_delay (w_heap w) now)) w))"
    by (simp add: keeps_def refl bind_io_def utc_now_def tick split: option.split)
  then show "keeps R loop_head" unfolding loop_head_def by (intro composition parts)
qed

end

interpretation sql_scheduler: scheduler_effect sql_effect
  by unfold_locales ((intro effect_intro; fail) | simp add: sql_effect_def client_ids_def)+

lemmas [effect_intro] = sql_scheduler.parts sql_scheduler.dispatch_from sql_scheduler.iterations

section \<open>The channel is never overfull\<close>

lemma lease_job_frame [simp]:
  "w_queue (snd (lease_job x i d w)) = w_queue w" "w_closed (snd (lease_job x i d w)) = w_closed w"
  "w_heap (snd (lease_job x i d w)) = w_heap w" "w_permit (snd (lease_job x i d w)) = w_permit w"
  by (auto simp: lease_job_def statement_def Let_def run split: delivery.split sum.split prod.split)

lemma schedule_retry_frame [simp]:
  "w_queue (snd (schedule_retry i at n w)) = w_queue w" "w_heap (snd (schedule_retry i at n w)) = w_heap w"
  by (auto simp: schedule_retry_def update_def statement_def run split: delivery.split sum.split prod.split)

lemma set_heap_run [run]: "set_heap h w = (Inr (), w\<lparr>w_heap := h\<rparr>)"
  by (simp add: set_heap_def modify_io_def)

lemma record_job_dispatched_run [run]:
  "record_job_dispatched w = (Inr (), w\<lparr>w_metrics := (w_metrics w)\<lparr>m_dispatched := Suc (m_dispatched (w_metrics w))\<rparr>\<rparr>)"
  by (simp add: record_job_dispatched_def count_metric_def modify_io_def)

text \<open>One round of the loop, whatever the environment does.\<close>

definition after_lease :: "externals \<Rightarrow> config \<Rightarrow> time \<Rightarrow> scheduled_job list \<Rightarrow> job option \<Rightarrow> unit io" where
  "after_lease x cfg now heap leased =
     (case leased of
        None \<Rightarrow> dispatch_from x cfg now heap
      | Some j \<Rightarrow>
          bind_io (try_send cfg j) (\<lambda>sent.
          case sent of
            Sent \<Rightarrow> then_io record_job_dispatched (dispatch_from x cfg now heap)
          | Full \<Rightarrow>
              then_io (schedule_retry (job_id j) (job_scheduled_at j) (job_attempt_count j))
                (then_io notify_one (return_io ()))
          | Closed \<Rightarrow> return_io ()))"

lemma dispatch_none_due:
  "heap_peek h = None \<or> (\<exists>s. heap_peek h = Some s \<and> now < sj_scheduled_at s) \<Longrightarrow>
   dispatch_from x cfg now h w = (Inr (), w)"
  by (subst dispatch_from.simps) auto

lemma dispatch_round:
  assumes "heap_peek h = Some s" "\<not> now < sj_scheduled_at s" "heap_pop h = Some (s', h')"
  shows "dispatch_from x cfg now h w =
    bind_io (lease_job x (sj_id s') (c_lease_duration cfg)) (after_lease x cfg now h') (w\<lparr>w_heap := h'\<rparr>)"
proof -
  have "(\<lambda>leased. case leased of
                      None \<Rightarrow> dispatch_from x cfg now h'
                    | Some j \<Rightarrow>
                        bind_io (try_send cfg j) (\<lambda>sent.
                        case sent of
                          Sent \<Rightarrow> then_io record_job_dispatched (dispatch_from x cfg now h')
                        | Full \<Rightarrow>
                            then_io (schedule_retry (job_id j) (job_scheduled_at j) (job_attempt_count j))
                              (then_io notify_one (return_io ()))
                        | Closed \<Rightarrow> return_io ())) = after_lease x cfg now h'"
    by (rule ext) (simp add: after_lease_def)
  with assms show ?thesis
    by (subst dispatch_from.simps) (simp add: then_io_run set_heap_run)
qed

lemma dispatch_cases [consumes 0, case_names idle due]:
  obtains "heap_peek h = None \<or> (\<exists>s. heap_peek h = Some s \<and> now < sj_scheduled_at s)"
  | s h' where "heap_peek h = Some s" "\<not> now < sj_scheduled_at s" "heap_pop h = Some (s, h')" "length h' < length h"
proof (cases h)
  case (Cons a l)
  then obtain s' h' where pop: "heap_pop h = Some (s', h')"
    using heap_pop_None [of h] by (cases "heap_pop h") auto
  moreover have "s' = a" using pop Cons by (auto simp: Let_def split: if_splits simp: butlast_conv_take)
  ultimately show ?thesis using that Cons heap_pop_length [OF pop] by (cases "now < sj_scheduled_at a") auto
qed (use that in simp)

lemma dispatch_queue:
  "\<exists>js. w_queue (snd (dispatch_from x cfg now h w)) = w_queue w @ js \<and>
    (length (w_queue w) \<le> c_worker_queue_size cfg \<longrightarrow>
       length (w_queue w @ js) \<le> c_worker_queue_size cfg)"
proof (induction h arbitrary: w rule: length_induct)
  case (1 h)
  show ?case
  proof (cases rule: dispatch_cases [of h now])
    case idle
    then show ?thesis by (simp add: dispatch_none_due)
  next
    case (due s h')
    note IH = "1" [rule_format, OF due(4)]
    obtain r w1 where l: "lease_job x (sj_id s) (c_lease_duration cfg) (w\<lparr>w_heap := h'\<rparr>) = (r, w1)"
      by fastforce
    have q: "w_queue w1 = w_queue w" using lease_job_frame(1) [of x "sj_id s" "c_lease_duration cfg" "w\<lparr>w_heap := h'\<rparr>"] l
      by simp
    have sp: "dispatch_from x cfg now h w = (case r of Inl e \<Rightarrow> (Inl e, w1) | Inr a \<Rightarrow> after_lease x cfg now h' a w1)"
      using dispatch_round [OF due(1-3)] l by (simp add: bind_io_def)
    show ?thesis
    proof (cases r)
      case (Inl e)
      then show ?thesis using sp q by simp
    next
      case (Inr leased)
      show ?thesis
      proof (cases leased)
        case None
        then show ?thesis using sp Inr IH [of w1] q by (simp add: after_lease_def)
      next
        case (Some j)
        consider "w_closed w1" | "\<not> w_closed w1" "c_worker_queue_size cfg \<le> length (w_queue w1)"
          | (sent) "\<not> w_closed w1" "length (w_queue w1) < c_worker_queue_size cfg" by linarith
        then show ?thesis
        proof cases
          case sent
          let ?w2 = "w1\<lparr>w_queue := w_queue w1 @ [j], w_metrics := (w_metrics w1)\<lparr>m_dispatched := Suc (m_dispatched (w_metrics w1))\<rparr>\<rparr>"
          have "snd (dispatch_from x cfg now h w) = snd (dispatch_from x cfg now h' ?w2)"
            using sp Inr Some sent by (simp add: after_lease_def run try_send_def)
          then show ?thesis using IH [of ?w2] q sent by auto
        next
          case 2
          have "snd (dispatch_from x cfg now h w) =
              snd (then_io (schedule_retry (job_id j) (job_scheduled_at j) (job_attempt_count j))
                (then_io notify_one (return_io ())) w1)"
            using sp Inr Some 2 by (simp add: after_lease_def try_send_def bind_io_def)
          then show ?thesis
            using q schedule_retry_frame(1) [of "job_id j" "job_scheduled_at j" "job_attempt_count j" w1]
            by (cases "schedule_retry (job_id j) (job_scheduled_at j) (job_attempt_count j) w1")
              (auto simp: run split: sum.split)
        qed (use sp Inr Some q in \<open>simp add: after_lease_def try_send_def bind_io_def\<close>)
      qed
    qed
  qed
qed

section \<open>A dispatch whose statements are delivered\<close>

text \<open>The row after it is leased, and the world after a lease.\<close>

definition leased_row :: "config \<Rightarrow> world \<Rightarrow> job_row \<Rightarrow> job_row" where
  "leased_row cfg w = lease_set (wrap_i64 (int (c_lease_duration cfg))) (ev_now (current_event w))"

definition leased_world :: "config \<Rightarrow> uuid \<Rightarrow> world \<Rightarrow> world" where
  "leased_world cfg i w = (tick w)\<lparr>w_jobs := update_where (lease_where i) (leased_row cfg w) (w_jobs w)\<rparr>"

lemma leased_row_simps [simp]:
  "row_id (leased_row cfg w r) = row_id r" "row_state (leased_row cfg w r) = ''LEASED''"
  "row_scheduled_at (leased_row cfg w r) = row_scheduled_at r"
  "row_attempt_count (leased_row cfg w r) = row_attempt_count r"
  by (simp_all add: leased_row_def lease_set_def)

lemma leased_world_simps [simp]:
  "quiet (leased_world cfg i w) = quiet w" "w_queue (leased_world cfg i w) = w_queue w"
  "w_closed (leased_world cfg i w) = w_closed w" "w_heap (leased_world cfg i w) = w_heap w"
  "w_jobs (leased_world cfg i w) = update_where (lease_where i) (leased_row cfg w) (w_jobs w)"
  by (simp_all add: leased_world_def)

lemma distinct_ids_lease [simp]:
  "distinct (map row_id (update_where (lease_where i) (leased_row cfg w) t)) = distinct (map row_id t)"
  by (simp add: map_update_where)

lemma lease_job_quiet:
  assumes "quiet w"
  shows "lease_job x i (c_lease_duration cfg) w =
    (decoded x (map_option (leased_row cfg w) (List.find (lease_where i) (w_jobs w))), leased_world cfg i w)"
  using assms by (simp add: run leased_row_def leased_world_def)

lemma row_with_id_lease:
  assumes "distinct (map row_id t)"
  shows "row_with_id k (update_where (lease_where i) (leased_row cfg w) t) =
    map_option (\<lambda>r. if lease_where i r then leased_row cfg w r else r) (row_with_id k t)"
  by (simp add: row_with_id_update)

definition sent_ok :: "externals \<Rightarrow> table \<Rightarrow> table \<Rightarrow> job list \<Rightarrow> bool" where
  "sent_ok x t t' js \<longleftrightarrow> distinct (map job_id js) \<and>
     (\<forall>j\<in>set js. (\<exists>r. row_with_id (job_id j) t = Some r \<and> row_state r = ''SCHEDULED'') \<and>
        (\<exists>r. row_with_id (job_id j) t' = Some r \<and> row_state r = ''LEASED'' \<and> from_row (x_from_value x) r = Inr j))"

text \<open>Rows that are not SCHEDULED are left alone.\<close>

definition spares :: "table \<Rightarrow> table \<Rightarrow> bool" where
  "spares t t' \<longleftrightarrow> (\<forall>i r. row_with_id i t = Some r \<and> row_state r \<noteq> ''SCHEDULED'' \<longrightarrow> row_with_id i t' = Some r)"

lemma sent_ok_lease:
  assumes "distinct (map row_id t)" "row_with_id i t = Some r" "row_state r = ''SCHEDULED''"
    and "from_row (x_from_value x) (leased_row cfg w r) = Inr j"
    and "sent_ok x (update_where (lease_where i) (leased_row cfg w) t) t' js"
    and "spares (update_where (lease_where i) (leased_row cfg w) t) t'"
  shows "sent_ok x t t' (j # js)"
proof -
  let ?t1 = "update_where (lease_where i) (leased_row cfg w) t"
  have id: "job_id j = i" using from_row_InrD(1) [OF assms(4)] row_with_id_SomeD [OF assms(2)] by simp
  have r1: "row_with_id i ?t1 = Some (leased_row cfg w r)"
    using assms(2,3) row_with_id_SomeD [OF assms(2)] by (simp add: row_with_id_update lease_where_def)
  then have i': "row_with_id i t' = Some (leased_row cfg w r)"
    using assms(6) by (simp add: spares_def)
  have was: "row_with_id k t = Some s \<and> k \<noteq> i" if "row_with_id k ?t1 = Some s" "row_state s = ''SCHEDULED''" for k s
    using that r1 by (auto simp: row_with_id_update split: if_splits)
  have "i \<notin> job_id ` set js" using assms(5) was by (force simp: sent_ok_def)
  moreover have "\<exists>r. row_with_id (job_id j') t = Some r \<and> row_state r = ''SCHEDULED''" if "j' \<in> set js" for j'
    using assms(5) was that unfolding sent_ok_def by blast
  ultimately show ?thesis using assms(2-5) i' id unfolding sent_ok_def by auto
qed

lemma spares_trans: "spares t t1 \<Longrightarrow> spares t1 t2 \<Longrightarrow> spares t t2"
  unfolding spares_def by blast

lemma spares_lease: "spares t (update_where (lease_where i) (leased_row cfg w) t)"
  by (simp add: spares_def row_with_id_update lease_where_def)

lemma spares_return:
  assumes "row_with_id i t = Some r" "row_state r = ''SCHEDULED''" "spares t t'"
  shows "spares t (update_where (id_where i) (retry_set at n now) t')"
  unfolding spares_def
proof (intro allI impI, elim conjE)
  fix k s assume k: "row_with_id k t = Some s" "row_state s \<noteq> ''SCHEDULED''"
  then have "row_with_id k t' = Some s" using assms(3) by (simp add: spares_def)
  moreover have "k \<noteq> i" using k assms(1,2) by auto
  ultimately show "row_with_id k (update_where (id_where i) (retry_set at n now) t') = Some s"
    using row_with_id_SomeD [of k t' s] by (simp add: row_with_id_update retry_set_def id_where_def)
qed

lemma dispatch_sends:
  assumes "quiet w" "distinct (map row_id (w_jobs w))"
  shows "\<exists>js. w_queue (snd (dispatch_from x cfg now h w)) = w_queue w @ js \<and>
    sent_ok x (w_jobs w) (w_jobs (snd (dispatch_from x cfg now h w))) js \<and>
    spares (w_jobs w) (w_jobs (snd (dispatch_from x cfg now h w)))"
  using assms
proof (induction h arbitrary: w rule: length_induct)
  case (1 h)
  have none: ?case if "w_queue (snd (dispatch_from x cfg now h w)) = w_queue w"
      "spares (w_jobs w) (w_jobs (snd (dispatch_from x cfg now h w)))"
    using that by (intro exI [of _ "[]"]) (simp add: sent_ok_def)
  show ?case
  proof (cases rule: dispatch_cases [of h now])
    case idle
    then show ?thesis by (intro none) (simp_all add: dispatch_none_due spares_def)
  next
    case (due s h')
    let ?w = "w\<lparr>w_heap := h'\<rparr>" and ?i = "sj_id s"
    let ?w1 = "leased_world cfg ?i ?w"
    have eq: "dispatch_from x cfg now h w =
        (case decoded x (map_option (leased_row cfg ?w) (List.find (lease_where ?i) (w_jobs w))) of
           Inl e \<Rightarrow> (Inl e, ?w1) | Inr a \<Rightarrow> after_lease x cfg now h' a ?w1)"
      using dispatch_round [OF due(1-3)] "1.prems"(1) by (simp add: bind_io_def lease_job_quiet)
    have w1: "quiet ?w1" "distinct (map row_id (w_jobs ?w1))" "w_queue ?w1 = w_queue w"
      "spares (w_jobs w) (w_jobs ?w1)"
      using "1.prems" by (simp_all add: spares_lease)
    have IH: "\<exists>js. w_queue (snd (dispatch_from x cfg now h' w2)) = w_queue w2 @ js \<and>
        sent_ok x (w_jobs ?w1) (w_jobs (snd (dispatch_from x cfg now h' w2))) js \<and>
        spares (w_jobs ?w1) (w_jobs (snd (dispatch_from x cfg now h' w2)))"
      if "quiet w2" "w_jobs w2 = w_jobs ?w1" for w2
      using "1.IH" [rule_format, OF due(4) that(1)] that(2) w1(2) by simp
    show ?thesis
    proof (cases "List.find (lease_where ?i) (w_jobs w)")
      case None
      then have t1: "w_jobs ?w1 = w_jobs w"
        by (simp add: update_where_none find_None_iff)
      have "dispatch_from x cfg now h w = dispatch_from x cfg now h' ?w1"
        using eq None by (simp add: decoded_def after_lease_def)
      then show ?thesis using IH [OF w1(1) refl] w1(3) t1 by simp
    next
      case (Some r)
      note r = lease_where_selects [OF "1.prems"(2) Some]
      show ?thesis
      proof (cases "from_row (x_from_value x) (leased_row cfg ?w r)")
        case (Inl e)
        then have "dispatch_from x cfg now h w = (Inl (Sqlx (DecodeError e)), ?w1)"
          using eq Some by (simp add: decoded_def)
        then show ?thesis using w1 by (intro none) simp_all
      next
        case (Inr j)
        have sp: "dispatch_from x cfg now h w = after_lease x cfg now h' (Some j) ?w1"
          using eq Some Inr by (simp add: decoded_def)
        have ji: "job_id j = ?i" using from_row_InrD(1) [OF Inr] row_with_id_SomeD [OF r(1)] by simp
        consider (closed) "w_closed w" | (full) "\<not> w_closed w" "c_worker_queue_size cfg \<le> length (w_queue w)"
          | (sent) "\<not> w_closed w" "length (w_queue w) < c_worker_queue_size cfg" by linarith
        then show ?thesis
        proof cases
          case closed
          then have "dispatch_from x cfg now h w = (Inr (), ?w1)"
            using sp by (simp add: after_lease_def try_send_def bind_io_def)
          then show ?thesis using w1 by (intro none) simp_all
        next
          case full
          then have fin: "snd (dispatch_from x cfg now h w) = (tick ?w1)\<lparr>w_jobs := update_where (id_where (job_id j))
              (retry_set (job_scheduled_at j) (job_attempt_count j) (ev_now (current_event ?w1))) (w_jobs ?w1), w_permit := True\<rparr>"
            using sp w1(1) by (simp add: after_lease_def try_send_def run)
          show ?thesis
            using fin w1(3,4) spares_return [OF r w1(4)] ji by (intro none) simp_all
        next
          case sent
          let ?w2 = "?w1\<lparr>w_queue := w_queue w @ [j], w_metrics := (w_metrics ?w1)\<lparr>m_dispatched := Suc (m_dispatched (w_metrics ?w1))\<rparr>\<rparr>"
          have fin: "dispatch_from x cfg now h w = dispatch_from x cfg now h' ?w2"
            using sp sent by (simp add: after_lease_def run try_send_def)
          have "quiet ?w2" "w_jobs ?w2 = w_jobs ?w1" using w1(1) by simp_all
          from IH [OF this] obtain js where js:
            "w_queue (snd (dispatch_from x cfg now h' ?w2)) = w_queue w @ j # js"
            "sent_ok x (w_jobs ?w1) (w_jobs (snd (dispatch_from x cfg now h' ?w2))) js"
            "spares (w_jobs ?w1) (w_jobs (snd (dispatch_from x cfg now h' ?w2)))"
            by auto
          have "sent_ok x (w_jobs w) (w_jobs (snd (dispatch_from x cfg now h' ?w2))) (j # js)"
            using sent_ok_lease [OF _ r Inr] "1.prems"(2) js(2,3) by simp
          then show ?thesis using fin js spares_trans [OF w1(4)] by metis
        qed
      qed
    qed
  qed
qed

lemma on_timer_dispatches:
  "snd (on_timer x cfg w) = snd (dispatch_from x cfg (ev_now (current_event w)) (w_heap w) (tick w))"
  by (simp add: on_timer_def dispatch_due_jobs_def run split: prod.split sum.split error.split)



text \<open>C11: A dispatch sends each job at most once, and only jobs whose row was SCHEDULED and is LEASED
  afterwards; the job sent is the leased row. Every other row that was not SCHEDULED is left alone.\<close>

theorem dispatch_sends_leased_jobs:
  assumes "quiet w" "distinct (map row_id (w_jobs w))"
  shows "\<exists>js. w_queue (snd (on_timer x cfg w)) = w_queue w @ js \<and>
    sent_ok x (w_jobs w) (w_jobs (snd (on_timer x cfg w))) js \<and>
    spares (w_jobs w) (w_jobs (snd (on_timer x cfg w)))"
  using dispatch_sends [of "tick w" x cfg "ev_now (current_event w)" "w_heap w"] assms
  by (simp add: on_timer_dispatches)

section \<open>A dispatch leaves no due job behind\<close>

definition payloads_decode :: "externals \<Rightarrow> table \<Rightarrow> bool" where
  "payloads_decode x t \<longleftrightarrow> (\<forall>r\<in>set t. x_from_value x (row_payload r) \<noteq> None)"

lemma payloads_decode_lease [simp]:
  "payloads_decode x (update_where p (leased_row cfg w) t) = payloads_decode x t"
  by (induction t) (auto simp: payloads_decode_def update_where_def leased_row_def lease_set_def)

lemma leased_row_decodes:
  assumes "payloads_decode x t" "r \<in> set t"
  shows "\<exists>j. from_row (x_from_value x) (leased_row cfg w r) = Inr j"
  using assms
  by (intro from_row_total) (auto simp: payloads_decode_def leased_row_def lease_set_def job_state_from_str_def)

definition not_scheduled :: "uuid \<Rightarrow> table \<Rightarrow> bool" where
  "not_scheduled i t \<longleftrightarrow> (case row_with_id i t of None \<Rightarrow> True | Some r \<Rightarrow> row_state r \<noteq> ''SCHEDULED'')"

lemma row_with_id_None_iff: "row_with_id i t = None \<longleftrightarrow> i \<notin> row_id ` set t"
  by (auto simp: row_with_id_def find_None_iff)

lemma sql_only_no_inserts:
  "row_with_id i t = None \<Longrightarrow> map row_id t' = map row_id t \<Longrightarrow> row_with_id i t' = None"
  by (metis row_with_id_None_iff set_map)

lemma dispatch_ids:
  assumes "quiet w"
  shows "map row_id (w_jobs (snd (dispatch_from x cfg now h w))) = map row_id (w_jobs w)"
  using assms
proof (induction h arbitrary: w rule: length_induct)
  case (1 h)
  show ?case
  proof (cases rule: dispatch_cases [of h now])
    case (due s h')
    let ?w = "w\<lparr>w_heap := h'\<rparr>" and ?i = "sj_id s"
    let ?w1 = "leased_world cfg ?i ?w"
    have ids: "map row_id (w_jobs ?w1) = map row_id (w_jobs w)" by (simp add: map_update_where)
    note IH = "1.IH" [rule_format, OF due(4)]
    have after: "map row_id (w_jobs (snd (after_lease x cfg now h' a ?w1))) = map row_id (w_jobs w)" for a
    proof (cases a)
      case None
      then show ?thesis using IH [of ?w1] "1.prems" ids by (simp add: after_lease_def)
    next
      case (Some j)
      consider "w_closed w" | "\<not> w_closed w" "c_worker_queue_size cfg \<le> length (w_queue w)"
        | "\<not> w_closed w" "length (w_queue w) < c_worker_queue_size cfg" by linarith
      then show ?thesis
      proof cases
        case 3
        let ?w2 = "?w1\<lparr>w_queue := w_queue w @ [j], w_metrics := (w_metrics ?w1)\<lparr>m_dispatched := Suc (m_dispatched (w_metrics ?w1))\<rparr>\<rparr>"
        from 3 show ?thesis using Some IH [of ?w2] "1.prems" ids
          by (simp add: after_lease_def run try_send_def)
      qed (use Some "1.prems" ids in \<open>simp_all add: after_lease_def try_send_def run map_update_where retry_set_def\<close>)
    qed
    show ?thesis
      using dispatch_round [OF due(1-3)] "1.prems" ids after
      by (simp add: bind_io_def lease_job_quiet split: sum.split)
  qed (simp add: dispatch_none_due)
qed

lemma not_scheduled_spared:
  assumes "quiet w" "distinct (map row_id (w_jobs w))" "not_scheduled i (w_jobs w)"
  shows "not_scheduled i (w_jobs (snd (dispatch_from x cfg now h w)))"
proof -
  obtain js where "spares (w_jobs w) (w_jobs (snd (dispatch_from x cfg now h w)))"
    using dispatch_sends [OF assms(1,2)] by blast
  then show ?thesis
    using assms(3) sql_only_no_inserts [OF _ dispatch_ids [OF assms(1)]]
    by (cases "row_with_id i (w_jobs w)") (auto simp: not_scheduled_def spares_def)
qed

lemma not_scheduled_leased: "not_scheduled i (update_where (lease_where i) (leased_row cfg w) t)"
  by (auto simp: not_scheduled_def row_with_id_update lease_where_def dest: row_with_id_SomeD split: option.split)

lemma dispatch_complete_from:
  assumes "quiet w" "distinct (map row_id (w_jobs w))" "payloads_decode x (w_jobs w)"
    and "\<not> w_closed w" "length (w_queue w) + length h \<le> c_worker_queue_size cfg" "heap_ok h" "w_heap w = h"
  shows "fst (dispatch_from x cfg now h w) = Inr () \<and>
    (\<forall>y\<in>set (w_heap (snd (dispatch_from x cfg now h w))). now < sj_scheduled_at y) \<and>
    (\<forall>y\<in>set h. sj_scheduled_at y \<le> now \<longrightarrow> not_scheduled (sj_id y) (w_jobs (snd (dispatch_from x cfg now h w))))"
  using assms
proof (induction h arbitrary: w rule: length_induct)
  case (1 h)
  show ?case
  proof (cases rule: dispatch_cases [of h now])
    case idle
    then have "now < sj_scheduled_at y" if "y \<in> set h" for y
      using binary_heap.none_due_left [OF "1.prems"(6)] that by simp
    then show ?thesis using "1.prems"(7) idle by (force simp: dispatch_none_due)
  next
    case (due s h')
    let ?w = "w\<lparr>w_heap := h'\<rparr>" and ?i = "sj_id s"
    let ?w1 = "leased_world cfg ?i ?w"
    have h': "heap_ok h'" "mset h = add_mset s (mset h')"
      using binary_heap.pop_step(2,3) [OF "1.prems"(6) due(1,3)] by auto
    then have set_h: "set h = insert s (set h')" by (metis set_mset_add_mset_insert set_mset_mset)
    have len: "length h = Suc (length h')" using heap_pop_length [OF due(3)] .
    have eq: "dispatch_from x cfg now h w =
        (case decoded x (map_option (leased_row cfg ?w) (List.find (lease_where ?i) (w_jobs w))) of
           Inl e \<Rightarrow> (Inl e, ?w1) | Inr a \<Rightarrow> after_lease x cfg now h' a ?w1)"
      using dispatch_round [OF due(1-3)] "1.prems"(1) by (simp add: bind_io_def lease_job_quiet)
    have "\<exists>w2. dispatch_from x cfg now h w = dispatch_from x cfg now h' w2 \<and> quiet w2 \<and>
        w_jobs w2 = w_jobs ?w1 \<and> w_closed w2 = w_closed w \<and> w_heap w2 = h' \<and>
        length (w_queue w2) \<le> Suc (length (w_queue w))"
    proof (cases "List.find (lease_where ?i) (w_jobs w)")
      case None
      then show ?thesis using eq "1.prems"(1)
        by (intro exI [of _ ?w1]) (simp add: decoded_def after_lease_def)
    next
      case (Some r)
      then obtain j where j: "from_row (x_from_value x) (leased_row cfg ?w r) = Inr j"
        using leased_row_decodes [OF "1.prems"(3)] find_SomeD by metis
      let ?w2 = "?w1\<lparr>w_queue := w_queue w @ [j], w_metrics := (w_metrics ?w1)\<lparr>m_dispatched := Suc (m_dispatched (w_metrics ?w1))\<rparr>\<rparr>"
      have "dispatch_from x cfg now h w = dispatch_from x cfg now h' ?w2"
        using eq Some j "1.prems"(4,5) len by (simp add: decoded_def after_lease_def run try_send_def)
      then show ?thesis using "1.prems"(1) by (intro exI [of _ ?w2]) simp
    qed
    then obtain w2 where w2: "dispatch_from x cfg now h w = dispatch_from x cfg now h' w2" "quiet w2"
      "w_jobs w2 = w_jobs ?w1" "w_closed w2 = w_closed w" "w_heap w2 = h'"
      "length (w_queue w2) \<le> Suc (length (w_queue w))" by blast
    have d2: "distinct (map row_id (w_jobs w2))" "payloads_decode x (w_jobs w2)"
      using w2(3) "1.prems"(2,3) by simp_all
    have "length (w_queue w2) + length h' \<le> c_worker_queue_size cfg" "\<not> w_closed w2"
      using w2(4,6) len "1.prems"(4,5) by simp_all
    note IH = "1.IH" [rule_format, OF due(4) w2(2) d2 this(2,1) h'(1) w2(5)]
    have "not_scheduled ?i (w_jobs w2)" using w2(3) by (simp add: not_scheduled_leased)
    from not_scheduled_spared [OF w2(2) d2(1) this] IH w2(1) set_h show ?thesis by simp
  qed
qed


definition due_world :: "table \<Rightarrow> world" where
  "due_world t = (idle_world t)\<lparr>w_heap := map (\<lambda>r. ScheduledJob (row_id r) (row_scheduled_at r)) t\<rparr>"

lemma due_world_simps [simp]:
  "quiet (due_world t)" "w_jobs (due_world t) = t" "w_queue (due_world t) = []" "\<not> w_closed (due_world t)"
  "w_heap (due_world t) = map (\<lambda>r. ScheduledJob (row_id r) (row_scheduled_at r)) t"
  "ev_now (current_event (due_world t)) = 0"
  by (simp_all add: due_world_def) (simp_all add: idle_world_def current_event_def idle_event_def)

lemma sample_row_simps [simp]:
  "row_id (sample_row i st hook) = i" "row_state (sample_row i st hook) = st"
  "row_scheduled_at (sample_row i st hook) = 0"
  by (simp_all add: sample_row_def new_row_def)

lemma sample_row_decodes: "payloads_decode sample_externals [sample_row 5 st hook]"
  using payload_roundtrip_lemma [of "Http ''GET'' ''u'' [] None 30"]
  by (simp add: payloads_decode_def sample_row_def new_row_def sample_externals_def sample_payload_def
      payload_ok_def int_limits)

theorem dispatch_sends_leased_jobs_witness:
  "\<exists>js. w_queue (snd (on_timer sample_externals sample_config (due_world [sample_row 5 ''SCHEDULED'' None]))) = js \<and>
    sent_ok sample_externals [sample_row 5 ''SCHEDULED'' None]
      (w_jobs (snd (on_timer sample_externals sample_config (due_world [sample_row 5 ''SCHEDULED'' None])))) js \<and>
    map job_id js = [5]"
proof -
  let ?w = "due_world [sample_row 5 ''SCHEDULED'' None]"
  have "map job_id (w_queue (snd (on_timer sample_externals sample_config ?w))) = [5]" by code_simp
  with dispatch_sends_leased_jobs [of ?w sample_externals sample_config] show ?thesis by simp
qed


text \<open>C29: When the channel is full, the due job goes back: its row is SCHEDULED at the same instant with
  the same number of attempts and no lease, nothing is sent, and the scheduler is woken to load it
  again.\<close>

theorem full_queue_returns_job:
  assumes "quiet w" "distinct (map row_id (w_jobs w))" "\<not> w_closed w" "c_worker_queue_size cfg \<le> length (w_queue w)"
    and "heap_peek (w_heap w) = Some s" "sj_scheduled_at s \<le> ev_now (current_event w)"
    and "row_with_id (sj_id s) (w_jobs w) = Some r" "row_state r = ''SCHEDULED''" "payloads_decode x (w_jobs w)"
  shows "let w' = snd (on_timer x cfg w) in w_queue w' = w_queue w \<and> w_permit w' \<and>
    (\<exists>r'. row_with_id (sj_id s) (w_jobs w') = Some r' \<and> row_identity r' = row_identity r \<and>
       row_state r' = ''SCHEDULED'' \<and> row_scheduled_at r' = row_scheduled_at r \<and>
       row_attempt_count r' = row_attempt_count r \<and> row_leased_until r' = None)"
proof -
  let ?h = "w_heap w" and ?now = "ev_now (current_event w)" and ?i = "sj_id s"
  obtain h' where h': "heap_pop ?h = Some (s, h')"
    using assms(5,6) by (cases rule: dispatch_cases [of ?h ?now]) auto
  let ?w = "(tick w)\<lparr>w_heap := h'\<rparr>"
  have f: "List.find (lease_where ?i) (w_jobs w) = Some r" using assms(2,7,8) by (simp add: find_lease_where)
  obtain j where j: "from_row (x_from_value x) (leased_row cfg ?w r) = Inr j"
    using leased_row_decodes [OF assms(9)] row_with_id_SomeD [OF assms(7)] by metis
  note jr = from_row_InrD [OF j] row_with_id_SomeD [OF assms(7)]
  have "snd (on_timer x cfg w) = snd (after_lease x cfg ?now h' (Some j) (leased_world cfg ?i ?w))"
    using dispatch_round [OF assms(5) _ h', of ?now x cfg "tick w"] assms(1,6) f j
    by (simp add: on_timer_dispatches bind_io_def lease_job_quiet decoded_def)
  also have "\<dots> = (tick (leased_world cfg ?i ?w))\<lparr>w_jobs := update_where (id_where ?i)
      (retry_set (row_scheduled_at r) (row_attempt_count r) (ev_now (current_event (leased_world cfg ?i ?w))))
      (update_where (lease_where ?i) (leased_row cfg ?w) (w_jobs w)), w_permit := True\<rparr>"
    using assms(1,3,4) jr by (simp add: after_lease_def try_send_def run)
  finally have fin: "snd (on_timer x cfg w) = (tick (leased_world cfg ?i ?w))\<lparr>w_jobs := update_where (id_where ?i)
      (retry_set (row_scheduled_at r) (row_attempt_count r) (ev_now (current_event (leased_world cfg ?i ?w))))
      (update_where (lease_where ?i) (leased_row cfg ?w) (w_jobs w)), w_permit := True\<rparr>" .
  show ?thesis unfolding fin Let_def
    using assms(7,8) jr
    by (simp add: row_with_id_update retry_set_def lease_where_def id_where_def)
      (simp add: row_identity_def leased_row_def lease_set_def)
qed

theorem full_queue_returns_job_witness:
  "w_permit (snd (on_timer sample_externals (sample_config\<lparr>c_worker_queue_size := 0\<rparr>)
     (due_world [sample_row 5 ''SCHEDULED'' None])))"
  using full_queue_returns_job [of "due_world [sample_row 5 ''SCHEDULED'' None]"
      "sample_config\<lparr>c_worker_queue_size := 0\<rparr>" "ScheduledJob 5 0" "sample_row 5 ''SCHEDULED'' None" sample_externals]
    sample_row_decodes [of "''SCHEDULED''" None]
  by (simp add: Let_def row_with_id_def)

section \<open>The heap is refilled by notifications only\<close>

lemma on_timer_empty:
  "w_heap w = [] \<Longrightarrow> snd (on_timer x cfg w) = tick w"
  by (simp add: on_timer_dispatches dispatch_none_due)

text \<open>Once the heap is empty, no number of timer rounds does anything, in any environment: only a
  notification refills the heap.\<close>

theorem timer_never_refills:
  assumes "w_heap w = []"
  shows "w_jobs (((\<lambda>w. snd (on_timer x cfg w)) ^^ n) w) = w_jobs w \<and>
    w_heap (((\<lambda>w. snd (on_timer x cfg w)) ^^ n) w) = []"
  using assms by (induction n) (simp_all add: on_timer_empty)

definition narrow_config :: config where
  "narrow_config = sample_config\<lparr>c_heap_lookahead_limit := 1\<rparr>"

text \<open>Two due jobs and a lookahead of one: the second job is not in the heap, no notification is
  pending after the first dispatch, and the job stays SCHEDULED for ever.\<close>

theorem timer_never_refills_witness:
  "let w = snd (on_timer sample_externals narrow_config (snd (scheduler_start narrow_config
       (idle_world [sample_row 5 ''SCHEDULED'' None, sample_row 6 ''SCHEDULED'' None])))) in
   (\<forall>n. map row_state (w_jobs (((\<lambda>w. snd (on_timer sample_externals narrow_config w)) ^^ n) w)) =
     [''LEASED'', ''SCHEDULED'']) \<and> \<not> w_permit w"
proof -
  let ?w = "snd (on_timer sample_externals narrow_config (snd (scheduler_start narrow_config
       (idle_world [sample_row 5 ''SCHEDULED'' None, sample_row 6 ''SCHEDULED'' None]))))"
  have "w_heap ?w = []" "map row_state (w_jobs ?w) = [''LEASED'', ''SCHEDULED'']" "\<not> w_permit ?w"
    by code_simp+
  with timer_never_refills [of ?w _ sample_externals narrow_config] show ?thesis by (simp add: Let_def)
qed

definition lease_failing_world :: world where
  "lease_failing_world = (due_world [sample_row 5 ''SCHEDULED'' None])\<lparr>w_env := \<lambda>n. if n = 1
     then (idle_event n)\<lparr>ev_delivery := Dropped\<rparr> else idle_event n\<rparr>"

text \<open>A lease that fails in the database costs the scheduler its memory of the job: the entry has
  been popped, the error is only logged, and the row stays SCHEDULED while the heap is empty and no
  notification is pending.\<close>

theorem failed_lease_forgets_job:
  "let w = snd (on_timer sample_externals sample_config lease_failing_world) in
   w_heap w = [] \<and> \<not> w_permit w \<and> map row_state (w_jobs w) = [''SCHEDULED''] \<and> w_queue w = []"
  by code_simp

section \<open>What a refresh loads\<close>

definition heap_entry :: "job_row \<Rightarrow> scheduled_job" where
  "heap_entry r = ScheduledJob (row_id r) (row_scheduled_at r)"

lemma refresh_heap_quiet:
  assumes "quiet w"
  shows "w_heap (snd (refresh_heap cfg w)) =
    (if c_heap_lookahead_limit cfg < 0 then w_heap w
     else build_heap (map heap_entry (take (nat (c_heap_lookahead_limit cfg))
            (sort_key row_scheduled_at (filter scheduled_where (w_jobs w))))))"
  using assms
  by (simp add: refresh_heap_def run select_scheduled_def set_scheduler_heap_size_def heap_entry_def [abs_def])

lemma take_sorted_earliest:
  assumes "sorted (map f l)" "a \<in> set (take n l)" "b \<in> set l" "b \<notin> set (take n l)"
  shows "f a \<le> (f b :: int)"
proof -
  have "set l = set (take n l) \<union> set (drop n l)" by (metis append_take_drop_id set_append)
  then have "b \<in> set (drop n l)" using assms(3,4) by blast
  moreover have "sorted (map f (take n l) @ map f (drop n l))"
    using assms(1) by (metis append_take_drop_id map_append)
  ultimately show ?thesis using assms(2) by (simp add: sorted_append)
qed

text \<open>C30: A refresh replaces the heap by the entries of at most \<open>heap_lookahead_limit\<close> rows, as many as
  there are; each belongs to a SCHEDULED row that is not a template, and no SCHEDULED row that is left
  out is earlier than one that is loaded.\<close>

theorem refresh_loads_earliest:
  assumes "quiet w" "0 \<le> c_heap_lookahead_limit cfg"
  shows "\<exists>rows. mset (w_heap (snd (refresh_heap cfg w))) = mset (map heap_entry rows) \<and>
    heap_ok (w_heap (snd (refresh_heap cfg w))) \<and>
    length rows = min (nat (c_heap_lookahead_limit cfg)) (count_where scheduled_where (w_jobs w)) \<and>
    (\<forall>r\<in>set rows. r \<in> set (w_jobs w) \<and> row_state r = ''SCHEDULED'' \<and> \<not> row_is_template r) \<and>
    (\<forall>r\<in>set rows. \<forall>s\<in>set (w_jobs w). scheduled_where s \<and> s \<notin> set rows \<longrightarrow> row_scheduled_at r \<le> row_scheduled_at s)"
proof -
  let ?all = "sort_key row_scheduled_at (filter scheduled_where (w_jobs w))"
  let ?rows = "take (nat (c_heap_lookahead_limit cfg)) ?all"
  have h: "w_heap (snd (refresh_heap cfg w)) = build_heap (map heap_entry ?rows)"
    using refresh_heap_quiet [OF assms(1)] assms(2) by simp
  have s: "set ?rows \<subseteq> set ?all" by (rule set_take_subset)
  show ?thesis
  proof (intro exI [of _ ?rows] conjI ballI impI)
    show "mset (w_heap (snd (refresh_heap cfg w))) = mset (map heap_entry ?rows)"
      unfolding h by (rule binary_heap.elems_build)
    show "heap_ok (w_heap (snd (refresh_heap cfg w)))" unfolding h by (rule binary_heap.invar_build)
    show "length ?rows = min (nat (c_heap_lookahead_limit cfg)) (count_where scheduled_where (w_jobs w))"
      by (simp add: count_where_def min.commute)
    fix r assume r: "r \<in> set ?rows"
    then show "r \<in> set (w_jobs w)" "row_state r = ''SCHEDULED''" "\<not> row_is_template r"
      using s by (auto simp: scheduled_where_def)
    fix u assume "u \<in> set (w_jobs w)" "scheduled_where u \<and> u \<notin> set ?rows"
    then show "row_scheduled_at r \<le> row_scheduled_at u"
      using take_sorted_earliest [OF sorted_sort_key r, of u] by simp
  qed
qed

theorem refresh_loads_earliest_witness:
  "length (w_heap (snd (refresh_heap narrow_config
      (idle_world [sample_row 5 ''SCHEDULED'' None, sample_row 6 ''SCHEDULED'' None])))) = 1"
proof -
  let ?w = "idle_world [sample_row 5 ''SCHEDULED'' None, sample_row 6 ''SCHEDULED'' None]"
  obtain rows where "mset (w_heap (snd (refresh_heap narrow_config ?w))) = mset (map heap_entry rows)"
    "length rows = min (nat 1) (count_where scheduled_where (w_jobs ?w))"
    using refresh_loads_earliest [of ?w narrow_config] by (auto simp: narrow_config_def)
  then have "mset (w_heap (snd (refresh_heap narrow_config ?w))) = mset (map heap_entry rows)" "length rows = 1"
    by (simp_all add: count_where_def scheduled_where_def sample_row_def new_row_def)
  then show ?thesis by (metis size_mset length_map)
qed

end
