(* ===== verification/Reaper.thy ===== *)
theory Reaper
  imports Repository Payload_Codec
begin

text \<open>\<open>src/reaper.rs\<close>: the recovery of stale jobs at startup, and the release of expired leases.\<close>

section \<open>The two operations\<close>

definition recover_on_startup :: "nat io" where
  "recover_on_startup = bind_io recover_rows_on_startup (\<lambda>n. return_io n)"

text \<open>One round of \<open>run_lease_reaper\<close>; an error is logged and the loop goes on.\<close>

definition reaper_round :: "unit io" where
  "reaper_round =
     bind_io (attempt reap_expired_leases) (\<lambda>r.
     case r of
       Inl e \<Rightarrow> return_io ()
     | Inr n \<Rightarrow> if 0 < n then notify_one else return_io ())"

lemma sql_only_reaper [effect_intro]: "sql_only recover_on_startup" "sql_only reaper_round"
  unfolding recover_on_startup_def reaper_round_def by (intro effect_intro)+

section \<open>Expired leases\<close>

definition lease_ended :: "time \<Rightarrow> job_row \<Rightarrow> bool" where
  "lease_ended now r \<longleftrightarrow> (case row_leased_until r of None \<Rightarrow> False | Some u \<Rightarrow> u < now)"

text \<open>A row as it is after its release.\<close>

definition released_from :: "job_row \<Rightarrow> job_row \<Rightarrow> bool" where
  "released_from r r' \<longleftrightarrow> row_state r' = ''SCHEDULED'' \<and> row_leased_until r' = None \<and>
     row_attempt_count r' = row_attempt_count r \<and> row_scheduled_at r' = row_scheduled_at r \<and>
     row_identity r' = row_identity r"

lemma released_set_id [simp]: "row_id (released_set n r) = row_id r"
  by (rule reap.assign_id)

lemma released_set_from: "released_from r (released_set n r)"
  by (simp add: released_from_def released_set_def row_identity_def)

lemma reap_where_iff: "reap_where now r \<longleftrightarrow> row_state r = ''LEASED'' \<and> lease_ended now r"
  by (auto simp: reap_where_def lease_ended_def split: option.split)

text \<open>C32: A round of the reaper releases a row exactly when it is LEASED and its lease has ended before
  the instant of the round: the row is SCHEDULED again without a lease, with its attempts and its
  instant as they were. The scheduler is woken when there was such a row, and no other row changes.\<close>

theorem reaper_round_releases:
  assumes "quiet w" "row_with_id i (w_jobs w) = Some r"
  shows "let w' = snd (reaper_round w); now = ev_now (current_event w) in
    (\<exists>r'. row_with_id i (w_jobs w') = Some r' \<and>
       (if row_state r = ''LEASED'' \<and> lease_ended now r then released_from r r' else r' = r)) \<and>
    (w_permit w' \<longleftrightarrow> w_permit w \<or> (\<exists>s\<in>set (w_jobs w). row_state s = ''LEASED'' \<and> lease_ended now s))"
proof -
  let ?now = "ev_now (current_event w)"
  have n: "0 < count_where (reap_where ?now) (w_jobs w) \<longleftrightarrow> (\<exists>s\<in>set (w_jobs w). row_state s = ''LEASED'' \<and> lease_ended ?now s)"
    using count_where_zero [of "reap_where ?now" "w_jobs w"] by (auto simp: reap_where_iff)
  have row: "row_with_id i (w_jobs (snd (reaper_round w))) =
      Some (if reap_where ?now r then released_set ?now r else r)"
    using assms by (simp add: reaper_round_def run row_with_id_update)
  have permit: "w_permit (snd (reaper_round w)) \<longleftrightarrow> w_permit w \<or> 0 < count_where (reap_where ?now) (w_jobs w)"
    using assms(1) by (simp add: reaper_round_def run)
  show ?thesis
    unfolding Let_def row permit n reap_where_iff by (auto simp: released_set_from)
qed

definition expired_row :: "string \<Rightarrow> job_row" where
  "expired_row st = (sample_row 5 st None)\<lparr>row_leased_until := Some (- 1)\<rparr>"

lemma expired_row_simps [simp]:
  "row_state (expired_row st) = st" "row_with_id 5 [expired_row st] = Some (expired_row st)"
  "row_leased_until (expired_row st) = Some (- 1)"
  by (simp_all add: expired_row_def row_with_id_def sample_row_def new_row_def)

lemma idle_world_now [simp]: "ev_now (current_event (idle_world t)) = 0"
  by (simp add: current_event_def idle_world_def idle_event_def)

theorem reaper_round_releases_witness:
  "(\<exists>r'. row_with_id 5 (w_jobs (snd (reaper_round (idle_world [expired_row ''LEASED''])))) = Some r' \<and>
     released_from (expired_row ''LEASED'') r') \<and>
   w_permit (snd (reaper_round (idle_world [expired_row ''LEASED''])))"
  using reaper_round_releases [of "idle_world [expired_row ''LEASED'']" 5 "expired_row ''LEASED''"]
  by (simp add: Let_def lease_ended_def)

section \<open>Running jobs\<close>

lemma reap_spares_running:
  "row_with_id i (w_jobs w) = Some r \<Longrightarrow> row_state r = ''RUNNING'' \<Longrightarrow>
   row_with_id i (w_jobs (snd (reaper_round w))) = Some r"
  by (auto simp: reaper_round_def reap_expired_leases_def update_def statement_def run row_with_id_update
      released_set_def reap_where_def split: delivery.split)

text \<open>The reaper never releases a RUNNING job: whatever the environment does and however many
  rounds pass, the row stays as it is, also when its lease ended long ago. A job whose worker died
  while running it waits for the next start of the daemon.\<close>

theorem reaper_never_releases_running:
  assumes "row_with_id i (w_jobs w) = Some r" "row_state r = ''RUNNING''"
  shows "row_with_id i (w_jobs (((\<lambda>w. snd (reaper_round w)) ^^ n) w)) = Some r"
  using assms by (induction n) (simp_all add: reap_spares_running)

theorem reaper_never_releases_running_witness:
  "\<forall>n. row_with_id 5 (w_jobs (((\<lambda>w. snd (reaper_round w)) ^^ n) (idle_world [expired_row ''RUNNING'']))) =
     Some (expired_row ''RUNNING'')"
  using reaper_never_releases_running [of 5 "idle_world [expired_row ''RUNNING'']" "expired_row ''RUNNING''"]
  by simp

section \<open>Startup\<close>


definition leased_ahead :: job_row where
  "leased_ahead = (sample_row 5 ''RUNNING'' None)\<lparr>row_leased_until := Some (seconds 30)\<rparr>"


end
