(* ===== verification/Worker_Pool.thy ===== *)
theory Worker_Pool
  imports Result_Handler Scheduler Reaper
begin

text \<open>
  \<open>src/worker/pool.rs\<close>: the workers that take jobs from the channel, and the shutdown of the pool. A
  worker is a small state machine; one round of its loop is a computation over the world.
\<close>

section \<open>One job\<close>

definition show_active :: "unit io" where
  "show_active w = set_worker_active_count (w_active w) w"

definition job_begins :: "unit io" where
  "job_begins = then_io (modify_io (\<lambda>w. w\<lparr>w_active := w_active w + 1\<rparr>)) show_active"

definition job_ends :: "unit io" where
  "job_ends = then_io (modify_io (\<lambda>w. w\<lparr>w_active := w_active w - 1\<rparr>)) show_active"

text \<open>
  The body of the loop for a received job, in two parts: the count and the mark RUNNING, then the
  execution and the handling of its result. A panic of the execution or of the handler unwinds the
  task: it is the only way the second part returns an error.
\<close>

definition start_job :: "job \<Rightarrow> job option io" where
  "start_job j =
     then_io job_begins
       (bind_io (attempt (set_running (job_id j))) (\<lambda>r.
        case r of
          Inl e \<Rightarrow> then_io job_ends (return_io None)
        | Inr _ \<Rightarrow> return_io (Some (j\<lparr>job_state_of := Running\<rparr>))))"

definition finish_job :: "externals \<Rightarrow> config \<Rightarrow> exec_env \<Rightarrow> job \<Rightarrow> unit io" where
  "finish_job x cfg ee j =
     bind_io (lift_result (execute ee (c_script_safe_dir cfg) (job_payload_of j))) (\<lambda>result.
     bind_io (attempt (handle x cfg j result)) (\<lambda>_. job_ends))"

definition run_job :: "externals \<Rightarrow> config \<Rightarrow> exec_env \<Rightarrow> job \<Rightarrow> unit io" where
  "run_job x cfg ee j =
     bind_io (start_job j) (\<lambda>started.
     case started of None \<Rightarrow> return_io () | Some j \<Rightarrow> finish_job x cfg ee j)"

section \<open>The life of a worker\<close>

text \<open>
  A worker waits for a job or for the shutdown signal, has received a job, runs one, has left its loop,
  or was killed by a panic. \<open>recv\<close> yields the first job of the channel.
\<close>

datatype worker = Waiting | Busy job | Working job | Stopped | Dead

definition worker_receive :: "worker \<Rightarrow> world \<Rightarrow> worker \<times> world" where
  "worker_receive k w =
     (case k of
        Waiting \<Rightarrow>
          (case w_queue w of
             [] \<Rightarrow> (if w_closed w then Stopped else Waiting, w)
           | j # js \<Rightarrow> (Busy j, w\<lparr>w_queue := js\<rparr>))
      | _ \<Rightarrow> (k, w))"

definition worker_start :: "worker \<Rightarrow> world \<Rightarrow> worker \<times> world" where
  "worker_start k w =
     (case k of
        Busy j \<Rightarrow>
          (case start_job j w of
             (Inl _, w') \<Rightarrow> (Dead, w')
           | (Inr None, w') \<Rightarrow> (Waiting, w')
           | (Inr (Some j'), w') \<Rightarrow> (Working j', w'))
      | _ \<Rightarrow> (k, w))"

definition worker_finish :: "externals \<Rightarrow> config \<Rightarrow> exec_env \<Rightarrow> worker \<Rightarrow> world \<Rightarrow> worker \<times> world" where
  "worker_finish x cfg ee k w =
     (case k of
        Working j \<Rightarrow>
          (case finish_job x cfg ee j w of
             (Inl _, w') \<Rightarrow> (Dead, w')
           | (Inr _, w') \<Rightarrow> (Waiting, w'))
      | _ \<Rightarrow> (k, w))"

definition worker_run :: "externals \<Rightarrow> config \<Rightarrow> exec_env \<Rightarrow> worker \<Rightarrow> world \<Rightarrow> worker \<times> world" where
  "worker_run x cfg ee k w = (case worker_start k w of (k', w') \<Rightarrow> worker_finish x cfg ee k' w')"

text \<open>\<open>notify_waiters\<close> reaches the workers that wait at that moment and stores no permit.\<close>

definition worker_shutdown :: "worker \<Rightarrow> worker" where
  "worker_shutdown k = (case k of Waiting \<Rightarrow> Stopped | _ \<Rightarrow> k)"

definition pool_shutdown :: "worker list \<Rightarrow> worker list" where
  "pool_shutdown = map worker_shutdown"

text \<open>
  The pool starts with an empty channel, no running job and as many waiting workers as configured. The
  channel of the \<open>tokio\<close> crate panics when it is created without a place or with more than
  \<open>usize::MAX >> 3\<close> places.
\<close>

definition spawn_worker_pool :: "config \<Rightarrow> worker list io" where
  "spawn_worker_pool cfg =
     (if c_worker_queue_size cfg = 0 \<or> u64_max div 8 < int (c_worker_queue_size cfg)
      then throw_io (Panicked ''mpsc::channel'')
      else then_io (modify_io (\<lambda>w. w\<lparr>w_queue := [], w_closed := False, w_active := 0\<rparr>))
             (return_io (replicate (c_worker_count cfg) Waiting)))"

text \<open>\<open>wait_for_drain\<close>: the number of running jobs is read every 100 ms; the loop ends when it is 0 or
  when \<open>timeout\<close> has passed. \<open>active\<close> gives the count at each reading, \<open>elapsed\<close> the time since the
  start in milliseconds.\<close>

function drain_rounds :: "(nat \<Rightarrow> nat) \<Rightarrow> nat \<Rightarrow> nat \<Rightarrow> nat" where
  "drain_rounds active timeout_ms round =
     (if active round = 0 then round
      else if timeout_ms \<le> 100 * round then round
      else drain_rounds active timeout_ms (round + 1))"
  by pat_completeness auto
termination
  by (relation "measure (\<lambda>(active, timeout_ms, round). timeout_ms - round)") auto

declare drain_rounds.simps [simp del]

definition wait_for_drain :: "config \<Rightarrow> (nat \<Rightarrow> nat) \<Rightarrow> nat" where
  "wait_for_drain cfg active = drain_rounds active (1000 * c_shutdown_timeout cfg) 0"

lemma sql_only_worker [effect_intro]:
  "sql_only job_begins" "sql_only job_ends" "sql_only (start_job j)" "sql_only (finish_job x cfg ee j)" "sql_only (run_job x cfg ee j)"
proof -
  have a: "sql_only show_active" using sql.recorders by (simp add: keeps_def show_active_def)
  show b: "sql_only job_begins" and e: "sql_only job_ends"
    unfolding job_begins_def job_ends_def by (intro effect_intro a; simp)+
  show s: "sql_only (start_job j)" and f: "sql_only (finish_job x cfg ee j)" for j
    unfolding start_job_def finish_job_def by (intro effect_intro b e)+
  show "sql_only (run_job x cfg ee j)"
    unfolding run_job_def by (intro effect_intro s f)
qed

section \<open>The number of running jobs\<close>

lemma job_begins_run [run]:
  "job_begins w = (Inr (), w\<lparr>w_active := w_active w + 1, w_metrics := (w_metrics w)\<lparr>m_worker_active := w_active w + 1\<rparr>\<rparr>)"
  by (simp add: job_begins_def show_active_def set_worker_active_count_def run)

lemma job_ends_run [run]:
  "job_ends w = (Inr (), w\<lparr>w_active := w_active w - 1, w_metrics := (w_metrics w)\<lparr>m_worker_active := w_active w - 1\<rparr>\<rparr>)"
  by (simp add: job_ends_def show_active_def set_worker_active_count_def run)

lemma leaves_pool_active: "leaves_pool m \<Longrightarrow> m w = (r, w') \<Longrightarrow> w_active w' = w_active w"
  using leaves_poolD [of m w r w'] by (simp add: pool_state_def)

lemma start_job_run:
  "start_job j w = (case set_running (job_id j) (snd (job_begins w)) of
      (Inl (Panicked s), w') \<Rightarrow> (Inl (Panicked s), w')
    | (Inl Diverged, w') \<Rightarrow> (Inl Diverged, w')
    | (Inl e, w') \<Rightarrow> (Inr None, snd (job_ends w'))
    | (Inr u, w') \<Rightarrow> (Inr (Some (j\<lparr>job_state_of := Running\<rparr>)), w'))"
  by (simp add: start_job_def run split: prod.split sum.split error.split)

lemma set_running_result: "set_running i w = (r, w') \<Longrightarrow> r = Inr () \<or> (\<exists>e. r = Inl (Sqlx e))"
  by (auto simp: set_running_def update_def statement_def run split: delivery.splits)

text \<open>A job whose run has begun is counted until its run has ended.\<close>

lemma start_job_active:
  assumes "start_job j w = (r, w')"
  obtains "r = Inr None" "w_active w' = w_active w"
  | "r = Inr (Some (j\<lparr>job_state_of := Running\<rparr>))" "w_active w' = w_active w + 1"
proof -
  obtain r1 w1 where s: "set_running (job_id j) (snd (job_begins w)) = (r1, w1)" by fastforce
  have "leaves_pool (set_running (job_id j))" by (intro effect_intro)
  then have "w_active w1 = w_active w + 1" using leaves_pool_active [where m = "set_running (job_id j)"] s by (fastforce simp: job_begins_run)
  then show ?thesis
    using that assms s set_running_result [OF s] by (auto simp: start_job_run job_ends_run)
qed

lemma finish_job_active:
  assumes "finish_job x cfg ee j w = (r, w')"
  shows "w_active w' = (case r of Inl _ \<Rightarrow> w_active w | Inr _ \<Rightarrow> w_active w - 1)"
proof -
  have pool: "leaves_pool (bind_io (lift_result (execute ee (c_script_safe_dir cfg) (job_payload_of j)))
      (\<lambda>result. attempt (handle x cfg j result)))" by (intro effect_intro)
  have eq: "finish_job x cfg ee j = bind_io (bind_io (lift_result (execute ee (c_script_safe_dir cfg) (job_payload_of j)))
      (\<lambda>result. attempt (handle x cfg j result))) (\<lambda>_. job_ends)"
    by (simp add: finish_job_def bind_assoc)
  obtain r1 w1 where 1: "bind_io (lift_result (execute ee (c_script_safe_dir cfg) (job_payload_of j)))
      (\<lambda>result. attempt (handle x cfg j result)) w = (r1, w1)" by fastforce
  show ?thesis
    using assms 1 leaves_pool_active [OF pool 1] by (cases r1) (auto simp: eq bind_io_run job_ends_run)
qed

text \<open>The workers that count as active: those that run a job, and those that died while running one.\<close>

definition counted :: "worker \<Rightarrow> bool" where
  "counted k \<longleftrightarrow> (case k of Working j \<Rightarrow> True | Dead \<Rightarrow> True | _ \<Rightarrow> False)"

definition active_right :: "worker list \<times> world \<Rightarrow> bool" where
  "active_right d \<longleftrightarrow> w_active (snd d) = count_where counted (fst d)"

lemma active_right_step:
  assumes "active_right (ks, w)" "i < length ks"
    and "w_active w' + (if counted (ks ! i) then 1 else 0) = w_active w + (if counted k then 1 else 0)"
  shows "active_right (ks[i := k], w')"
  using assms count_where_set [OF assms(2), of counted k] by (simp add: active_right_def)

lemma active_right_positive: "active_right (ks, w) \<Longrightarrow> i < length ks \<Longrightarrow> counted (ks ! i) \<Longrightarrow> 0 < w_active w"
  using count_where_zero [of counted ks] by (force simp: active_right_def)

lemma active_right_worker:
  assumes "active_right (ks, w)" "i < length ks"
    and "worker_receive (ks ! i) w = (k, w') \<or> worker_start (ks ! i) w = (k, w') \<or> worker_finish x cfg ee (ks ! i) w = (k, w')"
  shows "active_right (ks[i := k], w')"
proof (rule active_right_step [OF assms(1,2)])
  note pos = active_right_positive [OF assms(1,2)]
  from assms(3) show "w_active w' + (if counted (ks ! i) then 1 else 0) = w_active w + (if counted k then 1 else 0)"
  proof (elim disjE)
    assume "worker_receive (ks ! i) w = (k, w')"
    then show ?thesis by (auto simp: worker_receive_def counted_def split: worker.splits list.splits if_splits)
  next
    assume s: "worker_start (ks ! i) w = (k, w')"
    show ?thesis
    proof (cases "ks ! i")
      case (Busy j)
      obtain r w1 where r: "start_job j w = (r, w1)" by fastforce
      from r show ?thesis
        by (rule start_job_active) (use s Busy r in \<open>auto simp: worker_start_def counted_def\<close>)
    qed (use s in \<open>auto simp: worker_start_def\<close>)
  next
    assume f: "worker_finish x cfg ee (ks ! i) w = (k, w')"
    show ?thesis
    proof (cases "ks ! i")
      case (Working j)
      obtain r w1 where r: "finish_job x cfg ee j w = (r, w1)" by fastforce
      show ?thesis
        using f Working r pos finish_job_active [OF r]
        by (cases r) (auto simp: worker_finish_def counted_def)
    qed (use f in \<open>auto simp: worker_finish_def\<close>)
  qed
qed

lemma active_right_shutdown: "active_right (pool_shutdown ks, w) = active_right (ks, w)"
proof -
  have "counted (worker_shutdown k) = counted k" for k
    by (simp add: worker_shutdown_def counted_def split: worker.split)
  then show ?thesis by (simp add: active_right_def pool_shutdown_def count_where_def filter_map comp_def)
qed

section \<open>When a worker dies\<close>

text \<open>A panic during the execution (an output cut inside a character) kills the worker: its count is
  never given back, and the job's row stays RUNNING through any number of rounds of the reaper.\<close>

theorem panic_kills_worker:
  assumes "quiet w" "execute ee (c_script_safe_dir cfg) (job_payload_of j) = Inl e"
    and "row_with_id (job_id j) (w_jobs w) = Some r"
  shows "\<exists>w'. worker_run x cfg ee (Busy j) w = (Dead, w') \<and> w_active w' = w_active w + 1 \<and>
    (\<forall>n. \<exists>r'. row_with_id (job_id j) (w_jobs (((\<lambda>w. snd (reaper_round w)) ^^ n) w')) = Some r' \<and>
       row_state r' = ''RUNNING'' \<and> row_identity r' = row_identity r)"
proof -
  define w1 where "w1 = snd (start_job j w)"
  have s: "start_job j w = (Inr (Some (j\<lparr>job_state_of := Running\<rparr>)), w1)"
    and jobs: "w_jobs w1 = update_where (id_where (job_id j)) (running_set (ev_now (current_event w))) (w_jobs w)"
    and active: "w_active w1 = w_active w + 1"
    using assms(1) by (simp_all add: w1_def start_job_def run current_event_def)
  have f: "finish_job x cfg ee (j\<lparr>job_state_of := Running\<rparr>) w1 = (Inl e, w1)"
    using assms(2) by (simp add: finish_job_def lift_result_def run)
  let ?r = "running_set (ev_now (current_event w)) r"
  have "row_with_id (job_id j) (w_jobs w1) = Some ?r"
    using assms(3) row_with_id_SomeD [OF assms(3)]
    by (simp add: jobs row_with_id_update running_set_def id_where_def)
  moreover have r: "row_state ?r = ''RUNNING''" "row_identity ?r = row_identity r"
    by (simp_all add: running_set_def row_identity_def)
  ultimately have "row_with_id (job_id j) (w_jobs (((\<lambda>w. snd (reaper_round w)) ^^ n) w1)) = Some ?r" for n
    by (induction n) (simp_all add: reap_spares_running)
  then show ?thesis
    using s f active r by (simp add: worker_run_def worker_start_def worker_finish_def)
qed

definition long_output_env :: exec_env where
  "long_output_env = sample_exec_env\<lparr>ee_request := \<lambda>_ _ _ _.
     HttpResponse 200 (Some (replicate 65535 (CHR ''a'') @ [CHR 0xC3, CHR 0xA9]))\<rparr>"

lemma long_output_panics:
  "execute long_output_env d (Http m u hs b t) = Inl (Panicked ''byte index is not a char boundary'')"
  by (simp add: execute_def execute_http_def long_output_env_def sample_exec_env_def truncate_panic_example)

theorem panic_kills_worker_witness:
  "\<exists>w'. worker_run sample_externals sample_config long_output_env
      (Busy (sample_job\<lparr>job_payload_of := Http ''GET'' ''u'' [] None 30\<rparr>)) (idle_world [sample_row 5 ''LEASED'' None]) =
        (Dead, w') \<and> w_active w' = 1"
proof -
  have "row_with_id 5 [sample_row 5 ''LEASED'' None] = Some (sample_row 5 ''LEASED'' None)"
    by (simp add: row_with_id_def)
  then show ?thesis
    using panic_kills_worker [of "idle_world [sample_row 5 ''LEASED'' None]" long_output_env sample_config
        "sample_job\<lparr>job_payload_of := Http ''GET'' ''u'' [] None 30\<rparr>" "Panicked ''byte index is not a char boundary''"
        "sample_row 5 ''LEASED'' None" sample_externals]
    by (simp add: long_output_panics sample_job_simps) (auto simp: idle_world_def)
qed

section \<open>The wait at shutdown\<close>

lemma drain_rounds_spec:
  "round \<le> drain_rounds active t round \<and>
   (active (drain_rounds active t round) = 0 \<or> t \<le> 100 * drain_rounds active t round) \<and>
   (\<forall>k. round \<le> k \<and> k < drain_rounds active t round \<longrightarrow> active k \<noteq> 0 \<and> 100 * k < t)"
proof (induction active t round rule: drain_rounds.induct)
  case (1 active t round)
  show ?case
  proof (cases "active round = 0 \<or> t \<le> 100 * round")
    case True
    then show ?thesis by (auto simp: drain_rounds.simps [of active t round])
  next
    case False
    then have eq: "drain_rounds active t round = drain_rounds active t (round + 1)"
      by (simp add: drain_rounds.simps [of active t round])
    have "k = round \<or> round + 1 \<le> k" if "round \<le> k" for k using that by linarith
    then show ?thesis using 1 False unfolding eq by (metis Suc_eq_plus1 Suc_leD not_le)
  qed
qed

text \<open>The wait at shutdown always ends: at the first reading that finds no running job, and otherwise
  at the first reading at or after the timeout, never later.\<close>

theorem wait_for_drain_ends:
  "let n = wait_for_drain cfg active in
   (active n = 0 \<or> 1000 * c_shutdown_timeout cfg \<le> 100 * n) \<and>
   (\<forall>k<n. active k \<noteq> 0 \<and> 100 * k < 1000 * c_shutdown_timeout cfg)"
  using drain_rounds_spec [of 0 active "1000 * c_shutdown_timeout cfg"]
  by (simp add: wait_for_drain_def Let_def)

theorem wait_for_drain_ends_witness:
  "wait_for_drain sample_config (\<lambda>n. 3 - n) = 3"
proof -
  let ?n = "wait_for_drain sample_config (\<lambda>n. 3 - n)"
  have n: "(3 - ?n = 0 \<or> 30000 \<le> 100 * ?n) \<and> (\<forall>k<?n. 3 - k \<noteq> 0 \<and> 100 * k < 30000)"
    using wait_for_drain_ends [of sample_config "\<lambda>n. 3 - n"] by (simp add: Let_def sample_config_def)
  then have "\<not> 3 < ?n" by fastforce
  with n show ?thesis by linarith
qed

end
