(* ===== verification/Api.thy ===== *)
theory Api
  imports Recurring
begin

text \<open>
  The HTTP API: \<open>src/api/error.rs\<close>, \<open>src/api/middleware/auth.rs\<close>, \<open>src/api/routes.rs\<close>,
  \<open>src/api/handlers/\<close> and the extractor of \<open>src/models/client.rs\<close>. A request arrives with its path
  parameters and its JSON body decoded; the framework answers itself where they do not decode.
\<close>

section \<open>Errors and replies\<close>

datatype api_error =
    Unauthorized
  | NotFound
  | BadRequest string
  | Conflict string
  | Internal error

datatype reply_body =
    JobBody job_response
  | ErrorBody string
  | TextBody string
  | HealthBody string string string
  | EmptyBody

record reply =
  rp_status :: nat
  rp_body :: reply_body

text \<open>\<open>into_response\<close>; the text of an internal error is an argument.\<close>

fun into_response :: "(error \<Rightarrow> string) \<Rightarrow> api_error \<Rightarrow> reply" where
  "into_response to_string Unauthorized = \<lparr>rp_status = 401, rp_body = ErrorBody ''unauthorized''\<rparr>"
| "into_response to_string NotFound = \<lparr>rp_status = 404, rp_body = ErrorBody ''not found''\<rparr>"
| "into_response to_string (BadRequest msg) = \<lparr>rp_status = 400, rp_body = ErrorBody msg\<rparr>"
| "into_response to_string (Conflict msg) = \<lparr>rp_status = 409, rp_body = ErrorBody msg\<rparr>"
| "into_response to_string (Internal e) = \<lparr>rp_status = 500, rp_body = ErrorBody (to_string e)\<rparr>"

text \<open>The operator \<open>?\<close> in a handler: an error of the repository or of \<open>recurring\<close> is \<open>Internal\<close>.\<close>

type_synonym 'a handler = "(api_error + 'a) io"

definition try_io :: "'a io \<Rightarrow> ('a \<Rightarrow> 'b handler) \<Rightarrow> 'b handler" where
  "try_io m k =
     bind_io (attempt m) (\<lambda>r. case r of Inl e \<Rightarrow> return_io (Inl (Internal e)) | Inr a \<Rightarrow> k a)"

section \<open>Handlers of jobs\<close>

definition create_job :: "externals \<Rightarrow> uuid \<Rightarrow> create_job_request \<Rightarrow> (nat \<times> job_response) handler" where
  "create_job x client req =
     (if req_idempotency_key req = []
      then return_io (Inl (BadRequest ''idempotency_key is required''))
      else
        try_io (get_by_idempotency_key x (req_idempotency_key req)) (\<lambda>existing.
        case existing of
          Some j \<Rightarrow> return_io (Inr (200, response_of_job j))
        | None \<Rightarrow>
            try_io
              (case req_recurrence req of
                 Some recurrence \<Rightarrow>
                   bind_io (create_recurring x client req recurrence)
                     (\<lambda>(template, inst). return_io inst)
               | None \<Rightarrow>
                   insert_job x client req False False None None None None QueueOnce None
                     (req_scheduled_at req))
              (\<lambda>j. then_io record_job_scheduled
                     (then_io notify_one (return_io (Inr (201, response_of_job j)))))))"

definition get_job :: "externals \<Rightarrow> uuid \<Rightarrow> uuid \<Rightarrow> job_response handler" where
  "get_job x client jid =
     try_io (get_job_by_id x jid client) (\<lambda>found.
     case found of
       None \<Rightarrow> return_io (Inl NotFound)
     | Some j \<Rightarrow> return_io (Inr (response_of_job j)))"

definition cancel_job :: "externals \<Rightarrow> uuid \<Rightarrow> uuid \<Rightarrow> unit handler" where
  "cancel_job x client jid =
     try_io (get_job_by_id x jid client) (\<lambda>found.
     case found of
       None \<Rightarrow> return_io (Inl NotFound)
     | Some j \<Rightarrow>
         if job_is_template j
         then try_io (cancel_template_and_instances jid client) (\<lambda>n.
              if n = 0 then return_io (Inl NotFound)
              else then_io notify_one (return_io (Inr ())))
         else try_io (cancel_job_row jid client) (\<lambda>cancelled.
              if \<not> cancelled then return_io (Inl (BadRequest ''only scheduled jobs can be cancelled''))
              else then_io notify_one (return_io (Inr ()))))"

definition patch_job :: "externals \<Rightarrow> uuid \<Rightarrow> uuid \<Rightarrow> patch_job_request \<Rightarrow> job_response handler" where
  "patch_job x client jid req =
     (if patch_cron_expr req = [] then return_io (Inl (BadRequest ''cron_expr is required''))
      else
        try_io (update_cron_expr jid client (patch_cron_expr req)) (\<lambda>updated.
        if \<not> updated then return_io (Inl NotFound)
        else
          try_io (get_job_by_id x jid client) (\<lambda>found.
          case found of
            None \<Rightarrow> return_io (Inl NotFound)
          | Some j \<Rightarrow> then_io notify_one (return_io (Inr (response_of_job j))))))"

section \<open>Health\<close>

definition ping :: "unit io" where
  "ping = statement (\<lambda>_ _ t. Inr ((), t))"

definition health :: "reply io" where
  "health =
     bind_io (attempt ping) (\<lambda>r w.
       (let db_ok = (case r of Inl _ \<Rightarrow> False | Inr _ \<Rightarrow> True);
            scheduler_ok = w_alive w;
            up = (\<lambda>b. if b then ''up'' else ''down'')
        in if db_ok \<and> scheduler_ok
           then (Inr \<lparr>rp_status = 200, rp_body = HealthBody ''ok'' ''up'' ''up''\<rparr>, w)
           else (Inr \<lparr>rp_status = 503, rp_body = HealthBody ''degraded'' (up db_ok) (up scheduler_ok)\<rparr>, w)))"

section \<open>Authentication\<close>

text \<open>\<open>AuthState\<close>: a map from API keys to clients; a later pair of the same key replaces an earlier
  one.\<close>

type_synonym api_keys = "string \<Rightarrow> uuid option"

definition load_auth_state :: "api_keys io" where
  "load_auth_state =
     bind_io load_api_keys (\<lambda>rows.
     return_io (fold (\<lambda>(api_key, client_id) keys. keys(api_key \<mapsto> client_id)) rows Map.empty))"

text \<open>The header \<open>X-API-Key\<close> is \<open>None\<close> when it is missing or is not visible ASCII.\<close>

definition require_api_key :: "api_keys \<Rightarrow> string option \<Rightarrow> (uuid \<Rightarrow> reply io) \<Rightarrow> reply io" where
  "require_api_key keys header next_handler =
     (case header of
        None \<Rightarrow> return_io \<lparr>rp_status = 401, rp_body = TextBody ''missing X-API-Key header''\<rparr>
      | Some key \<Rightarrow>
          (case keys key of
             None \<Rightarrow> return_io \<lparr>rp_status = 401, rp_body = TextBody ''invalid API key''\<rparr>
           | Some client_id \<Rightarrow> next_handler client_id))"

text \<open>The extractor of \<open>AuthorizedClient\<close>: the extension the middleware inserted, or status 401.\<close>

definition from_request_parts :: "uuid option \<Rightarrow> nat + uuid" where
  "from_request_parts extension = (case extension of None \<Rightarrow> Inl 401 | Some c \<Rightarrow> Inr c)"

section \<open>Routes\<close>

datatype endpoint =
    PostJobs create_job_request
  | GetJob uuid
  | DeleteJob uuid
  | PatchJob uuid patch_job_request
  | GetMetrics
  | GetHealth

definition reply_of :: "(error \<Rightarrow> string) \<Rightarrow> ('a \<Rightarrow> reply) \<Rightarrow> 'a handler \<Rightarrow> reply io" where
  "reply_of to_string f h =
     bind_io h (\<lambda>r. case r of
       Inl e \<Rightarrow> return_io (into_response to_string e)
     | Inr a \<Rightarrow> return_io (f a))"

text \<open>\<open>render\<close> is the text the exporter gives to the metrics.\<close>

definition metrics_handler :: "(metrics \<Rightarrow> string) \<Rightarrow> reply io" where
  "metrics_handler render = (\<lambda>w. (Inr \<lparr>rp_status = 200, rp_body = TextBody (render (w_metrics w))\<rparr>, w))"

lemma metrics_handler_run [simp]:
  "metrics_handler render w = (Inr \<lparr>rp_status = 200, rp_body = TextBody (render (w_metrics w))\<rparr>, w)"
  by (simp add: metrics_handler_def)

text \<open>The handlers behind the middleware.\<close>

fun protected_handler ::
  "externals \<Rightarrow> (error \<Rightarrow> string) \<Rightarrow> (metrics \<Rightarrow> string) \<Rightarrow> endpoint \<Rightarrow> uuid \<Rightarrow> reply io" where
  "protected_handler x to_string render (PostJobs req) client =
     reply_of to_string (\<lambda>(status, r). \<lparr>rp_status = status, rp_body = JobBody r\<rparr>) (create_job x client req)"
| "protected_handler x to_string render (GetJob jid) client =
     reply_of to_string (\<lambda>r. \<lparr>rp_status = 200, rp_body = JobBody r\<rparr>) (get_job x client jid)"
| "protected_handler x to_string render (DeleteJob jid) client =
     reply_of to_string (\<lambda>_. \<lparr>rp_status = 204, rp_body = EmptyBody\<rparr>) (cancel_job x client jid)"
| "protected_handler x to_string render (PatchJob jid req) client =
     reply_of to_string (\<lambda>r. \<lparr>rp_status = 200, rp_body = JobBody r\<rparr>) (patch_job x client jid req)"
| "protected_handler x to_string render GetMetrics client = metrics_handler render"
| "protected_handler x to_string render GetHealth client = health"

definition serve ::
  "externals \<Rightarrow> (error \<Rightarrow> string) \<Rightarrow> (metrics \<Rightarrow> string) \<Rightarrow> api_keys \<Rightarrow> string option \<Rightarrow> endpoint \<Rightarrow> reply io" where
  "serve x to_string render keys header e =
     (if e = GetHealth then health
      else require_api_key keys header (\<lambda>client.
        case from_request_parts (Some client) of
          Inl status \<Rightarrow> return_io \<lparr>rp_status = status, rp_body = EmptyBody\<rparr>
        | Inr c \<Rightarrow> protected_handler x to_string render e c))"

section \<open>The API writes by the program's statements, and sends no webhook\<close>

text \<open>A request has every effect that the handlers and the ping of the database have.\<close>

context effect_core begin

lemma try_io: "keeps R m \<Longrightarrow> (\<And>a. keeps R (k a)) \<Longrightarrow> keeps R (try_io m k)"
  unfolding try_io_def by (intro core_composition keeps_cases)

lemma ping: "keeps R ping"
  unfolding ping_def by (rule reading) simp

lemma health: "keeps R health"
proof (rule keepsI)
  fix w
  have "snd (health w) = snd (ping w)"
    by (simp add: health_def bind_io_def attempt_def Let_def split: prod.split sum.split error.split)
  then show "R w (snd (health w))" using keepsD [OF ping] by simp
qed

lemma serve:
  assumes "\<And>c req. keeps R (create_job x c req)" "\<And>c i. keeps R (get_job x c i)"
    "\<And>c i. keeps R (cancel_job x c i)" "\<And>c i p. keeps R (patch_job x c i p)"
  shows "keeps R (serve x s r keys h e)"
proof -
  have render: "keeps R (metrics_handler r)" by (simp add: keeps_def refl)
  have "keeps R (protected_handler x s r e c)" for c
    by (cases e) (auto simp: reply_of_def intro!: bind keeps_cases return render health assms)
  then show ?thesis
    unfolding serve_def require_api_key_def from_request_parts_def
    by (intro keeps_if keeps_cases return health)
qed

end

text \<open>An effect that does not look at the table holds of every request when it holds of the counting.\<close>

context table_blind begin

lemma requests:
  assumes "keeps R refresh_metrics" "keeps R record_recurring_instance_created" "keeps R record_job_scheduled"
  shows "keeps R (create_job x c req)" "keeps R (get_job x c i)" "keeps R (cancel_job x c i)" "keeps R (patch_job x c i p)"
  unfolding create_job_def get_job_def cancel_job_def patch_job_def
  by (intro core_composition keeps_if keeps_cases try_io methods recurring assms)+

end

lemmas [effect_intro] = sql.try_io posts.try_io pool.try_io

lemma sql_only_handlers [effect_intro]:
  "sql_only (create_job x c req)" "sql_only (get_job x c i)" "sql_only (cancel_job x c i)"
  "sql_only (patch_job x c i p)"
  unfolding create_job_def get_job_def cancel_job_def patch_job_def record_job_scheduled_def
  by (intro effect_intro)+

lemmas [effect_intro] = sql.ping posts.ping pool.ping
  posts_db.requests [OF posts.refreshing posts.recorders(12,1)]
  pool_db.requests [OF pool.refreshing pool.recorders(12,1)]

lemma serve_effects [effect_intro]:
  "sql_only (serve x s r keys h e)" "no_posts (serve x s r keys h e)" "leaves_pool (serve x s r keys h e)"
  by (intro sql.serve posts.serve pool.serve effect_intro)+

section \<open>Authentication\<close>

lemma fold_keys:
  "fold (\<lambda>(k, c) keys. keys(k \<mapsto> c)) rows m key = Some c \<Longrightarrow> (key, c) \<in> set rows \<or> m key = Some c"
  by (induction rows arbitrary: m) (fastforce split: if_splits)+

lemma load_auth_state_keys:
  assumes "load_auth_state w = (Inr keys, w')" "keys key = Some c"
  shows "(key, c) \<in> set (w_clients w)"
proof -
  have "keys = fold (\<lambda>(k, c) keys. keys(k \<mapsto> c)) (w_clients w) Map.empty"
    using assms(1)
    by (auto simp: load_auth_state_def load_api_keys_def bind_io_def statement_def return_io_def
        split: delivery.splits)
  then show ?thesis using assms(2) fold_keys by fastforce
qed



section \<open>Tenants\<close>

lemma first_row_Some: "first_row rows = Some r \<Longrightarrow> r \<in> set rows"
  by (cases rows) (auto simp: first_row_def)

lemma select_result:
  assumes "select p w = (res, w')"
  shows "w_jobs w' = w_jobs w" "\<And>rows. res = Inr rows \<Longrightarrow> rows = filter p (w_jobs w)"
  using assms by (auto simp: select_def statement_def split: delivery.splits)

lemma get_job_by_id_found:
  assumes "get_job_by_id x i c w = (res, w')"
  shows "w_jobs w' = w_jobs w"
    "\<And>j. res = Inr (Some j) \<Longrightarrow> \<exists>p\<in>set (w_jobs w). row_id p = i \<and> row_client_id p = Some c \<and>
       from_row (x_from_value x) p = Inr j"
proof -
  obtain r1 w1 where s: "select (\<lambda>r. row_id r = i \<and> row_client_id r = Some c) w = (r1, w1)" by fastforce
  note sel = select_result [OF s]
  have eq: "get_job_by_id x i c w = (case r1 of Inl e \<Rightarrow> (Inl e, w1) | Inr rows \<Rightarrow> (decoded x (first_row rows), w1))"
    using s by (simp add: get_job_by_id_def run split: sum.split)
  then show "w_jobs w' = w_jobs w" using assms sel(1) by (auto split: sum.splits)
  fix j assume j: "res = Inr (Some j)"
  then obtain rows where rows: "r1 = Inr rows" "decoded x (first_row rows) = Inr (Some j)"
    using eq assms by (auto split: sum.splits)
  then obtain p where "first_row rows = Some p" "from_row (x_from_value x) p = Inr j"
    by (auto simp: decoded_def split: option.splits sum.splits)
  with first_row_Some [of rows p] sel(2) rows(1)
  show "\<exists>p\<in>set (w_jobs w). row_id p = i \<and> row_client_id p = Some c \<and> from_row (x_from_value x) p = Inr j"
    by auto
qed

text \<open>A computation that keeps a given row in the table as it is.\<close>

definition row_effect :: "job_row \<Rightarrow> effect" where
  "row_effect r w w' \<longleftrightarrow> (r \<in> set (w_jobs w) \<longrightarrow> r \<in> set (w_jobs w'))"

interpretation row: effect_order "row_effect r" for r
  by unfold_locales (simp_all add: row_effect_def)

lemmas [effect_intro] = row.composition

abbreviation keeps_row :: "job_row \<Rightarrow> 'a io \<Rightarrow> bool" where
  "keeps_row r \<equiv> keeps (row_effect r)"

lemma keeps_row_statement:
  assumes "\<And>ev cl t a t'. q ev cl t = Inr (a, t') \<Longrightarrow> r \<in> set t \<Longrightarrow> r \<in> set t'"
  shows "keeps_row r (statement q)"
  by (rule row.statement) (use assms in \<open>auto simp: row_effect_def\<close>)

lemmas [effect_intro] = row.try_io

lemma keeps_row_update: "(\<And>ev. \<not> p ev r) \<Longrightarrow> keeps_row r (update p g)"
  unfolding update_def by (rule keeps_row_statement) (force simp: set_update_where)

lemmas [effect_intro] = row.recorders row.queries row.reads row.lift_result row.refreshing

lemma keeps_row_insert [effect_intro]:
  "keeps_row r (insert_job x c req tmpl recur cron nxt mx en pol par at)"
  "keeps_row r (insert_instance x j at key)"
proof -
  show i: "keeps_row r (insert_job x c req tmpl recur cron nxt mx en pol par at)"
    for c req tmpl recur cron nxt mx en pol par at
    unfolding insert_job_def
    by (intro effect_intro keeps_row_statement) (auto simp: Let_def split: sum.splits dest: insert_row_InrD(1))
  show "keeps_row r (insert_instance x j at key)" unfolding insert_instance_def Let_def by (rule i)
qed

lemma keeps_row_create [effect_intro]: "keeps_row r (create_job x c req)"
  unfolding create_job_def create_recurring_def by (intro effect_intro)

lemma keeps_row_patch: "row_client_id r \<noteq> Some c \<Longrightarrow> keeps_row r (patch_job x c i p)"
  unfolding patch_job_def update_cron_expr_def
  by (intro effect_intro keeps_row_statement)
    (force simp: Let_def set_update_where cron_where_def split: if_splits)

text \<open>A row that is neither of the client nor an instance of one of the client's rows.\<close>

definition foreign :: "uuid \<Rightarrow> table \<Rightarrow> job_row \<Rightarrow> bool" where
  "foreign c t r \<longleftrightarrow> row_client_id r \<noteq> Some c \<and>
     \<not> (\<exists>p\<in>set t. row_parent_job_id r = Some (row_id p) \<and> row_client_id p = Some c)"

lemma cancel_keeps_foreign:
  assumes "r \<in> set (w_jobs w)" "foreign c (w_jobs w) r"
  shows "r \<in> set (w_jobs (snd (cancel_job x c i w)))"
proof -
  obtain res w1 where g: "get_job_by_id x i c w = (res, w1)" by fastforce
  note found = get_job_by_id_found [OF g]
  have cl: "row_client_id r \<noteq> Some c" using assms(2) by (simp add: foreign_def)
  have row: "keeps_row r (cancel_job_row i c)"
    unfolding cancel_job_row_def
    by (intro effect_intro keeps_row_update) (use cl in \<open>auto simp: cancel_where_def\<close>)
  have inst: "keeps_row r (cancel_template_and_instances i c)" if "row_parent_job_id r \<noteq> Some i"
    unfolding cancel_template_and_instances_def
    by (intro effect_intro keeps_row_update)
      (use cl that in \<open>auto simp: cancel_template_where_def cancel_instances_where_def\<close>)
  define rest where "rest = (\<lambda>found :: job option. case found of
       None \<Rightarrow> return_io (Inl NotFound)
     | Some j \<Rightarrow>
         if job_is_template j
         then try_io (cancel_template_and_instances i c) (\<lambda>n.
              if n = 0 then return_io (Inl NotFound)
              else then_io notify_one (return_io (Inr ())))
         else try_io (cancel_job_row i c) (\<lambda>cancelled.
              if \<not> cancelled then return_io (Inl (BadRequest ''only scheduled jobs can be cancelled''))
              else then_io notify_one (return_io (Inr ()))))"
  have eq: "snd (cancel_job x c i w) = (case res of Inl e \<Rightarrow> w1 | Inr f \<Rightarrow> snd (rest f w1))"
    using g by (simp add: cancel_job_def try_io_def run rest_def split: sum.split error.split)
  have "keeps_row r (rest f)" if "res = Inr f" for f
  proof (cases f)
    case None
    then show ?thesis by (simp add: rest_def row.return)
  next
    case (Some j)
    then have "row_parent_job_id r \<noteq> Some i" using found(2) that assms(2) by (fastforce simp: foreign_def)
    then show ?thesis unfolding Some rest_def option.case by (intro effect_intro row inst)
  qed
  then show ?thesis using eq found(1) assms(1) by (auto simp: keeps_def row_effect_def split: sum.split)
qed

lemma keeps_row_serve:
  assumes "r \<in> set (w_jobs w)" "foreign c (w_jobs w) r"
  shows "r \<in> set (w_jobs (snd (protected_handler x s rd e c w)))"
proof -
  have cl: "row_client_id r \<noteq> Some c" using assms(2) by (simp add: foreign_def)
  have reply: "snd (reply_of s f h w) = snd (h w)" for f :: "'b \<Rightarrow> reply" and h
    by (simp add: reply_of_def run split: prod.split sum.split)
  have "keeps_row r health" by (rule row.health)
  moreover have "keeps_row r (get_job x c i)" for i unfolding get_job_def by (intro effect_intro)
  ultimately show ?thesis
    using assms cancel_keeps_foreign [OF assms] keeps_row_create keeps_row_patch [OF cl]
    by (cases e) (simp_all add: reply keeps_def row_effect_def)
qed

text \<open>C17: Whatever a client requests and whatever the environment does, the row of another client stays in
  the table exactly as it is, unless it is an instance of a template of the requesting client.\<close>

theorem clients_change_own_rows_only:
  assumes "r \<in> set (w_jobs w)" "foreign c (w_jobs w) r" "keys key = Some c"
  shows "r \<in> set (w_jobs (snd (serve x to_string render keys (Some key) e w)))"
proof (cases "e = GetHealth")
  case True
  then show ?thesis
    using keeps_row_serve [OF assms(1,2), of x to_string render GetHealth] by (simp add: serve_def)
next
  case False
  then show ?thesis
    using keeps_row_serve [OF assms(1,2), of x to_string render e] assms(3)
    by (simp add: serve_def require_api_key_def from_request_parts_def)
qed

theorem clients_change_own_rows_only_witness:
  "sample_row 5 ''SCHEDULED'' None \<in> set (w_jobs (snd (serve sample_externals (\<lambda>_. []) (\<lambda>_. [])
     [''k2'' \<mapsto> 2] (Some ''k2'') (DeleteJob 5) (idle_world [sample_row 5 ''SCHEDULED'' None]))))"
  by (rule clients_change_own_rows_only [where c = 2])
    (simp_all add: foreign_def sample_row_def new_row_def)

text \<open>A job is shown only to its owner: when \<open>GET\<close> answers with a job, the job is decoded from a row
  with that id that belongs to the requesting client.\<close>

theorem get_job_shows_own_job:
  assumes "get_job x c i w = (Inr (Inr resp), w')"
  shows "\<exists>r\<in>set (w_jobs w). row_id r = i \<and> row_client_id r = Some c \<and>
    (\<exists>j. from_row (x_from_value x) r = Inr j \<and> resp = response_of_job j) \<and> w_jobs w' = w_jobs w"
proof -
  obtain res w1 where g: "get_job_by_id x i c w = (res, w1)" by fastforce
  obtain j where "res = Inr (Some j)" "resp = response_of_job j" "w' = w1"
    using assms g by (auto simp: get_job_def try_io_def run split: sum.splits option.splits error.splits)
  then show ?thesis using get_job_by_id_found [OF g] by blast
qed

lemma get_sample_run:
  "\<exists>resp. get_job sample_externals 1 5 (idle_world [sample_row 5 ''SCHEDULED'' None]) =
     (Inr (Inr resp), tick (idle_world [sample_row 5 ''SCHEDULED'' None]))"
proof -
  obtain j where "from_row (x_from_value sample_externals) (sample_row 5 ''SCHEDULED'' None) = Inr j"
    using decode_sample_row [of 5 Scheduled None] by auto
  moreover have "row_id (sample_row 5 ''SCHEDULED'' None) = 5" "row_client_id (sample_row 5 ''SCHEDULED'' None) = Some 1"
    by (simp_all add: sample_row_def new_row_def)
  ultimately show ?thesis
    by (simp add: get_job_def try_io_def run decoded_def)
qed

theorem get_job_shows_own_job_witness:
  "\<exists>resp. get_job sample_externals 1 5 (idle_world [sample_row 5 ''SCHEDULED'' None]) =
      (Inr (Inr resp), tick (idle_world [sample_row 5 ''SCHEDULED'' None])) \<and>
    (\<exists>r\<in>set [sample_row 5 ''SCHEDULED'' None]. row_id r = 5 \<and> row_client_id r = Some 1)"
proof -
  obtain resp where g: "get_job sample_externals 1 5 (idle_world [sample_row 5 ''SCHEDULED'' None]) =
      (Inr (Inr resp), tick (idle_world [sample_row 5 ''SCHEDULED'' None]))" using get_sample_run by blast
  from get_job_shows_own_job [OF g] g show ?thesis by auto
qed

section \<open>Creating jobs\<close>

definition one_off_row :: "event \<Rightarrow> uuid \<Rightarrow> create_job_request \<Rightarrow> json \<Rightarrow> job_row" where
  "one_off_row ev c req v =
     new_row (ev_uuid ev) (ev_now ev) (req_idempotency_key req) c v ''SCHEDULED'' (req_scheduled_at req)
       (req_expires_at req) (req_max_retries req) (req_retry_delay_sec req) (req_webhook_url req)
       False None None None None None ''queue_once'' False"

lemma create_job_replay:
  assumes "quiet w" "req_idempotency_key req \<noteq> []"
    and "List.find (\<lambda>r. row_idempotency_key r = req_idempotency_key req) (w_jobs w) = Some r"
    and "from_row (x_from_value x) r = Inr j"
  shows "create_job x c req w = (Inr (Inr (200, response_of_job j)), tick w)"
  using assms by (simp add: create_job_def try_io_def run decoded_def)

lemma create_job_created:
  assumes "quiet w" "codec_ok x" "payload_ok (req_payload req)" "req_recurrence req = None"
    and "create_job x c req w = (Inr (Inr (201, resp)), w1)"
  obtains v r j where "x_from_value x v = Some (req_payload req)" "r = one_off_row (current_event (tick w)) c req v"
    "insert_row (client_ids w) r (w_jobs w) = Inr (w_jobs w @ [r])"
    "List.find (\<lambda>r. row_idempotency_key r = req_idempotency_key req) (w_jobs w) = None"
    "from_row (x_from_value x) r = Inr j" "resp = response_of_job j"
    "w1 = (tick (tick w))\<lparr>w_jobs := w_jobs w @ [r],
       w_metrics := (w_metrics w)\<lparr>m_scheduled := Suc (m_scheduled (w_metrics w))\<rparr>, w_permit := True\<rparr>"
proof -
  let ?key = "req_idempotency_key req"
  have key: "?key \<noteq> []" using assms(5) by (auto simp: create_job_def)
  obtain v where v: "x_to_value x (req_payload req) = Some v" "x_from_value x v = Some (req_payload req)"
    using codec_okD(1) [OF assms(2,3)] by blast
  have none: "List.find (\<lambda>r. row_idempotency_key r = ?key) (w_jobs w) = None"
    using assms(1,5) key
    by (cases "List.find (\<lambda>r. row_idempotency_key r = ?key) (w_jobs w)")
      (auto simp: create_job_def try_io_def run decoded_def split: sum.splits)
  let ?r = "one_off_row (current_event (tick w)) c req v"
  have "row_state ?r = job_state_as_str Scheduled" "x_from_value x (row_payload ?r) \<noteq> None"
    using v by (simp_all add: one_off_row_def new_row_def)
  then obtain j where j: "from_row (x_from_value x) ?r = Inr j" "decode_row x ?r = return_io j"
    using decode_row_total by blast
  have ins: "insert_job x c req False False None None None None QueueOnce None (req_scheduled_at req) (tick w) =
      (case insert_row (client_ids w) ?r (w_jobs w) of
         Inl e \<Rightarrow> (Inl (Sqlx e), tick (tick w)) | Inr t \<Rightarrow> (Inr j, (tick (tick w))\<lparr>w_jobs := t\<rparr>))"
    using v(1) assms(1) j(2) by (simp add: run Let_def one_off_row_def split: sum.split)
  then obtain t where t: "insert_row (client_ids w) ?r (w_jobs w) = Inr t" "resp = response_of_job j"
    "w1 = (tick (tick w))\<lparr>w_jobs := t,
       w_metrics := (w_metrics w)\<lparr>m_scheduled := Suc (m_scheduled (w_metrics w))\<rparr>, w_permit := True\<rparr>"
    using assms(1,4,5) key none
    by (cases "insert_row (client_ids w) ?r (w_jobs w)")
      (auto simp: create_job_def try_io_def run decoded_def record_job_scheduled_def)
  moreover have "t = w_jobs w @ [?r]" using insert_row_InrD(1) [OF t(1)] .
  ultimately show ?thesis using that [OF v(2) refl _ none j(1)] by simp
qed


lemma create_sample:
  "\<exists>resp w1. create_job sample_externals 1 sample_request (idle_world []) = (Inr (Inr (201, resp)), w1)"
proof -
  have "map_sum (\<lambda>_. ()) (map_sum (\<lambda>_. ()) fst) (fst (create_job sample_externals 1 sample_request (idle_world []))) =
      Inr (Inr 201)" by code_simp
  then show ?thesis
    by (cases "create_job sample_externals 1 sample_request (idle_world [])";
        cases "fst (create_job sample_externals 1 sample_request (idle_world []))";
        cases "projr (fst (create_job sample_externals 1 sample_request (idle_world [])))") auto
qed


section \<open>Creating recurring jobs\<close>

definition recurring_request :: create_job_request where
  "recurring_request = sample_request\<lparr>req_recurrence := Some sample_recurrence\<rparr>"

definition status_and_id :: "((error + (api_error + nat \<times> job_response)) \<times> world) \<Rightarrow> (nat \<times> uuid) option" where
  "status_and_id r = (case fst r of Inr (Inr (s, resp)) \<Rightarrow> Some (s, resp_id resp) | _ \<Rightarrow> None)"

text \<open>For a recurring job the replay of a request answers with another job than the request did: the
  first answer is the first instance (201), the second one the template (200), because the key of the
  request is the template's. Nothing is added by the replay.\<close>

theorem recurring_replay_answers_template:
  "let (r1, w1) = create_job sample_externals 1 recurring_request (idle_world []);
       (r2, w2) = create_job sample_externals 1 recurring_request w1
   in status_and_id (r1, w1) = Some (201, 102) \<and> status_and_id (r2, w2) = Some (200, 101) \<and>
      map row_id (w_jobs w1) = [101, 102] \<and> map row_is_template (w_jobs w1) = [True, False] \<and>
      map row_id (w_jobs w2) = [101, 102]"
  by code_simp

text \<open>The template and its first instance are not inserted in one transaction. When the second
  statement is lost the client gets an internal error, and every later attempt with the same key is
  answered with 200 although no instance exists: the recurring job never runs.\<close>

theorem recurring_create_loses_instance:
  "let (r1, w1) = create_job sample_externals 1 recurring_request (losing_world 2 []);
       (r2, w2) = create_job sample_externals 1 recurring_request w1
   in r1 = Inr (Inl (Internal (Sqlx ConnectionError))) \<and> status_and_id (r2, w2) = Some (200, 101) \<and>
      map row_is_template (w_jobs w2) = [True] \<and> instances 101 (w_jobs w2) = 0"
  by code_simp

section \<open>Cancelling\<close>

lemma no_scheduled_instances:
  "s \<in> set (update_where (cancel_instances_where i) (cancelled_set n) t) \<Longrightarrow>
   row_parent_job_id s = Some i \<Longrightarrow> row_state s \<noteq> ''SCHEDULED''"
  by (auto simp: set_update_where cancel_instances_where_def cancelled_set_def split: if_splits)

lemma cancel_template_run:
  assumes "quiet w"
  shows "\<exists>w' n1 n2. cancel_template_and_instances i c w =
      (Inr (count_where (cancel_template_where i c) (w_jobs w) +
            count_where (cancel_instances_where i) (update_where (cancel_template_where i c) (cancelled_set n1) (w_jobs w))), w') \<and>
    w_jobs w' = update_where (cancel_instances_where i) (cancelled_set n2)
      (update_where (cancel_template_where i c) (cancelled_set n1) (w_jobs w)) \<and> quiet w'"
  using assms by (auto simp: cancel_template_and_instances_def run)

lemma find_owned:
  "distinct (map row_id t) \<Longrightarrow> row_with_id i t = Some r \<Longrightarrow> row_client_id r = Some c \<Longrightarrow>
   List.find (\<lambda>r. row_id r = i \<and> row_client_id r = Some c) t = Some r"
  by (induction t) (auto simp: row_with_id_def split: if_splits dest!: find_SomeD)

text \<open>C36: After the owner has cancelled a template, its row is CANCELLED, none of its instances is
  SCHEDULED, and a later spawn for it (by an instance that was already running) adds nothing.\<close>

theorem cancelled_template_is_final:
  assumes "quiet w" "distinct (map row_id (w_jobs w))" "row_with_id i (w_jobs w) = Some r"
    and "row_client_id r = Some c" "row_is_template r" "from_row (x_from_value x) r = Inr j"
  shows "\<exists>w'. cancel_job x c i w = (Inr (Inr ()), w') \<and>
    (\<exists>r'. row_with_id i (w_jobs w') = Some r' \<and> row_state r' = ''CANCELLED'') \<and>
    (\<forall>s\<in>set (w_jobs w'). row_parent_job_id s = Some i \<longrightarrow> row_state s \<noteq> ''SCHEDULED'') \<and>
    (\<forall>prev. w_jobs (snd (spawn_next_instance x i prev w')) = w_jobs w')"
proof -
  have f: "List.find (\<lambda>r. row_id r = i \<and> row_client_id r = Some c) (w_jobs w) = Some r"
    using assms(2,3,4) find_owned by blast
  obtain w1 n1 n2 where run_eq: "cancel_template_and_instances i c (tick w) =
      (Inr (count_where (cancel_template_where i c) (w_jobs w) +
            count_where (cancel_instances_where i) (update_where (cancel_template_where i c) (cancelled_set n1) (w_jobs w))), w1)"
    and t: "w_jobs w1 = update_where (cancel_instances_where i) (cancelled_set n2)
      (update_where (cancel_template_where i c) (cancelled_set n1) (w_jobs w))" and q: "quiet w1"
    using cancel_template_run [of "tick w" i c] assms(1) by auto
  have r: "r \<in> set (w_jobs w)" "row_id r = i" using row_with_id_SomeD [OF assms(3)] by simp_all
  then have "0 < count_where (cancel_template_where i c) (w_jobs w)"
    using assms(4,5) count_where_zero [of "cancel_template_where i c" "w_jobs w"]
    by (auto simp: cancel_template_where_def)
  then have run_all: "cancel_job x c i w = (Inr (Inr ()), w1\<lparr>w_permit := True\<rparr>)"
    using f assms(1,5,6) run_eq from_row_InrD(20) [OF assms(6)]
    by (simp add: cancel_job_def try_io_def run decoded_def)
  have ids: "row_id (cancelled_set n s) = row_id s" for n s by (simp add: cancelled_set_def)
  have row: "\<exists>r'. row_with_id i (w_jobs w1) = Some r' \<and> row_state r' = ''CANCELLED''"
    using assms(3-5) r by (simp add: t row_with_id_update ids cancel_template_where_def) (simp add: cancelled_set_def)
  then have dead: "case row_with_id i (w_jobs w1) of None \<Rightarrow> True
      | Some r \<Rightarrow> \<not> live_template r \<or> (\<exists>e. from_row (x_from_value x) r = Inl e)"
    by (auto simp: live_template_def)
  have "w_jobs (snd (spawn_next_instance x i prev (w1\<lparr>w_permit := True\<rparr>))) = w_jobs w1" for prev
    using spawn_dead_template [where w = "w1\<lparr>w_permit := True\<rparr>" and i = i and x = x and prev = prev] q dead by simp
  then show ?thesis using run_all row no_scheduled_instances by (force simp: t)
qed

lemma template_row_decodes: "\<exists>j. from_row (x_from_value sample_externals) sample_template = Inr j"
  using payload_roundtrip_lemma [of "Http ''GET'' ''u'' [] None 30"]
  by (simp add: from_row_def sample_template_def new_row_def sample_externals_def payload_ok_def
      int_limits job_state_from_str_def)

theorem cancelled_template_is_final_witness:
  "\<exists>w'. cancel_job sample_externals 1 7 (idle_world [sample_template, sample_first_instance]) = (Inr (Inr ()), w') \<and>
    (\<forall>prev. w_jobs (snd (spawn_next_instance sample_externals 7 prev w')) = w_jobs w')"
proof -
  obtain j where j: "from_row (x_from_value sample_externals) sample_template = Inr j"
    using template_row_decodes by blast
  have "row_with_id 7 [sample_template, sample_first_instance] = Some sample_template"
    "row_client_id sample_template = Some 1" "row_is_template sample_template"
    "distinct (map row_id [sample_template, sample_first_instance])"
    by (simp_all add: row_with_id_def sample_template_def sample_first_instance_def new_row_def)
  with cancelled_template_is_final [of "idle_world [sample_template, sample_first_instance]" 7 sample_template 1
      sample_externals j] j
  show ?thesis by auto
qed

text \<open>C37: A one-off job can be cancelled exactly as long as it is SCHEDULED: then its row becomes
  CANCELLED; in any other state the owner gets status 400 and nothing is written. A job that a worker
  has leased or runs cannot be stopped.\<close>

theorem cancel_only_scheduled:
  assumes "quiet w" "distinct (map row_id (w_jobs w))" "row_with_id i (w_jobs w) = Some r"
    and "row_client_id r = Some c" "\<not> row_is_template r" "from_row (x_from_value x) r = Inr j"
  shows "\<exists>w'. row_state r = ''SCHEDULED'' \<and> cancel_job x c i w = (Inr (Inr ()), w') \<and>
      (\<exists>n. row_with_id i (w_jobs w') = Some (cancelled_set n r)) \<or>
    row_state r \<noteq> ''SCHEDULED'' \<and>
      cancel_job x c i w = (Inr (Inl (BadRequest ''only scheduled jobs can be cancelled'')), w') \<and>
      w_jobs w' = w_jobs w"
proof -
  have f: "List.find (\<lambda>r. row_id r = i \<and> row_client_id r = Some c) (w_jobs w) = Some r"
    using assms(2,3,4) find_owned by blast
  have r: "r \<in> set (w_jobs w)" "row_id r = i" using row_with_id_SomeD [OF assms(3)] by simp_all
  have tm: "\<not> job_is_template j" using assms(5) from_row_InrD(20) [OF assms(6)] by simp
  have id: "row_id (cancelled_set n s) = row_id s" for n s by (simp add: cancelled_set_def)
  show ?thesis
  proof (cases "row_state r = ''SCHEDULED''")
    case True
    then have cw: "cancel_where i c r" using r assms(4) by (simp add: cancel_where_def)
    then have "0 < count_where (cancel_where i c) (w_jobs w)"
      using r count_where_zero [of "cancel_where i c" "w_jobs w"] by auto
    then show ?thesis
      using True f assms(1,3,6) tm cw
      by (simp add: cancel_job_def try_io_def run decoded_def row_with_id_update id) blast
  next
    case False
    have "\<not> cancel_where i c s" if "s \<in> set (w_jobs w)" for s
      using False only_row_with_id [OF assms(2,3) that] by (auto simp: cancel_where_def)
    then have "count_where (cancel_where i c) (w_jobs w) = 0" "update_where (cancel_where i c) g (w_jobs w) = w_jobs w" for g
      by (simp_all add: count_where_zero update_where_none)
    then show ?thesis
      using False f assms(1,6) tm by (simp add: cancel_job_def try_io_def run decoded_def)
  qed
qed

theorem cancel_only_scheduled_witness:
  "\<exists>w'. cancel_job sample_externals 1 5 (idle_world [sample_row 5 ''LEASED'' None]) =
     (Inr (Inl (BadRequest ''only scheduled jobs can be cancelled'')), w')"
proof -
  obtain j where j: "from_row (x_from_value sample_externals) (sample_row 5 ''LEASED'' None) = Inr j"
    using decode_sample_row [of 5 Leased None] by auto
  have r: "row_with_id 5 [sample_row 5 ''LEASED'' None] = Some (sample_row 5 ''LEASED'' None)"
    "row_client_id (sample_row 5 ''LEASED'' None) = Some 1" "\<not> row_is_template (sample_row 5 ''LEASED'' None)"
    "row_state (sample_row 5 ''LEASED'' None) = ''LEASED''"
    by (simp_all add: row_with_id_def sample_row_def new_row_def)
  from cancel_only_scheduled [OF quiet_idle_world [of "[sample_row 5 ''LEASED'' None]"] _ _ r(2,3) j] r
  show ?thesis by auto
qed

text \<open>No request sends a webhook, in any environment: a job that a client cancels reaches the terminal
  state CANCELLED without its callback.\<close>

theorem api_sends_no_webhook:
  "w_posts (snd (serve x to_string render keys header e w)) = w_posts w"
  using serve_effects(2) [of x to_string render keys header e] by (simp add: keeps_def posts_effect_def)

section \<open>Changing a cron expression\<close>

definition strict_externals :: externals where
  "strict_externals = sample_externals\<lparr>x_cron := \<lambda>s. if s = ''bad'' then None else Some (\<lambda>t. Some (t + seconds 60))\<rparr>"

text \<open>A new cron expression is stored without being parsed: the client gets its job back with status
  200, and the next spawn of the template fails.\<close>

theorem patch_accepts_unparsable_cron:
  "let (r1, w1) = patch_job strict_externals 1 7 \<lparr>patch_cron_expr = ''bad''\<rparr> (idle_world [sample_template])
   in map_sum (\<lambda>_. ()) (map_sum (\<lambda>_. ()) resp_cron_expr) r1 = Inr (Inr (Some ''bad'')) \<and>
      fst (spawn_next_instance strict_externals 7 0 w1) = Inl CronSyntax"
  by code_simp

end
