(* ===== verification/Job_Flow.thy ===== *)
theory Job_Flow
  imports Jobs_Table
begin

text \<open>
  An abstract machine of the jobs in flight: the one the scheduler has leased and not yet sent, those
  in the channel, those the workers hold. Its steps are single database statements and single
  operations on the channel, taken by the scheduler, the workers, the reaper and the API in any
  order, so a run is any interleaving of the tasks of the daemon at their suspension points. The
  theory \<open>Daemon\<close> shows that the detailed model of the tasks refines it.
\<close>

section \<open>The machine\<close>

text \<open>A worker holds no job, has received a job that is not yet marked RUNNING, or runs one.\<close>

datatype slot = Free | Got uuid | Executing uuid

record flow =
  f_jobs :: table
  f_hand :: "uuid option"
  f_queue :: "uuid list"
  f_slots :: "slot list"

text \<open>
  The statements that never touch a job in flight: creating, cancelling and changing jobs, the
  counters of a template, the columns of a webhook, and the completion of a template.
\<close>

inductive background_step :: "uuid list \<Rightarrow> table \<Rightarrow> table \<Rightarrow> bool" for clients where
  insert: "insert_row clients r t = Inr t' \<Longrightarrow> fresh_row r \<Longrightarrow> background_step clients t t'"
| cancel: "background_step clients t (update_where (cancel_where i c) (cancelled_set now) t)"
| cancel_template:
    "background_step clients t (update_where (cancel_template_where i c) (cancelled_set now) t)"
| cancel_instances:
    "background_step clients t (update_where (cancel_instances_where i) (cancelled_set now) t)"
| update_cron: "char_count e \<le> 100 \<Longrightarrow>
    background_step clients t (update_where (cron_where i c) (cron_set e now) t)"
| webhook_result: "background_step clients t (update_where (id_where i) (webhook_set ok n now) t)"
| increment: "background_step clients t (update_where (id_where i) (increment_set next_at now) t)"
| complete: "\<forall>r\<in>set t. row_id r = i \<longrightarrow> row_is_template r \<Longrightarrow>
    background_step clients t (update_where (id_where i) (completed_set now) t)"

text \<open>What the result handler does to the row of a job that has run.\<close>

definition ends_run :: "(job_row \<Rightarrow> job_row) \<Rightarrow> bool" where
  "ends_run g \<longleftrightarrow> (\<exists>now. g = completed_set now \<or> g = state_set Expired now \<or> g = state_set DeadLetter now \<or>
     (\<exists>at n. g = retry_set at n now))"

text \<open>\<open>cap\<close> is the size of the channel.\<close>

inductive flow_step :: "uuid list \<Rightarrow> nat \<Rightarrow> flow \<Rightarrow> flow \<Rightarrow> bool" for clients cap where
  lease: "f_hand s = None \<Longrightarrow> row_with_id i (f_jobs s) = Some r \<Longrightarrow> row_state r = ''SCHEDULED'' \<Longrightarrow>
    \<not> row_is_template r \<Longrightarrow>
    flow_step clients cap s (s\<lparr>f_jobs := update_where (lease_where i) (lease_set secs now) (f_jobs s), f_hand := Some i\<rparr>)"
| send: "f_hand s = Some i \<Longrightarrow> length (f_queue s) < cap \<Longrightarrow>
    flow_step clients cap s (s\<lparr>f_hand := None, f_queue := f_queue s @ [i]\<rparr>)"
| give_back: "f_hand s = Some i \<Longrightarrow>
    flow_step clients cap s (s\<lparr>f_jobs := update_where (id_where i) (retry_set at n now) (f_jobs s), f_hand := None\<rparr>)"
| drop: "f_hand s = Some i \<Longrightarrow> flow_step clients cap s (s\<lparr>f_hand := None\<rparr>)"
| receive: "f_queue s = i # is \<Longrightarrow> f_slots s = xs @ Free # ys \<Longrightarrow>
    flow_step clients cap s (s\<lparr>f_queue := is, f_slots := xs @ Got i # ys\<rparr>)"
| start: "f_slots s = xs @ Got i # ys \<Longrightarrow>
    flow_step clients cap s (s\<lparr>f_jobs := update_where (id_where i) (running_set now) (f_jobs s),
      f_slots := xs @ Executing i # ys\<rparr>)"
| finish: "f_slots s = xs @ Executing i # ys \<Longrightarrow> ends_run g \<Longrightarrow>
    flow_step clients cap s (s\<lparr>f_jobs := update_where (id_where i) g (f_jobs s), f_slots := xs @ Free # ys\<rparr>)"
| abandon: "f_slots s = xs @ k # ys \<Longrightarrow> flow_step clients cap s (s\<lparr>f_slots := xs @ Free # ys\<rparr>)"
| background: "background_step clients (f_jobs s) t \<Longrightarrow> flow_step clients cap s (s\<lparr>f_jobs := t\<rparr>)"

text \<open>A round of the reaper. It is timely when no job in flight has a lease that has ended.\<close>

definition reaped :: "time \<Rightarrow> flow \<Rightarrow> flow" where
  "reaped now s = s\<lparr>f_jobs := update_where (reap_where now) (released_set now) (f_jobs s)\<rparr>"

fun got :: "slot \<Rightarrow> uuid list" where
  "got (Got i) = [i]"
| "got k = []"

fun executing :: "slot \<Rightarrow> uuid list" where
  "executing (Executing i) = [i]"
| "executing k = []"

definition waiting_jobs :: "flow \<Rightarrow> uuid list" where
  "waiting_jobs s = (case f_hand s of None \<Rightarrow> [] | Some i \<Rightarrow> [i]) @ f_queue s @ concat (map got (f_slots s))"

definition running_jobs :: "flow \<Rightarrow> uuid list" where
  "running_jobs s = concat (map executing (f_slots s))"

definition in_flight :: "flow \<Rightarrow> uuid list" where
  "in_flight s = waiting_jobs s @ running_jobs s"

definition leases_hold :: "time \<Rightarrow> flow \<Rightarrow> bool" where
  "leases_hold now s \<longleftrightarrow> (\<forall>i\<in>set (in_flight s).
     case row_with_id i (f_jobs s) of None \<Rightarrow> True | Some r \<Rightarrow> \<not> reap_where now r)"

inductive timely_step :: "uuid list \<Rightarrow> nat \<Rightarrow> flow \<Rightarrow> flow \<Rightarrow> bool" for clients cap where
  other: "flow_step clients cap s s' \<Longrightarrow> timely_step clients cap s s'"
| reap: "leases_hold now s \<Longrightarrow> timely_step clients cap s (reaped now s)"

text \<open>The start: nothing is in flight.\<close>

definition flow_start :: "table \<Rightarrow> nat \<Rightarrow> flow" where
  "flow_start t n = \<lparr>f_jobs = t, f_hand = None, f_queue = [], f_slots = replicate n Free\<rparr>"

abbreviation timely_runs :: "uuid list \<Rightarrow> nat \<Rightarrow> flow \<Rightarrow> flow \<Rightarrow> bool" where
  "timely_runs clients cap \<equiv> (timely_step clients cap)\<^sup>*\<^sup>*"

inductive_cases reap_or_other: "timely_step clients cap s s'"

section \<open>The invariant\<close>

text \<open>The row of a job that is no template, in a given state.\<close>

definition in_state :: "string \<Rightarrow> table \<Rightarrow> uuid \<Rightarrow> bool" where
  "in_state st t i \<longleftrightarrow> (\<exists>r. row_with_id i t = Some r \<and> row_state r = st \<and> \<not> row_is_template r)"

definition flow_ok :: "flow \<Rightarrow> bool" where
  "flow_ok s \<longleftrightarrow> distinct (map row_id (f_jobs s)) \<and> distinct (in_flight s) \<and>
     list_all (in_state ''LEASED'' (f_jobs s)) (waiting_jobs s) \<and>
     list_all (in_state ''RUNNING'' (f_jobs s)) (running_jobs s)"

lemma in_state_unique: "in_state a t i \<Longrightarrow> in_state b t i \<Longrightarrow> a = b"
  by (auto simp: in_state_def)

text \<open>An update leaves a row it does not select, and moves one it selects.\<close>

lemma in_state_update:
  assumes "in_state st t i" "\<And>r. row_identity (g r) = row_identity r"
    and "\<And>r. row_with_id i t = Some r \<Longrightarrow> row_state r = st \<Longrightarrow> \<not> row_is_template r \<Longrightarrow> p r \<Longrightarrow> row_state (g r) = st"
  shows "in_state st (update_where p g t) i"
proof -
  obtain r where r: "row_with_id i t = Some r" "row_state r = st" "\<not> row_is_template r"
    using assms(1) by (auto simp: in_state_def)
  have "row_is_template (g r) = row_is_template r" using row_identityD(14) [OF assms(2)] .
  then show ?thesis
    using r assms(3) [OF r] row_with_id_update [of g i p t] row_identityD(1) [OF assms(2)]
    by (auto simp: in_state_def)
qed

lemma cron_identity: "row_identity (cron_set e now r) = row_identity r"
  by (simp add: sql_defs)

lemma keeps_state:
  "row_state (cron_set e now r) = row_state r" "row_state (webhook_set ok n now r) = row_state r"
  "row_state (increment_set next_at now r) = row_state r"
  by (simp_all add: sql_defs)

lemma background_in_state:
  assumes "background_step clients t t'" "in_state st t i" "st = ''LEASED'' \<or> st = ''RUNNING''"
  shows "in_state st t' i"
  using assms
proof (cases rule: background_step.cases)
  case (insert r)
  then show ?thesis using assms(2) row_with_id_insert by (fastforce simp: in_state_def)
next
  case (complete j now)
  then show ?thesis using assms(2)
    by (auto intro!: in_state_update simp: set_completed.keeps_identity id_where_def dest!: row_with_id_SomeD)
qed (auto intro!: in_state_update simp: cancel.keeps_identity cron_identity webhook_result.keeps_identity
    increment.keeps_identity cancel_where_def cancel_template_where_def cancel_instances_where_def keeps_state)

lemma background_sql_step: "background_step clients t t' \<Longrightarrow> sql_step clients t t'"
  by (cases rule: background_step.cases) (auto intro: sql_step.intros)

lemma sql_step_distinct_ids:
  assumes "sql_step clients t t'" "distinct (map row_id t)"
  shows "distinct (map row_id t')"
  using assms(1)
proof (cases rule: sql_step.cases)
  case (insert r)
  then show ?thesis using insert_row_InrD(1,3) [OF insert(1)] assms(2) by simp
qed (use assms(2) in \<open>simp_all add: lease.ids set_running.ids set_completed.ids set_state.ids schedule_retry.ids
    cancel.ids cancel_template.ids cancel_instances.ids reap.ids recover.ids webhook_result.ids increment.ids
    map_update_where cron_set_def\<close>)

text \<open>An update by the id of a job moves that job only.\<close>

lemma in_state_other:
  "in_state st t j \<Longrightarrow> j \<noteq> i \<Longrightarrow> (\<And>r. row_identity (g r) = row_identity r) \<Longrightarrow>
     in_state st (update_where (id_where i) g t) j"
  by (rule in_state_update) (auto simp: id_where_def dest: row_with_id_SomeD)

lemma in_state_moved:
  assumes "in_state st t i" "\<And>r. row_identity (g r) = row_identity r" "\<And>r. row_state (g r) = st'"
  shows "in_state st' (update_where (id_where i) g t) i"
proof -
  obtain r where r: "row_with_id i t = Some r" "\<not> row_is_template r" using assms(1) by (auto simp: in_state_def)
  then have "row_with_id i (update_where (id_where i) g t) = Some (g r)"
    using row_with_id_update [of g i "id_where i" t] row_identityD(1) [OF assms(2)]
    by (auto simp: id_where_def dest: row_with_id_SomeD)
  then show ?thesis using r(2) row_identityD(14) [OF assms(2), of r] assms(3) by (simp add: in_state_def)
qed

lemma ends_run_identity: "ends_run g \<Longrightarrow> row_identity (g r) = row_identity r"
  by (auto simp: ends_run_def sql_defs)

lemma ends_run_ids: "ends_run g \<Longrightarrow> map row_id (update_where p g t) = map row_id t"
  by (simp add: map_update_where row_identityD(1) [OF ends_run_identity])

lemmas flight_simps = in_flight_def waiting_jobs_def running_jobs_def

text \<open>Every job in flight is owned once, and its row says who owns it.\<close>

lemma leased_or_running: "flow_ok s \<Longrightarrow> i \<in> set (in_flight s) \<Longrightarrow>
    in_state ''LEASED'' (f_jobs s) i \<or> in_state ''RUNNING'' (f_jobs s) i"
  by (auto simp: flow_ok_def in_flight_def list_all_iff)

lemma flow_okI:
  assumes "distinct (map row_id (f_jobs s))" "distinct (in_flight s)"
    and "\<And>j. j \<in> set (waiting_jobs s) \<Longrightarrow> in_state ''LEASED'' (f_jobs s) j"
    and "\<And>j. j \<in> set (running_jobs s) \<Longrightarrow> in_state ''RUNNING'' (f_jobs s) j"
  shows "flow_ok s"
  using assms by (auto simp: flow_ok_def list_all_iff)

lemma flow_okD:
  assumes "flow_ok s"
  shows "distinct (map row_id (f_jobs s))" "distinct (in_flight s)"
    "j \<in> set (waiting_jobs s) \<Longrightarrow> in_state ''LEASED'' (f_jobs s) j"
    "j \<in> set (running_jobs s) \<Longrightarrow> in_state ''RUNNING'' (f_jobs s) j"
  using assms by (auto simp: flow_ok_def list_all_iff)

text \<open>The invariant depends on the table through the ids and the rows of the jobs in flight.\<close>

lemma flow_ok_frame:
  assumes "flow_ok s" "distinct (map row_id t)"
    and "\<And>j st. j \<in> set (in_flight s) \<Longrightarrow> st = ''LEASED'' \<or> st = ''RUNNING'' \<Longrightarrow>
      in_state st (f_jobs s) j \<Longrightarrow> in_state st t j"
  shows "flow_ok (s\<lparr>f_jobs := t\<rparr>)"
proof -
  have eq: "in_flight (s\<lparr>f_jobs := t\<rparr>) = in_flight s" "waiting_jobs (s\<lparr>f_jobs := t\<rparr>) = waiting_jobs s"
    "running_jobs (s\<lparr>f_jobs := t\<rparr>) = running_jobs s"
    by (simp_all add: flight_simps)
  show ?thesis
    using assms flow_okD [OF assms(1)] by (intro flow_okI) (auto simp: eq in_flight_def)
qed

text \<open>A job leaves the flight by an update of its row.\<close>

lemma flow_ok_leave:
  assumes "flow_ok s" "f_jobs s' = update_where (id_where i) g (f_jobs s)"
    and g: "\<And>r. row_identity (g r) = row_identity r"
    and "distinct (in_flight s')"
    and "set (waiting_jobs s') \<subseteq> set (waiting_jobs s) - {i}" "set (running_jobs s') \<subseteq> set (running_jobs s) - {i}"
  shows "flow_ok s'"
proof (rule flow_okI)
  show "distinct (map row_id (f_jobs s'))"
    using flow_okD(1) [OF assms(1)] by (simp add: assms(2) map_update_where row_identityD(1) [OF g])
qed (use assms flow_okD [OF assms(1)] in_state_other [OF _ _ g] in \<open>auto simp: subset_iff\<close>)

lemma flow_step_ok:
  assumes "flow_step clients cap s s'" "flow_ok s"
  shows "flow_ok s'"
  using assms(1)
proof (cases rule: flow_step.cases)
  case (lease i r secs now)
  have i: "in_state ''SCHEDULED'' (f_jobs s) i" using lease by (auto simp: in_state_def)
  then have new: "i \<notin> set (in_flight s)"
    using leased_or_running [OF assms(2)] in_state_unique by fastforce
  let ?t = "update_where (lease_where i) (lease_set secs now) (f_jobs s)"
  have keep: "in_state st ?t j" if "in_state st (f_jobs s) j" "st \<noteq> ''SCHEDULED''" for st j
    using that by (intro in_state_update) (auto simp: lease.keeps_identity lease_where_def)
  have "row_with_id i ?t = Some (lease_set secs now r)"
    using lease(3,4) row_with_id_update [of "lease_set secs now" i "lease_where i" "f_jobs s"]
    by (auto simp: lease.assign_id lease_where_def dest: row_with_id_SomeD)
  then have "in_state ''LEASED'' ?t i" using lease(5) by (simp add: in_state_def lease_set_def)
  then show ?thesis
    using lease(1,2) new keep flow_okD [OF assms(2)]
    by (intro flow_okI) (auto simp: flight_simps lease.ids)
next
  case (start xs i ys now)
  let ?t = "update_where (id_where i) (running_set now) (f_jobs s)"
  have other: "in_state st ?t j" if "in_state st (f_jobs s) j" "j \<noteq> i" for st j
    using that by (intro in_state_other) (auto simp: set_running.keeps_identity)
  have "in_state ''LEASED'' (f_jobs s) i"
    using flow_okD(3) [OF assms(2), of i] start(2) by (simp add: flight_simps)
  then have i: "in_state ''RUNNING'' ?t i"
    by (rule in_state_moved) (simp_all add: sql_defs)
  have "set (waiting_jobs s') = set (waiting_jobs s) - {i}" "set (running_jobs s') = insert i (set (running_jobs s))"
      "distinct (in_flight s')"
    using flow_okD(2) [OF assms(2)] start(1,2) by (auto simp: flight_simps)
  moreover have "i \<notin> set (running_jobs s)"
    using flow_okD(2) [OF assms(2)] start(2) by (auto simp: flight_simps)
  ultimately show ?thesis
    using flow_okD(1) [OF assms(2)] i other flow_okD(3,4) [OF assms(2)] start(1)
    by (intro flow_okI) (force simp: set_running.ids)+
next
  case (finish xs i ys g)
  show ?thesis
  proof (rule flow_ok_leave [OF assms(2), of _ i g])
    show "distinct (in_flight s')" "set (waiting_jobs s') \<subseteq> set (waiting_jobs s) - {i}"
      "set (running_jobs s') \<subseteq> set (running_jobs s) - {i}"
      using flow_okD(2) [OF assms(2)] finish(1,2) by (auto simp: flight_simps)
  qed (simp_all add: finish(1) ends_run_identity [OF finish(3)])
next
  case (give_back i at n now)
  show ?thesis
  proof (rule flow_ok_leave [OF assms(2), of _ i "retry_set at n now"])
    show "distinct (in_flight s')" "set (waiting_jobs s') \<subseteq> set (waiting_jobs s) - {i}"
      "set (running_jobs s') \<subseteq> set (running_jobs s) - {i}"
      using flow_okD(2) [OF assms(2)] give_back(1,2) by (auto simp: flight_simps)
  qed (simp_all add: give_back(1) schedule_retry.keeps_identity)
next
  case (abandon xs k ys)
  then show ?thesis using flow_okD [OF assms(2)] by (cases k) (auto intro!: flow_okI simp: flight_simps)
next
  case (background t)
  show ?thesis
    unfolding background(1)
    by (rule flow_ok_frame [OF assms(2) sql_step_distinct_ids [OF background_sql_step [OF background(2)]]])
      (use flow_okD(1) [OF assms(2)] background_in_state [OF background(2)] in auto)
qed (use flow_okD [OF assms(2)] in \<open>auto intro!: flow_okI simp: flight_simps\<close>)

lemma timely_step_ok:
  assumes "timely_step clients cap s s'" "flow_ok s"
  shows "flow_ok s'"
  using assms
proof (cases rule: timely_step.cases)
  case (reap now)
  then show ?thesis
    unfolding reap(1) reaped_def using assms(2)
    by (auto intro!: flow_ok_frame in_state_update simp: reap.keeps_identity reap.ids leases_hold_def split: option.splits)
      (simp add: flow_ok_def)
qed (auto intro: flow_step_ok)

interpretation ownership: kept_by "timely_step clients cap" flow_ok for clients cap
  by unfold_locales (rule timely_step_ok)

lemma flow_start_ok: "distinct (map row_id t) \<Longrightarrow> flow_ok (flow_start t n)"
  by (simp add: flow_ok_def flow_start_def flight_simps map_replicate_const)

section \<open>What follows for every interleaving\<close>

text \<open>C7: As long as every round of the reaper finds no job in flight whose lease has ended, no job is
  ever held twice: whatever the order of the steps of the scheduler, the workers, the reaper and the
  API, and whatever statements are lost, the jobs held by the scheduler, waiting in the channel and
  held by the workers are pairwise different, and the row of each says who holds it (LEASED while it
  waits, RUNNING while it runs).\<close>

theorem job_held_once:
  assumes "distinct (map row_id t)" "timely_runs clients cap (flow_start t n) s"
  shows "distinct (in_flight s) \<and>
    (\<forall>i\<in>set (waiting_jobs s). in_state ''LEASED'' (f_jobs s) i) \<and>
    (\<forall>i\<in>set (running_jobs s). in_state ''RUNNING'' (f_jobs s) i)"
  using flow_okD [OF ownership.steps [OF assms(2) flow_start_ok [OF assms(1)]]] by blast

text \<open>The life cycle of a job, as the documentation draws it; a failed run has no state of its own.\<close>

definition life_cycle :: "(string \<times> string) list" where
  "life_cycle =
     [(''SCHEDULED'', ''LEASED''), (''LEASED'', ''RUNNING''), (''RUNNING'', ''COMPLETED''),
      (''LEASED'', ''SCHEDULED''), (''RUNNING'', ''SCHEDULED''), (''RUNNING'', ''DEAD_LETTER''),
      (''RUNNING'', ''EXPIRED''), (''SCHEDULED'', ''CANCELLED'')]"

definition follows_life_cycle :: "job_row \<Rightarrow> job_row \<Rightarrow> bool" where
  "follows_life_cycle r r' \<longleftrightarrow> row_identity r' = row_identity r \<and>
     (\<not> row_is_template r \<longrightarrow> row_state r' = row_state r \<or> (row_state r, row_state r') \<in> set life_cycle)"

lemma followsI:
  "row_identity r' = row_identity r \<Longrightarrow>
     (\<not> row_is_template r \<Longrightarrow> row_state r' \<noteq> row_state r \<Longrightarrow> (row_state r, row_state r') \<in> set life_cycle) \<Longrightarrow>
   follows_life_cycle r r'"
  by (auto simp: follows_life_cycle_def)

lemma follows_refl: "follows_life_cycle r r"
  by (simp add: follows_life_cycle_def)

lemma follows_update:
  assumes "row_with_id i t = Some r" "\<And>r. row_identity (g r) = row_identity r"
    and "p r \<Longrightarrow> follows_life_cycle r (g r)"
  shows "\<exists>r'. row_with_id i (update_where p g t) = Some r' \<and> follows_life_cycle r r'"
  using assms row_with_id_update [of g i p t] row_identityD(1) [OF assms(2)]
  by (auto simp: follows_refl)

lemma in_state_row: "in_state st t i \<Longrightarrow> row_with_id i t = Some r \<Longrightarrow> row_state r = st"
  by (auto simp: in_state_def)

lemma moved_states:
  "row_state (lease_set secs now r) = ''LEASED''" "row_state (running_set now r) = ''RUNNING''"
  "row_state (retry_set at n now r) = ''SCHEDULED''" "row_state (released_set now r) = ''SCHEDULED''"
  "row_state (cancelled_set now r) = ''CANCELLED''"
  by (simp_all add: sql_defs)

lemma background_follows:
  assumes "background_step clients t t'" "row_with_id i t = Some r"
  shows "\<exists>r'. row_with_id i t' = Some r' \<and> follows_life_cycle r r'"
  using assms(1)
proof (cases rule: background_step.cases)
  case (insert r0)
  then show ?thesis using row_with_id_insert [OF insert(1) assms(2)] follows_refl by blast
qed (use assms(2) row_with_id_SomeD [OF assms(2)] in \<open>auto intro!: follows_update followsI
    simp: life_cycle_def cancel.keeps_identity cron_identity set_completed.keeps_identity
    webhook_result.keeps_identity increment.keeps_identity keeps_state id_where_def
    cancel_where_def cancel_template_where_def cancel_instances_where_def moved_states\<close>)

lemma moved_follows:
  assumes "row_with_id i t = Some r" "in_state st t j" "\<And>r. row_identity (g r) = row_identity r"
    and "\<And>r. row_state (g r) = st'" "(st, st') \<in> set life_cycle"
  shows "\<exists>r'. row_with_id i (update_where (id_where j) g t) = Some r' \<and> follows_life_cycle r r'"
proof (rule follows_update [OF assms(1,3)])
  assume "id_where j r"
  then have "row_state r = st" using assms(1,2) in_state_row row_with_id_SomeD [OF assms(1)] by (auto simp: id_where_def)
  then show "follows_life_cycle r (g r)" using assms(3-5) by (intro followsI) auto
qed

lemma timely_step_follows:
  assumes "timely_step clients cap s s'" "flow_ok s" "row_with_id i (f_jobs s) = Some r"
  shows "\<exists>r'. row_with_id i (f_jobs s') = Some r' \<and> follows_life_cycle r r'"
  using assms(1)
proof (cases rule: timely_step.cases)
  case (reap now)
  have "\<exists>r'. row_with_id i (update_where (reap_where now) (released_set now) (f_jobs s)) = Some r' \<and> follows_life_cycle r r'"
    by (rule follows_update [OF assms(3) reap.keeps_identity])
      (auto simp: life_cycle_def reap.keeps_identity reap_where_def moved_states intro!: followsI)
  then show ?thesis by (simp add: reap(1) reaped_def)
next
  case other
  then show ?thesis
  proof (cases rule: flow_step.cases)
    case (lease j r0 secs now)
    have "\<exists>r'. row_with_id i (update_where (lease_where j) (lease_set secs now) (f_jobs s)) = Some r' \<and> follows_life_cycle r r'"
      by (rule follows_update [OF assms(3) lease.keeps_identity])
        (auto simp: life_cycle_def lease.keeps_identity lease_where_def moved_states intro!: followsI)
    then show ?thesis by (simp add: lease(1))
  next
    case (give_back j at n now)
    have "in_state ''LEASED'' (f_jobs s) j"
      using give_back(2) flow_okD(3) [OF assms(2), of j] by (simp add: flight_simps)
    then show ?thesis unfolding give_back(1)
      using moved_follows [OF assms(3) _ schedule_retry.keeps_identity] by (simp add: moved_states life_cycle_def)
  next
    case (start xs j ys now)
    have "in_state ''LEASED'' (f_jobs s) j"
      using start(2) flow_okD(3) [OF assms(2), of j] by (simp add: flight_simps)
    then show ?thesis unfolding start(1)
      using moved_follows [OF assms(3) _ set_running.keeps_identity] by (simp add: moved_states life_cycle_def)
  next
    case (finish xs j ys g)
    have j: "in_state ''RUNNING'' (f_jobs s) j"
      using finish(2) flow_okD(4) [OF assms(2), of j] by (simp add: flight_simps)
    obtain st' where "\<And>r. row_state (g r) = st'" "(''RUNNING'', st') \<in> set life_cycle"
      using finish(3) by (auto simp: ends_run_def sql_defs life_cycle_def)
    then show ?thesis unfolding finish(1)
      using moved_follows [OF assms(3) j ends_run_identity [OF finish(3)]] by simp
  next
    case (background t)
    then show ?thesis using background_follows [OF background(2) assms(3)] by simp
  qed (use assms(3) follows_refl [of r] in simp_all)
qed


lemma terminal_stays:
  assumes "timely_runs clients cap s s'" "flow_ok s" "row_with_id i (f_jobs s) = Some r" "\<not> row_is_template r"
    and "job_state_from_str (row_state r) = Some st" "is_terminal st"
  shows "\<exists>r'. row_with_id i (f_jobs s') = Some r' \<and> row_state r' = row_state r \<and> row_identity r' = row_identity r"
  using assms(1)
proof (induction rule: rtranclp_induct)
  case base
  then show ?case using assms(3) by simp
next
  case (step u v)
  then obtain r1 where r1: "row_with_id i (f_jobs u) = Some r1" "row_state r1 = row_state r" "row_identity r1 = row_identity r"
    by blast
  obtain r2 where r2: "row_with_id i (f_jobs v) = Some r2" "follows_life_cycle r1 r2"
    using timely_step_follows [OF step(2) ownership.steps [OF step(1) assms(2)] r1(1)] by blast
  have "row_state r \<notin> {''SCHEDULED'', ''LEASED'', ''RUNNING''}"
    using assms(5,6) by (auto simp: job_state_from_str_def)
  then show ?case
    using r1 r2 assms(4) row_identityD(14) [OF r1(3)] by (auto simp: follows_life_cycle_def life_cycle_def)
qed

text \<open>A job that has reached a terminal state keeps it for ever, in every such interleaving.\<close>

theorem terminal_states_are_final:
  assumes "distinct (map row_id t)" "timely_runs clients cap (flow_start t n) s" "timely_runs clients cap s s'"
    and "row_with_id i (f_jobs s) = Some r" "\<not> row_is_template r"
    and "job_state_from_str (row_state r) = Some st" "is_terminal st"
  shows "\<exists>r'. row_with_id i (f_jobs s') = Some r' \<and> row_state r' = row_state r \<and> row_identity r' = row_identity r"
  by (rule terminal_stays [OF assms(3) ownership.steps [OF assms(2) flow_start_ok [OF assms(1)]] assms(4-7)])

section \<open>A run\<close>

definition queued_row :: "string \<Rightarrow> job_row" where
  "queued_row st = new_row 5 0 ''k'' 1 JNull st 0 None 3 60 None False None None None None None ''skip'' False"

definition leased_flow :: flow where
  "leased_flow = (flow_start [queued_row ''SCHEDULED''] 1)
     \<lparr>f_jobs := update_where (lease_where 5) (lease_set 30 0) [queued_row ''SCHEDULED''], f_hand := Some 5\<rparr>"

lemma queued_row_simps: "row_id (queued_row st) = 5" "row_state (queued_row st) = st"
    "\<not> row_is_template (queued_row st)" "row_with_id 5 [queued_row st] = Some (queued_row st)"
  by (simp_all add: queued_row_def new_row_def row_with_id_def)

lemma leased_flow_step: "timely_step [1] 2 (flow_start [queued_row ''SCHEDULED''] 1) leased_flow"
  unfolding leased_flow_def
  using flow_step.lease [of "flow_start [queued_row ''SCHEDULED''] 1" 5 "queued_row ''SCHEDULED''" "[1]" 2 30 0]
  by (intro timely_step.other) (simp add: flow_start_def queued_row_simps)

theorem job_held_once_witness:
  "in_flight leased_flow = [5] \<and> in_state ''LEASED'' (f_jobs leased_flow) 5"
  using job_held_once [of "[queued_row ''SCHEDULED'']" "[1]" 2 1 leased_flow] leased_flow_step
  by (auto simp: queued_row_simps leased_flow_def flow_start_def flight_simps)


theorem terminal_states_are_final_witness:
  "\<exists>r'. row_with_id 5 [queued_row ''COMPLETED''] = Some r' \<and> row_state r' = ''COMPLETED''"
  using terminal_states_are_final [of "[queued_row ''COMPLETED'']" "[1]" 2 1 "flow_start [queued_row ''COMPLETED''] 1"
      "flow_start [queued_row ''COMPLETED''] 1" 5 "queued_row ''COMPLETED''" Completed]
  by (simp add: queued_row_simps flow_start_def job_state_from_str_def)

section \<open>A job that nobody holds\<close>

text \<open>
  A job is orphaned when its row is RUNNING and no worker has it: its worker was killed, or the process
  that ran it. No step takes it up again.
\<close>

definition orphaned :: "uuid \<Rightarrow> flow \<Rightarrow> bool" where
  "orphaned i s \<longleftrightarrow> i \<notin> set (in_flight s) \<and> in_state ''RUNNING'' (f_jobs s) i"

lemma orphaned_step:
  assumes "flow_step clients cap s s'" "orphaned i s"
  shows "orphaned i s'"
  using assms(1)
proof (cases rule: flow_step.cases)
  case (lease j r secs now)
  have "row_with_id i (f_jobs s) = row_with_id j (f_jobs s)" if "i = j" using that by simp
  then have "i \<noteq> j" using assms(2) lease(3,4) by (auto simp: orphaned_def in_state_def)
  moreover have "in_state ''RUNNING'' (update_where (lease_where j) (lease_set secs now) (f_jobs s)) i"
    using assms(2) by (intro in_state_update) (auto simp: orphaned_def lease.keeps_identity lease_where_def)
  ultimately show ?thesis using assms(2) lease(1,2) by (auto simp: orphaned_def flight_simps)
next
  case (give_back j at n now)
  then show ?thesis
    using assms(2) in_state_other [of "''RUNNING''" "f_jobs s" i j "retry_set at n now"]
    by (auto simp: orphaned_def flight_simps schedule_retry.keeps_identity)
next
  case (start xs j ys now)
  then show ?thesis
    using assms(2) in_state_other [of "''RUNNING''" "f_jobs s" i j "running_set now"]
    by (auto simp: orphaned_def flight_simps set_running.keeps_identity)
next
  case (finish xs j ys g)
  then show ?thesis
    using assms(2) in_state_other [of "''RUNNING''" "f_jobs s" i j g]
    by (auto simp: orphaned_def flight_simps ends_run_identity)
next
  case (background t)
  then show ?thesis using assms(2) background_in_state by (auto simp: orphaned_def flight_simps)
qed (use assms(2) in \<open>auto simp: orphaned_def flight_simps\<close>)

interpretation orphans: kept_by "flow_step clients cap" "orphaned i" for clients cap i
  by unfold_locales (rule orphaned_step)

lemma orphaned_reaped: "orphaned i s \<Longrightarrow> orphaned i (reaped now s)"
  by (auto simp: orphaned_def reaped_def flight_simps reap.keeps_identity reap_where_def intro!: in_state_update)

end
