(* ===== verification/Background.thy ===== *)
theory Background
  imports Api Webhook Job_Flow
begin

text \<open>
  The computations that work in the background: whatever the environment does, they write the table
  by the statements of \<open>background_step\<close> only and leave the channel alone. Requests, the delivery of
  webhooks and the spawning of instances are such computations.
\<close>

section \<open>Computations in the background\<close>

text \<open>
  The effect of a computation that never touches a job in flight. It is stated for tables with
  distinct ids, and the channel is left alone.
\<close>

abbreviation background_steps :: "uuid list \<Rightarrow> table \<Rightarrow> table \<Rightarrow> bool" where
  "background_steps clients \<equiv> (background_step clients)\<^sup>*\<^sup>*"

definition calm_effect :: effect where
  "calm_effect w w' \<longleftrightarrow> background_steps (client_ids w) (w_jobs w) (w_jobs w') \<and>
     w_clients w' = w_clients w \<and> w_env w' = w_env w \<and> w_queue w' = w_queue w"

interpretation calm: effect_order calm_effect
proof
  show "calm_effect u v \<Longrightarrow> calm_effect v w \<Longrightarrow> calm_effect u w" for u v w
    by (auto simp: calm_effect_def client_ids_def intro: rtranclp_trans)
qed (simp_all add: calm_effect_def)

lemmas [effect_intro] = calm.composition

abbreviation calm :: "'a io \<Rightarrow> bool" where
  "calm \<equiv> keeps calm_effect"

lemma calm_statement:
  assumes "\<And>ev cl t a t'. q ev cl t = Inr (a, t') \<Longrightarrow> background_steps cl t t'"
  shows "calm (statement q)"
  by (rule calm.statement) (simp add: calm_effect_def assms)

lemma calm_update:
  assumes "\<And>cl ev t. background_step cl t (update_where (p ev) (g ev) t)"
  shows "calm (update p g)"
  unfolding update_def by (rule calm_statement) (auto intro: assms)

lemmas [effect_intro] = calm.recorders calm.queries calm.reads calm.lift_result calm.refreshing calm.ping

lemma calm_insert_job [effect_intro]: "calm (insert_job x c req tmpl recur cron nxt mx en pol par at)"
  unfolding insert_job_def
  by (intro effect_intro calm_statement)
    (auto simp: Let_def fresh_row_def new_row_def split: sum.splits intro!: r_into_rtranclp background_step.insert)

lemma calm_insert_instance [effect_intro]: "calm (insert_instance x j at key)"
  unfolding insert_instance_def by (intro effect_intro)

lemma calm_writes [effect_intro]:
  "calm (cancel_job_row i c)" "calm (cancel_template_and_instances i c)" "calm (update_webhook_result i ok n)"
  unfolding cancel_job_row_def cancel_template_and_instances_def update_webhook_result_def
  by (intro effect_intro calm_update background_step.intros)+

lemma calm_update_cron_expr [effect_intro]: "calm (update_cron_expr i c e)"
proof -
  have "background_steps cl t (update_where (cron_where i c) (cron_set e now) t)"
    if "count_where (cron_where i c) t = 0 \<or> char_count e \<le> 100" for cl t now
    using that by (auto simp: count_where_zero update_where_none
        intro: r_into_rtranclp background_step.update_cron)
  then show ?thesis
    unfolding update_cron_expr_def
    by (intro effect_intro calm_statement) (auto simp: Let_def split: if_splits)
qed

lemma calm_increment [effect_intro]: "calm (increment_template_occurrences i n)"
  unfolding increment_template_occurrences_def
  by (rule calm_statement) (auto split: if_splits intro: background_step.increment)

lemma calm_handlers [effect_intro]:
  "calm (create_job x c req)" "calm (get_job x c i)" "calm (cancel_job x c i)" "calm (patch_job x c i p)"
  unfolding create_job_def create_recurring_def get_job_def cancel_job_def patch_job_def try_io_def
  by (intro effect_intro)+

text \<open>A request never touches a job in flight.\<close>

lemma calm_serve [effect_intro]: "calm (serve x s r keys h e)"
  by (intro calm.serve effect_intro)

lemma calm_posting [effect_intro]:
  "calm (post_hook u b e)" "calm (sleep_secs n)" "calm record_webhook_failure"
  by (simp_all add: keeps_def calm_effect_def post_hook_def sleep_secs_def record_webhook_failure_def
      modify_io_def count_metric_def)

lemma calm_emit [effect_intro]: "calm (emit x cfg i)"
  by (intro calm.emit calm.deliver effect_intro)

section \<open>Spawning touches no job in flight\<close>

text \<open>A row that is a template stays one, and no other row gets its id.\<close>

definition template_at :: "uuid \<Rightarrow> table \<Rightarrow> bool" where
  "template_at i t \<longleftrightarrow> i \<in> row_id ` set t \<and> (\<forall>r\<in>set t. row_id r = i \<longrightarrow> row_is_template r)"

lemma template_at_update:
  assumes "\<And>r. row_identity (g r) = row_identity r"
  shows "template_at i (update_where p g t) = template_at i t"
proof -
  have ids: "row_id (if p r then g r else r) = row_id r" 
    and templates: "row_is_template (if p r then g r else r) = row_is_template r" for r
    using row_identityD(1,14) [OF assms, of r] by simp_all
  show ?thesis
    by (simp add: template_at_def set_update_where image_image ids templates del: if_image_distrib)
qed

lemma background_template_at:
  assumes "background_step clients t t'" "template_at i t"
  shows "template_at i t'"
  using assms(1)
proof (cases rule: background_step.cases)
  case (insert r)
  then show ?thesis using insert_row_InrD(1,3) [OF insert(1)] assms(2) by (auto simp: template_at_def)
qed (use assms(2) in \<open>simp_all add: template_at_update cancel.keeps_identity cron_identity set_completed.keeps_identity
    webhook_result.keeps_identity increment.keeps_identity\<close>)

interpretation templates: kept_by "background_step clients" "template_at i" for clients i
  by unfold_locales (rule background_template_at)

definition spawn_effect :: "uuid \<Rightarrow> effect" where
  "spawn_effect i w w' \<longleftrightarrow> (template_at i (w_jobs w) \<longrightarrow> calm_effect w w')"

lemma calm_template_at: "calm_effect w w' \<Longrightarrow> template_at i (w_jobs w) \<Longrightarrow> template_at i (w_jobs w')"
  by (auto simp: calm_effect_def intro: templates.steps)

interpretation spawn: effect_order "spawn_effect i" for i
proof
  show "spawn_effect i u v \<Longrightarrow> spawn_effect i v w \<Longrightarrow> spawn_effect i u w" for u v w
    using calm.trans calm_template_at by (auto simp: spawn_effect_def)
qed (simp_all add: spawn_effect_def calm.refl calm.tick calm.permit calm.metrics)

lemma calm_spawn: "calm m \<Longrightarrow> keeps (spawn_effect i) m"
  by (simp add: keeps_def spawn_effect_def)

lemma spawn_finish: "keeps (spawn_effect i) (finish_template i)"
proof -
  have "keeps (spawn_effect i) (complete_template i)"
    unfolding complete_template_def update_def
    by (intro spawn.composition spawn.statement)
      (auto simp: spawn_effect_def calm_effect_def template_at_def intro!: r_into_rtranclp background_step.complete)
  then show ?thesis
    unfolding finish_template_def by (intro spawn.composition spawn.refreshing)
qed

lemma calm_insert_next: "calm (insert_next x i j at)"
  unfolding insert_next_def by (intro effect_intro)

lemma spawn_spawn_at: "keeps (spawn_effect i) (spawn_at x i j at)"
  unfolding spawn_at_def
  by (intro keeps_if keeps_cases spawn.bind spawn.seq spawn.return spawn_finish
      calm_spawn [OF calm_insert_next] calm_spawn [OF calm_increment] calm_spawn [OF calm.reads(7)])

lemma decode_optional_Some:
  "decode_optional x rw w = (Inr (Some j), w') \<Longrightarrow> \<exists>r. rw = Some r \<and> from_row (x_from_value x) r = Inr j \<and> w' = w"
  by (cases rw) (auto simp: decode_optional_def decode_row_def run split: sum.splits)

lemma get_internal_found:
  assumes "get_job_by_id_internal x i w = (Inr (Some j), w')"
  shows "\<exists>r\<in>set (w_jobs w). row_id r = i \<and> from_row (x_from_value x) r = Inr j \<and> w_jobs w' = w_jobs w"
proof -
  obtain res w1 where s: "select (\<lambda>r. row_id r = i) w = (res, w1)" by fastforce
  with assms obtain rows where rows: "res = Inr rows" "decode_optional x (first_row rows) w1 = (Inr (Some j), w')"
    by (cases res) (auto simp: get_job_by_id_internal_def bind_io_def)
  then obtain r where r: "first_row rows = Some r" "from_row (x_from_value x) r = Inr j" "w' = w1"
    using decode_optional_Some by blast
  have "r \<in> set (filter (\<lambda>r. row_id r = i) (w_jobs w))"
    using first_row_Some [OF r(1)] select_result(2) [OF s rows(1)] by simp
  then show ?thesis using r select_result(1) [OF s] by auto
qed

lemma calm_spawn_next_instance:
  assumes "distinct (map row_id (w_jobs w))"
  shows "calm_effect w (snd (spawn_next_instance x i at w))"
proof -
  obtain res w1 where g: "get_job_by_id_internal x i w = (res, w1)" by fastforce
  have c: "calm_effect w w1" using keeps_runD [OF calm.reads(4) g] .
  define rest where "rest = (\<lambda>found :: job option. case found of
       None \<Rightarrow> return_io ()
     | Some template \<Rightarrow>
         if \<not> (job_is_template template \<and> job_is_recurring template) then return_io ()
         else if job_state_of template = Cancelled then return_io ()
         else
           (case job_cron_expr template of
              None \<Rightarrow> return_io ()
            | Some cron_expr \<Rightarrow>
                let next_occurrences = wrap_i32 (job_occurrences_completed template + 1) in
                if (case job_max_occurrences template of
                      None \<Rightarrow> False | Some m \<Rightarrow> m \<le> next_occurrences)
                then finish_template i
                else bind_io (lift_result (next_fire_after x cron_expr at))
                       (spawn_at x i template)))"
  have eq: "spawn_next_instance x i at w = (case res of Inl e \<Rightarrow> (Inl e, w1) | Inr f \<Rightarrow> rest f w1)"
    using g by (cases res) (simp_all add: spawn_next_instance_def bind_io_def rest_def)
  have keep: "keeps (spawn_effect i) (rest f)" for f
    unfolding rest_def
    by (intro keeps_if keeps_cases spawn.bind spawn.return spawn_finish spawn_spawn_at calm_spawn [OF calm.lift_result])
  show ?thesis
  proof (cases res)
    case (Inr f)
    show ?thesis
    proof (cases "\<exists>j. f = Some j \<and> job_is_template j")
      case True
      then obtain j r where "r \<in> set (w_jobs w)" "row_id r = i" "row_is_template r" "w_jobs w1 = w_jobs w"
        using get_internal_found [of x i w] g Inr by (fastforce simp: from_row_def split: option.splits)
      then have "template_at i (w_jobs w1)"
        using assms by (auto simp: template_at_def distinct_map inj_on_def)
      then show ?thesis
        using keepsD [OF keep, of w1 f] c Inr calm.trans by (auto simp: eq spawn_effect_def)
    next
      case False
      then have "rest f = return_io ()" by (auto simp: rest_def split: option.split)
      then show ?thesis using c Inr by (simp add: eq)
    qed
  qed (use c in \<open>simp add: eq\<close>)
qed

end
