(* ===== verification/Scheduler_Flow.thy ===== *)
theory Scheduler_Flow
  imports Background Scheduler
begin

text \<open>
  The dispatch of due jobs refines the machine of \<open>Job_Flow\<close>: every lease, send, return and loss of
  the detailed loop is a step of the machine, whatever statements are lost.
\<close>

section \<open>Rows persist\<close>

lemma sql_step_row:
  assumes "sql_step clients t t'" "row_with_id i t = Some r"
  shows "\<exists>r'. row_with_id i t' = Some r' \<and> row_identity r' = row_identity r"
  using assms(1)
proof (cases rule: sql_step.cases)
  case (insert r0)
  then show ?thesis using row_with_id_insert [OF insert(1) assms(2)] by simp
qed (use assms(2) in \<open>simp_all add: row_with_id_update lease.assign_id set_running.assign_id set_completed.assign_id
    set_state.assign_id schedule_retry.assign_id cancel.assign_id reap.assign_id recover.assign_id
    webhook_result.assign_id increment.assign_id row_identityD(1) [OF cron_identity]
    lease.keeps_identity set_running.keeps_identity set_completed.keeps_identity set_state.keeps_identity
    schedule_retry.keeps_identity cancel.keeps_identity reap.keeps_identity recover.keeps_identity
    webhook_result.keeps_identity increment.keeps_identity cron_identity\<close>)

interpretation rows: kept_by "sql_step clients" "\<lambda>t. \<exists>r'. row_with_id i t = Some r' \<and> row_identity r' = d"
  for clients i d
  by unfold_locales (metis sql_step_row)

interpretation ids: kept_by "sql_step clients" "\<lambda>t. distinct (map row_id t)" for clients
  by unfold_locales (rule sql_step_distinct_ids)

text \<open>The entries of a heap belong to rows that are no templates.\<close>

definition backed :: "scheduled_job list \<Rightarrow> table \<Rightarrow> bool" where
  "backed heap t \<longleftrightarrow> (\<forall>e\<in>set heap. \<exists>r. row_with_id (sj_id e) t = Some r \<and> \<not> row_is_template r)"

lemma backed_steps: "sql_steps clients t t' \<Longrightarrow> backed heap t \<Longrightarrow> backed heap t'"
  unfolding backed_def by (metis rows.steps row_identityD(14))

lemma backed_subset: "backed heap t \<Longrightarrow> set heap' \<subseteq> set heap \<Longrightarrow> backed heap' t"
  by (auto simp: backed_def)

section \<open>The flow of a world\<close>

definition flow_at :: "world \<Rightarrow> uuid option \<Rightarrow> slot list \<Rightarrow> flow" where
  "flow_at w hand slots = \<lparr>f_jobs = w_jobs w, f_hand = hand, f_queue = map job_id (w_queue w), f_slots = slots\<rparr>"

abbreviation flow_steps :: "uuid list \<Rightarrow> nat \<Rightarrow> flow \<Rightarrow> flow \<Rightarrow> bool" where
  "flow_steps clients cap \<equiv> (flow_step clients cap)\<^sup>*\<^sup>*"

lemma background_flow:
  assumes "background_steps clients (f_jobs s) t"
  shows "flow_steps clients cap s (s\<lparr>f_jobs := t\<rparr>)"
  using assms
proof (induction rule: rtranclp_induct)
  case base
  then show ?case by simp
next
  case (step u v)
  have "flow_step clients cap (s\<lparr>f_jobs := u\<rparr>) (s\<lparr>f_jobs := u\<rparr>\<lparr>f_jobs := v\<rparr>)"
    by (rule flow_step.background) (simp add: step(2))
  then show ?case using step.IH by (simp add: rtranclp.rtrancl_into_rtrancl)
qed

lemma calm_flow:
  "calm_effect w w' \<Longrightarrow> flow_steps (client_ids w) cap (flow_at w hand slots) (flow_at w' hand slots)"
  using background_flow [of "client_ids w" "flow_at w hand slots" "w_jobs w'"]
  by (simp add: calm_effect_def flow_at_def)

lemma background_sql_steps: "background_steps clients t t' \<Longrightarrow> sql_steps clients t t'"
  by (metis background_sql_step mono_rtranclp)

text \<open>What does not show in the flow.\<close>

definition same_flow :: effect where
  "same_flow w w' \<longleftrightarrow> w_jobs w' = w_jobs w \<and> w_queue w' = w_queue w \<and> w_clients w' = w_clients w \<and> w_env w' = w_env w"

lemma same_flow_at: "same_flow w w' \<Longrightarrow> flow_at w' hand slots = flow_at w hand slots"
  by (simp add: same_flow_def flow_at_def)

lemma calm_same_flow: "same_flow w w' \<Longrightarrow> calm_effect w w'"
  by (simp add: same_flow_def calm_effect_def)

section \<open>The scheduler refines the flow\<close>

lemma lease_outcome:
  assumes "lease_job x i d w = (res, w1)"
  shows "w_jobs w1 = w_jobs w \<and> (\<forall>j. res \<noteq> Inr (Some j)) \<or>
    (\<exists>secs now. w_jobs w1 = update_where (lease_where i) (lease_set secs now) (w_jobs w)) \<and>
      (\<forall>j. res = Inr (Some j) \<longrightarrow> job_id j = i \<and> (\<exists>r\<in>set (w_jobs w). lease_where i r))"
proof -
  let ?secs = "wrap_i64 (int d)" and ?now = "ev_now (current_event w)"
  let ?rows = "map (lease_set ?secs ?now) (filter (lease_where i) (w_jobs w))"
  have found: "job_id j = i \<and> (\<exists>r\<in>set (w_jobs w). lease_where i r)"
    if dec: "decode_optional x (first_row ?rows) v = (Inr (Some j), v')" for j v v'
  proof -
    obtain r where r: "first_row ?rows = Some r" "from_row (x_from_value x) r = Inr j"
      using decode_optional_Some [OF dec] by blast
    then obtain r0 where "r0 \<in> set (w_jobs w)" "lease_where i r0" "r = lease_set ?secs ?now r0"
      using first_row_Some [OF r(1)] by auto
    then show ?thesis using r(2) by (auto simp: from_row_def lease_where_def lease_set_def split: option.splits)
  qed
  have same: "v' = v" if "decode_optional x rw v = (r', v')" for rw v r' v'
    using that by (cases rw) (auto simp: decode_optional_def decode_row_def run split: sum.splits)
  let ?w2 = "(tick w)\<lparr>w_jobs := update_where (lease_where i) (lease_set ?secs ?now) (w_jobs w)\<rparr>"
  show ?thesis
  proof (cases "ev_delivery (current_event w)")
    case Delivered
    then have dec: "decode_optional x (first_row ?rows) ?w2 = (res, w1)"
      using assms by (simp add: lease_job_def Let_def bind_io_def statement_def)
    then have "w1 = ?w2" by (rule same)
    then show ?thesis using found dec by (intro disjI2 conjI) auto
  next
    case Unacknowledged
    then have "w1 = ?w2" "res = Inl (Sqlx ConnectionError)"
      using assms by (simp_all add: lease_job_def Let_def bind_io_def statement_def)
    then show ?thesis by (intro disjI2 conjI) auto
  qed (use assms in \<open>auto simp: lease_job_def Let_def bind_io_def statement_def\<close>)
qed

lemma lease_frame:
  assumes "lease_job x i d w = (res, w1)"
  shows "w_queue w1 = w_queue w" "w_heap w1 = w_heap w" "client_ids w1 = client_ids w"
    "sql_steps (client_ids w) (w_jobs w) (w_jobs w1)"
  using lease_job_frame(1,3) [of x i d w] sql_onlyD(1,4) [of "lease_job x i d" w] assms
  by (auto intro: effect_intro)

text \<open>A lease whose row comes back puts the job into the scheduler's hand, any other one drops it.\<close>

lemma lease_flow:
  assumes "lease_job x i d w = (res, w1)" "distinct (map row_id (w_jobs w))"
    and "row_with_id i (w_jobs w) = Some r" "\<not> row_is_template r"
  shows "case res of
      Inr (Some j) \<Rightarrow> job_id j = i \<and> flow_steps cl cap (flow_at w None slots) (flow_at w1 (Some i) slots)
    | _ \<Rightarrow> flow_steps cl cap (flow_at w None slots) (flow_at w1 None slots)"
proof -
  have unchanged: "flow_at w1 hand slots = flow_at w hand slots" if "w_jobs w1 = w_jobs w" for hand
    using that lease_frame(1) [OF assms(1)] by (simp add: flow_at_def)
  have leased: "flow_step cl cap (flow_at w None slots) (flow_at w1 (Some i) slots)"
    if "w_jobs w1 = update_where (lease_where i) (lease_set secs now) (w_jobs w)" "row_state r = ''SCHEDULED''" for secs now
    using flow_step.lease [of "flow_at w None slots" i r cl cap secs now] assms(3,4) that lease_frame(1) [OF assms(1)]
    by (simp add: flow_at_def)
  have dropped: "flow_step cl cap (flow_at w1 (Some i) slots) (flow_at w1 None slots)"
    using flow_step.drop [of "flow_at w1 (Some i) slots" i] by (simp add: flow_at_def)
  have idle: "update_where (lease_where i) (lease_set secs now) (w_jobs w) = w_jobs w"
    if "row_state r \<noteq> ''SCHEDULED''" for secs now
    using only_row_with_id [OF assms(2,3)] that by (intro update_where_none) (auto simp: lease_where_def)
  from lease_outcome [OF assms(1)] show ?thesis
  proof (elim disjE conjE exE)
    assume "w_jobs w1 = w_jobs w" "\<forall>j. res \<noteq> Inr (Some j)"
    then show ?thesis using unchanged [of None] by (auto split: sum.split option.split)
  next
    fix secs now
    assume jobs: "w_jobs w1 = update_where (lease_where i) (lease_set secs now) (w_jobs w)"
      and found: "\<forall>j. res = Inr (Some j) \<longrightarrow> job_id j = i \<and> (\<exists>r\<in>set (w_jobs w). lease_where i r)"
    show ?thesis
    proof (cases "row_state r = ''SCHEDULED''")
      case True
      note l = leased [OF jobs True]
      have "flow_steps cl cap (flow_at w None slots) (flow_at w1 None slots)"
        using l dropped by (meson converse_rtranclp_into_rtranclp r_into_rtranclp)
      then show ?thesis using found l by (auto split: sum.split option.split)
    next
      case False
      then have "\<forall>j. res \<noteq> Inr (Some j)"
        using found only_row_with_id [OF assms(2,3)] by (auto simp: lease_where_def)
      then show ?thesis using unchanged [of None] jobs idle [OF False] by (auto split: sum.split option.split)
    qed
  qed
qed

text \<open>Giving a job back.\<close>

lemma schedule_retry_outcome:
  assumes "schedule_retry i at n w = (res, w1)"
  shows "(w_jobs w1 = w_jobs w \<or> (\<exists>now. w_jobs w1 = update_where (id_where i) (retry_set at n now) (w_jobs w))) \<and>
    w_queue w1 = w_queue w \<and> w_heap w1 = w_heap w"
  using assms by (auto simp: schedule_retry_def update_def statement_def run split: delivery.splits)

lemma return_flow:
  assumes "schedule_retry i at n w = (res, w1)"
  shows "flow_steps cl cap (flow_at w (Some i) slots) (flow_at w1 None slots)"
  using schedule_retry_outcome [OF assms]
    flow_step.give_back [of "flow_at w (Some i) slots" i cl cap at n] flow_step.drop [of "flow_at w (Some i) slots" i cl cap]
  by (auto simp: flow_at_def)

lemma dispatch_flow:
  assumes "distinct (map row_id (w_jobs w))" "backed h (w_jobs w)" "heap_ok h" "w_heap w = h"
  shows "flow_steps (client_ids w) (c_worker_queue_size cfg) (flow_at w None slots)
      (flow_at (snd (dispatch_from x cfg now h w)) None slots) \<and>
    set (w_heap (snd (dispatch_from x cfg now h w))) \<subseteq> set h \<and> heap_ok (w_heap (snd (dispatch_from x cfg now h w)))"
  using assms
proof (induction h arbitrary: w rule: length_induct)
  case (1 h)
  show ?case
  proof (cases rule: dispatch_cases [of h now])
    case idle
    then show ?thesis using 1 by (simp add: dispatch_none_due)
  next
    case (due s h')
    note IH = "1.IH" [rule_format, OF due(4)]
    let ?cap = "c_worker_queue_size cfg" and ?i = "sj_id s" and ?w0 = "w\<lparr>w_heap := h'\<rparr>"
    have pop: "heap_ok h'" "mset h = add_mset s (mset h')"
      using heap_pop_spec [OF 1(4)] due(1,3) by (metis heap_peek.simps(1) option.distinct(1) option.inject prod.inject)+
    then have sub: "set h' \<subseteq> set h" "s \<in> set h" by (metis insert_subset order_refl set_mset_add_mset_insert set_mset_mset)+
    obtain r w1 where l: "lease_job x ?i (c_lease_duration cfg) ?w0 = (r, w1)" by fastforce
    note fr = lease_frame [OF l]
    obtain row where row: "row_with_id ?i (w_jobs w) = Some row" "\<not> row_is_template row"
      using 1(3) sub(2) by (auto simp: backed_def)
    have at0: "flow_at ?w0 None slots = flow_at w None slots" by (simp add: flow_at_def)
    have lf: "case r of Inr (Some j) \<Rightarrow> job_id j = ?i \<and>
          flow_steps (client_ids w) ?cap (flow_at w None slots) (flow_at w1 (Some ?i) slots)
        | _ \<Rightarrow> flow_steps (client_ids w) ?cap (flow_at w None slots) (flow_at w1 None slots)"
      using lease_flow [OF l, of row "client_ids w" ?cap slots] 1(2) row unfolding at0 by simp
    have cl: "client_ids w1 = client_ids w" "w_heap w1 = h'" using fr(2,3) by simp_all
    have ok1: "distinct (map row_id (w_jobs w1))" "backed h' (w_jobs w1)"
      using fr(4) ids.steps 1(2) backed_steps backed_subset [OF 1(3) sub(1)] by auto
    have sp: "dispatch_from x cfg now h w = (case r of Inl e \<Rightarrow> (Inl e, w1) | Inr a \<Rightarrow> after_lease x cfg now h' a w1)"
      using dispatch_round [OF due(1-3)] l by (simp add: bind_io_def)
    show ?thesis
    proof (cases r)
      case (Inl e)
      then show ?thesis using sp lf cl pop(1) sub(1) by simp
    next
      case (Inr leased)
      show ?thesis
      proof (cases leased)
        case None
        then show ?thesis using sp Inr lf IH [OF ok1 pop(1) cl(2)] cl sub(1)
          by (auto simp: after_lease_def intro: rtranclp_trans)
      next
        case (Some j)
        then have lf': "job_id j = ?i" "flow_steps (client_ids w) ?cap (flow_at w None slots) (flow_at w1 (Some ?i) slots)"
          using lf Inr by simp_all
        consider "w_closed w1" | (full) "\<not> w_closed w1" "?cap \<le> length (w_queue w1)"
          | (sent) "\<not> w_closed w1" "length (w_queue w1) < ?cap" by linarith
        then show ?thesis
        proof cases
          case sent
          let ?w2 = "w1\<lparr>w_queue := w_queue w1 @ [j], w_metrics := (w_metrics w1)\<lparr>m_dispatched := Suc (m_dispatched (w_metrics w1))\<rparr>\<rparr>"
          have eq: "snd (dispatch_from x cfg now h w) = snd (dispatch_from x cfg now h' ?w2)"
            using sp Inr Some sent by (simp add: after_lease_def run try_send_def)
          have "flow_step (client_ids w) ?cap (flow_at w1 (Some ?i) slots) (flow_at ?w2 None slots)"
            using flow_step.send [of "flow_at w1 (Some ?i) slots" ?i ?cap "client_ids w"] sent lf'(1) by (simp add: flow_at_def)
          then have "flow_steps (client_ids w) ?cap (flow_at w None slots) (flow_at ?w2 None slots)"
            using lf'(2) by simp
          then show ?thesis using eq IH [of ?w2] ok1 pop(1) cl sub(1) by (auto intro: rtranclp_trans)
        next
          case full
          obtain r3 w3 where sr: "schedule_retry (job_id j) (job_scheduled_at j) (job_attempt_count j) w1 = (r3, w3)"
            by fastforce
          have "snd (dispatch_from x cfg now h w) = (case r3 of Inl e \<Rightarrow> w3 | Inr _ \<Rightarrow> w3\<lparr>w_permit := True\<rparr>)"
            using sp Inr Some full sr by (simp add: after_lease_def try_send_def run split: sum.split)
          moreover have "flow_at (w3\<lparr>w_permit := True\<rparr>) None slots = flow_at w3 None slots" by (simp add: flow_at_def)
          ultimately show ?thesis
            using rtranclp_trans [OF lf'(2) return_flow [OF sr, unfolded lf'(1)]] schedule_retry_outcome [OF sr] cl pop(1) sub(1)
            by (auto split: sum.split)
        next
          case 1
          have "flow_step (client_ids w) ?cap (flow_at w1 (Some ?i) slots) (flow_at w1 None slots)"
            using flow_step.drop [of "flow_at w1 (Some ?i) slots" ?i "client_ids w" ?cap] by (simp add: flow_at_def)
          then show ?thesis using lf'(2) sp Inr Some 1 cl pop(1) sub(1)
            by (simp add: after_lease_def try_send_def bind_io_def)
        qed
      qed
    qed
  qed
qed

end
