(* ===== verification/Worker_Flow.thy ===== *)
theory Worker_Flow
  imports Scheduler_Flow Worker_Pool
begin

text \<open>
  A worker's handling of a job refines the machine of \<open>Job_Flow\<close>: the job is marked RUNNING, at most
  one statement ends its run, and everything the result handler does after it is background work.
\<close>

section \<open>A worker refines the flow\<close>

text \<open>What a computation does once the job is out of flight: background work, in a table with distinct ids.\<close>

definition settled_effect :: effect where
  "settled_effect w w' \<longleftrightarrow> (distinct (map row_id (w_jobs w)) \<longrightarrow> calm_effect w w')"

lemma calm_distinct: "calm_effect w w' \<Longrightarrow> distinct (map row_id (w_jobs w)) \<Longrightarrow> distinct (map row_id (w_jobs w'))"
  by (auto simp: calm_effect_def intro: ids.steps background_sql_steps)

interpretation settled: effect_order settled_effect
proof
  show "settled_effect u v \<Longrightarrow> settled_effect v w \<Longrightarrow> settled_effect u w" for u v w
    using calm.trans calm_distinct by (auto simp: settled_effect_def)
qed (simp_all add: settled_effect_def calm.refl calm.tick calm.permit calm.metrics)

lemma calm_settled: "calm m \<Longrightarrow> keeps settled_effect m"
  by (simp add: keeps_def settled_effect_def)

lemma settled_spawn: "keeps settled_effect (spawn_next_instance x i at)"
  by (simp add: keeps_def settled_effect_def calm_spawn_next_instance)

text \<open>
  The end of a run: at most one statement moves the row of the job, everything after it is background
  work.
\<close>

definition end_effect :: "uuid \<Rightarrow> effect" where
  "end_effect i w w' \<longleftrightarrow> (distinct (map row_id (w_jobs w)) \<longrightarrow>
     (\<exists>t. (t = w_jobs w \<or> (\<exists>g. ends_run g \<and> t = update_where (id_where i) g (w_jobs w))) \<and>
       calm_effect (w\<lparr>w_jobs := t\<rparr>) w'))"

lemma settled_end: "settled_effect w w' \<Longrightarrow> end_effect i w w'"
proof -
  have "w\<lparr>w_jobs := w_jobs w\<rparr> = w" by (cases w) simp
  then show "settled_effect w w' \<Longrightarrow> end_effect i w w'"
    by (auto simp: settled_effect_def end_effect_def intro!: exI [of _ "w_jobs w"])
qed

lemma end_then_settled: "end_effect i u v \<Longrightarrow> settled_effect v w \<Longrightarrow> end_effect i u w"
  unfolding end_effect_def settled_effect_def
proof (intro impI)
  assume e: "distinct (map row_id (w_jobs u)) \<longrightarrow>
      (\<exists>t. (t = w_jobs u \<or> (\<exists>g. ends_run g \<and> t = update_where (id_where i) g (w_jobs u))) \<and> calm_effect (u\<lparr>w_jobs := t\<rparr>) v)"
    and s: "distinct (map row_id (w_jobs v)) \<longrightarrow> calm_effect v w" and d: "distinct (map row_id (w_jobs u))"
  then obtain t where t: "t = w_jobs u \<or> (\<exists>g. ends_run g \<and> t = update_where (id_where i) g (w_jobs u))"
      "calm_effect (u\<lparr>w_jobs := t\<rparr>) v" by blast
  then have "distinct (map row_id t)" using d ends_run_ids by auto
  then have "distinct (map row_id (w_jobs v))" using calm_distinct [OF t(2)] by simp
  then have "calm_effect (u\<lparr>w_jobs := t\<rparr>) w" using s calm.trans [OF t(2)] by blast
  then show "\<exists>t. (t = w_jobs u \<or> (\<exists>g. ends_run g \<and> t = update_where (id_where i) g (w_jobs u))) \<and> calm_effect (u\<lparr>w_jobs := t\<rparr>) w"
    using t(1) by blast
qed

text \<open>What runs before does not write the table.\<close>

interpretation ending: one_shot same_flow "end_effect i" settled_effect for i
proof
  fix u v w
  show "same_flow u v \<Longrightarrow> end_effect i u v"
    using settled_end calm_same_flow by (auto simp: settled_effect_def)
  assume same: "same_flow u v"
  have "calm_effect (v\<lparr>w_jobs := t\<rparr>) w = calm_effect (u\<lparr>w_jobs := t\<rparr>) w" for t
    using same by (simp add: same_flow_def calm_effect_def client_ids_def)
  then show "end_effect i v w \<Longrightarrow> end_effect i u w"
    using same by (simp add: end_effect_def) (simp add: same_flow_def)
qed (rule settled_end end_then_settled; assumption)+

lemma end_statement:
  assumes "\<And>now. ends_run (g now)"
  shows "keeps (end_effect i) (then_io (update (\<lambda>_. id_where i) (\<lambda>ev. g (ev_now ev))) (return_io ()))"
proof (rule keepsI)
  fix w
  let ?t = "update_where (id_where i) (g (ev_now (current_event w))) (w_jobs w)"
  have "snd (then_io (update (\<lambda>_. id_where i) (\<lambda>ev. g (ev_now ev))) (return_io ()) w) = tick w \<or>
      snd (then_io (update (\<lambda>_. id_where i) (\<lambda>ev. g (ev_now ev))) (return_io ()) w) = (tick w)\<lparr>w_jobs := ?t\<rparr>"
    by (auto simp: update_def statement_def run split: delivery.split)
  moreover have "end_effect i w (tick w)" using settled_end settled.tick by blast
  moreover have "end_effect i w ((tick w)\<lparr>w_jobs := ?t\<rparr>)"
    unfolding end_effect_def
    by (intro impI exI [of _ ?t] conjI disjI2 exI [of _ "g (ev_now (current_event w))"])
      (auto simp: assms calm_effect_def)
  ultimately show "end_effect i w (snd (then_io (update (\<lambda>_. id_where i) (\<lambda>ev. g (ev_now ev))) (return_io ()) w))"
    by auto
qed

lemma end_statements:
  "keeps (end_effect i) (set_completed i)" "keeps (end_effect i) (set_state i Expired)"
  "keeps (end_effect i) (set_state i DeadLetter)" "keeps (end_effect i) (schedule_retry i at n)"
  unfolding set_completed_def set_state_def schedule_retry_def
  by (rule end_statement; auto simp: ends_run_def)+

lemma same_flow_parts:
  "keeps same_flow record_execution_duration" "keeps same_flow utc_now" "keeps same_flow (lift_result v)"
  by (simp_all add: keeps_def same_flow_def record_execution_duration_def count_metric_def modify_io_def utc_now_def
      lift_result_def split: sum.split)

lemma settled_records:
  "keeps settled_effect record_job_completed" "keeps settled_effect record_job_expired"
  "keeps settled_effect record_job_failed"
  unfolding record_job_completed_def record_job_expired_def record_job_failed_def
  by (intro settled.count_metric)+

lemmas settled_rules = settled.seq settled.bind settled.return settled.notify_one settled_records settled_spawn
  calm_settled [OF calm_emit] keeps_cases keeps_if

lemma end_handle: "keeps (end_effect (job_id j)) (handle x cfg j res)"
proof -
  have "keeps (end_effect (job_id j)) (handle_success x cfg j)"
    unfolding handle_success_def by (intro ending.seq_later end_statements settled_rules)
  moreover have "keeps (end_effect (job_id j)) (handle_expired x cfg j)"
    "keeps (end_effect (job_id j)) (handle_dead_letter x cfg j)"
    unfolding handle_expired_def handle_dead_letter_def by (intro ending.seq_later end_statements settled_rules)+
  moreover have "keeps (end_effect (job_id j)) (handle_retry cfg j now n)" for now n
    unfolding handle_retry_def
    by (intro keeps_cases(4) ending.bind_earlier same_flow_parts ending.seq_later end_statements settled_rules)
  ultimately show ?thesis
    unfolding handle_def then_io_def [of record_execution_duration]
    by (intro ending.bind_earlier same_flow_parts keeps_if keeps_cases(4))
qed

section \<open>The life of a job in a worker\<close>

lemma end_flow:
  assumes "end_effect i w w'" "distinct (map row_id (w_jobs w))"
  shows "flow_steps (client_ids w) cap (flow_at w None (xs @ Executing i # ys)) (flow_at w' None (xs @ Free # ys))"
proof -
  let ?cl = "client_ids w" and ?w = "\<lambda>t. w\<lparr>w_jobs := t\<rparr>"
  obtain t where t: "t = w_jobs w \<or> (\<exists>g. ends_run g \<and> t = update_where (id_where i) g (w_jobs w))"
      "calm_effect (?w t) w'"
    using assms by (auto simp: end_effect_def)
  have "flow_step ?cl cap (flow_at w None (xs @ Executing i # ys)) (flow_at (?w t) None (xs @ Free # ys))"
    using t(1) flow_step.abandon [of "flow_at w None (xs @ Executing i # ys)" xs "Executing i" ys ?cl cap]
      flow_step.finish [of "flow_at w None (xs @ Executing i # ys)" xs i ys _ ?cl cap]
    by (auto simp: flow_at_def)
  moreover have "flow_steps ?cl cap (flow_at (?w t) None (xs @ Free # ys)) (flow_at w' None (xs @ Free # ys))"
    using calm_flow [OF t(2)] by simp
  ultimately show ?thesis by simp
qed

lemma set_running_outcome:
  assumes "set_running i w = (r, w1)"
  shows "(\<exists>e. r = Inl (Sqlx e)) \<and> w_jobs w1 = w_jobs w \<or>
      (r = Inr () \<or> (\<exists>e. r = Inl (Sqlx e))) \<and> (\<exists>now. w_jobs w1 = update_where (id_where i) (running_set now) (w_jobs w))"
    "w_queue w1 = w_queue w" "client_ids w1 = client_ids w"
  using assms by (auto simp: set_running_def update_def statement_def run client_ids_def split: delivery.splits)

lemma same_flow_counts: "same_flow w (snd (job_begins w))" "same_flow w (snd (job_ends w))"
  by (simp_all add: same_flow_def job_begins_run job_ends_run)

text \<open>The mark RUNNING: a lost answer leaves the row RUNNING and the job with nobody.\<close>

lemma start_flow:
  assumes "start_job j w = (r, w')"
  shows "flow_steps (client_ids w) cap (flow_at w None (xs @ Got (job_id j) # ys))
    (flow_at w' None (xs @ (case r of Inr (Some j') \<Rightarrow> Executing (job_id j) | _ \<Rightarrow> Free) # ys))"
proof -
  let ?i = "job_id j" and ?w = "snd (job_begins w)"
  obtain r1 w1 where sr: "set_running ?i ?w = (r1, w1)" by fastforce
  note out = set_running_outcome [OF sr]
  have same: "w_jobs ?w = w_jobs w" "w_queue ?w = w_queue w" by (simp_all add: job_begins_run)
  have give_up: "flow_step cl cap (flow_at v None (xs @ k # ys)) (flow_at v None (xs @ Free # ys))" for cl v k
    using flow_step.abandon [of "flow_at v None (xs @ k # ys)" xs k ys] by (simp add: flow_at_def)
  have started: "flow_step cl cap (flow_at w None (xs @ Got ?i # ys)) (flow_at w1 None (xs @ Executing ?i # ys))"
    if "w_jobs w1 = update_where (id_where ?i) (running_set now) (w_jobs ?w)" for cl now
    using flow_step.start [of "flow_at w None (xs @ Got ?i # ys)" xs ?i ys cl cap now] that out(2) same
    by (simp add: flow_at_def)
  have "same_flow w1 (snd (job_ends w1))" by (rule same_flow_counts)
  then have ended: "flow_at (snd (job_ends w1)) None ks = flow_at w1 None ks" for ks by (rule same_flow_at)
  from out(1) show ?thesis
  proof (elim disjE conjE exE)
    fix e assume "r1 = Inl (Sqlx e)" "w_jobs w1 = w_jobs ?w"
    moreover from this have "flow_at w1 None (xs @ Free # ys) = flow_at w None (xs @ Free # ys)"
      using out(2) same by (simp add: flow_at_def)
    ultimately show ?thesis using assms give_up [of _ w "Got ?i"] by (auto simp: start_job_run sr ended)
  next
    fix now assume "w_jobs w1 = update_where (id_where ?i) (running_set now) (w_jobs ?w)" "r1 = Inr ()"
    then show ?thesis using assms started by (auto simp: start_job_run sr)
  next
    fix now e assume jobs: "w_jobs w1 = update_where (id_where ?i) (running_set now) (w_jobs ?w)" "r1 = Inl (Sqlx e)"
    then show ?thesis
      using assms rtranclp.rtrancl_into_rtrancl [OF r_into_rtranclp [of "flow_step (client_ids w) cap", OF started [OF jobs(1)]]
          give_up [of _ w1]]
      by (auto simp: start_job_run sr ended)
  qed
qed

lemma settled_job_ends: "keeps settled_effect job_ends"
  by (rule calm_settled) (simp add: keeps_def calm_same_flow same_flow_counts)

lemma end_finish_job: "keeps (end_effect (job_id j)) (finish_job x cfg ee j)"
  unfolding finish_job_def
  by (intro ending.bind_earlier ending.bind_later same_flow_parts ending.attempt end_handle settled_job_ends)

lemma finish_flow:
  assumes "finish_job x cfg ee j w = (r, w')" "distinct (map row_id (w_jobs w))"
  shows "flow_steps (client_ids w) cap (flow_at w None (xs @ Executing (job_id j) # ys)) (flow_at w' None (xs @ Free # ys))"
  using end_flow [OF keeps_runD [OF end_finish_job assms(1)] assms(2)] .

end
