(* ===== verification/Daemon.thy ===== *)
theory Daemon
  imports Worker_Flow Reaper Api
begin

text \<open>
  The tasks of the daemon together (\<open>src/main.rs\<close>): requests, the timer and the notifications of the
  scheduler, the rounds of the reaper and the steps of the workers. Every task refines the machine of
  \<open>Job_Flow\<close>, so that what holds there for every interleaving holds for the tasks.
\<close>

section \<open>The tasks\<close>

datatype task =
    SchedulerStart
  | Timer
  | Notified
  | ReaperTick
  | Request "string option" endpoint
  | Receive nat
  | StartJob nat
  | FinishJob nat exec_env
  | Shutdown

text \<open>
  One task runs: an iteration of the scheduler's loop (a notification only when a permit is stored), a
  round of the reaper (whose ticker panics when its interval is zero, which ends the task), a request,
  a worker that receives a job, marks it RUNNING, or executes it and handles the result, the
  shutdown signal.
\<close>

fun perform ::
  "externals \<Rightarrow> config \<Rightarrow> (error \<Rightarrow> string) \<Rightarrow> (metrics \<Rightarrow> string) \<Rightarrow> api_keys \<Rightarrow> task \<Rightarrow>
   worker list \<times> world \<Rightarrow> worker list \<times> world" where
  "perform x cfg to_string render keys SchedulerStart (ks, w) = (ks, snd (scheduler_start cfg w))"
| "perform x cfg to_string render keys Timer (ks, w) = (ks, snd (then_io loop_head (on_timer x cfg) w))"
| "perform x cfg to_string render keys Notified (ks, w) =
     (if w_permit w then (ks, snd (then_io loop_head (on_notified cfg) w)) else (ks, w))"
| "perform x cfg to_string render keys ReaperTick (ks, w) =
     (if c_lease_reaper_interval cfg = 0 then (ks, w) else (ks, snd (reaper_round w)))"
| "perform x cfg to_string render keys (Request header e) (ks, w) = (ks, snd (serve x to_string render keys header e w))"
| "perform x cfg to_string render keys (Receive i) (ks, w) =
     (if i < length ks then let (k, w') = worker_receive (ks ! i) w in (ks[i := k], w') else (ks, w))"
| "perform x cfg to_string render keys (StartJob i) (ks, w) =
     (if i < length ks then let (k, w') = worker_start (ks ! i) w in (ks[i := k], w') else (ks, w))"
| "perform x cfg to_string render keys (FinishJob i ee) (ks, w) =
     (if i < length ks then let (k, w') = worker_finish x cfg ee (ks ! i) w in (ks[i := k], w') else (ks, w))"
| "perform x cfg to_string render keys Shutdown (ks, w) = (pool_shutdown ks, w)"

definition slot_of :: "worker \<Rightarrow> slot" where
  "slot_of k = (case k of Busy j \<Rightarrow> Got (job_id j) | Working j \<Rightarrow> Executing (job_id j) | _ \<Rightarrow> Free)"

definition daemon_flow :: "worker list \<times> world \<Rightarrow> flow" where
  "daemon_flow d = flow_at (snd d) None (map slot_of (fst d))"

text \<open>What the tasks rely on: the ids of the table are distinct and the heap is one of the jobs of the
  table that are no templates.\<close>

definition daemon_ok :: "worker list \<times> world \<Rightarrow> bool" where
  "daemon_ok d \<longleftrightarrow> distinct (map row_id (w_jobs (snd d))) \<and> backed (w_heap (snd d)) (w_jobs (snd d)) \<and>
     heap_ok (w_heap (snd d))"

lemma daemon_ok_sql:
  assumes "daemon_ok d" "sql_effect (snd d) w'" "set (w_heap w') \<subseteq> set (w_heap (snd d))" "heap_ok (w_heap w')"
  shows "daemon_ok (ks', w')"
  using assms ids.steps backed_steps backed_subset
  by (auto simp: daemon_ok_def sql_effect_def)

lemma pool_sql_ok:
  assumes "daemon_ok (ks, w)" "sql_only m" "leaves_pool m"
  shows "daemon_ok (ks', snd (m w))"
  using daemon_ok_sql [OF assms(1), of "snd (m w)"] keepsD [OF assms(2), of w] keepsD [OF assms(3), of w] assms(1)
  by (simp add: pool_effect_def pool_state_def daemon_ok_def)

text \<open>The heap after a refresh.\<close>

lemma refresh_ok:
  assumes "daemon_ok (ks, w)"
  shows "daemon_ok (ks, snd (refresh_heap cfg w))"
    "flow_at (snd (refresh_heap cfg w)) None slots = flow_at w None slots"
proof -
  obtain r w1 where f: "fetch_scheduled_jobs (c_heap_lookahead_limit cfg) w = (r, w1)" by fastforce
  have same: "w_jobs w1 = w_jobs w" "w_queue w1 = w_queue w" "w_heap w1 = w_heap w"
    and jobs: "\<And>js. r = Inr js \<Longrightarrow> select_scheduled (c_heap_lookahead_limit cfg) (w_jobs w) = Inr js"
    using f by (auto simp: fetch_scheduled_jobs_def statement_def split: delivery.splits sum.splits)
  have eq: "snd (refresh_heap cfg w) = (case r of Inl e \<Rightarrow> w1 | Inr js \<Rightarrow>
      w1\<lparr>w_heap := build_heap js, w_metrics := (w_metrics w1)\<lparr>m_heap_size := length (build_heap js)\<rparr>\<rparr>)"
    using f by (simp add: refresh_heap_def bind_io_def then_io_run set_heap_run set_scheduler_heap_size_def
        count_metric_run split: sum.split)
  show "flow_at (snd (refresh_heap cfg w)) None slots = flow_at w None slots"
    using same by (simp add: eq flow_at_def split: sum.split)
  have "backed (build_heap js) (w_jobs w)" if "r = Inr js" for js
  proof -
    have "set (build_heap js) = set js" using mset_build_heap by (metis set_mset_mset)
    moreover have "\<exists>row\<in>set (w_jobs w). e = ScheduledJob (row_id row) (row_scheduled_at row) \<and> \<not> row_is_template row"
      if "e \<in> set js" for e
      using that jobs [OF \<open>r = Inr js\<close>]
      by (auto simp: select_scheduled_def scheduled_where_def split: if_splits dest!: in_set_takeD) blast
    ultimately show ?thesis
      using assms find_unique [of row_id "w_jobs w"] by (fastforce simp: backed_def daemon_ok_def row_with_id_def)
  qed
  then show "daemon_ok (ks, snd (refresh_heap cfg w))"
    using assms same build_heap_ok by (auto simp: eq daemon_ok_def split: sum.split)
qed

lemma attempt_state: "snd (attempt m w) = snd (m w)"
  by (simp add: attempt_def split: prod.split sum.split error.split)

lemma attempted_state: "snd (bind_io (attempt m) (\<lambda>_. return_io ()) w) = snd (m w)"
  by (simp add: bind_io_def attempt_def split: prod.split sum.split error.split)

text \<open>The head of the loop changes nothing the flow shows.\<close>

lemma loop_head_state:
  obtains w1 d where "loop_head w = (Inr d, w1)" "same_flow w w1" "w_heap w1 = w_heap w" "w_permit w1 = w_permit w"
    "client_ids w1 = client_ids w" "w_metrics w1 = w_metrics w" "w_closed w1 = w_closed w"
  by (cases "heap_peek (w_heap w)")
    (auto simp: loop_head_def store_alive_def run same_flow_def client_ids_def)

section \<open>Every task refines the flow\<close>

lemma reaper_round_state:
  "w_jobs (snd (reaper_round w)) = w_jobs w \<or>
   w_jobs (snd (reaper_round w)) = update_where (reap_where (ev_now (current_event w))) (released_set (ev_now (current_event w))) (w_jobs w)"
  "w_queue (snd (reaper_round w)) = w_queue w"
  by (auto simp: reaper_round_def reap_expired_leases_def update_def statement_def run split: delivery.split)

lemma slots_update:
  assumes "i < length ks"
  shows "map slot_of (ks[i := k]) = map slot_of (take i ks) @ slot_of k # map slot_of (drop (Suc i) ks)"
  using assms by (simp add: upd_conv_take_nth_drop)

lemma slots_nth:
  assumes "i < length ks"
  shows "map slot_of ks = map slot_of (take i ks) @ slot_of (ks ! i) # map slot_of (drop (Suc i) ks)"
  using slots_update [OF assms, of "ks ! i"] by simp

lemma receive_flow:
  assumes "i < length ks" "worker_receive (ks ! i) w = (k, w')"
  shows "flow_steps cl cap (daemon_flow (ks, w)) (daemon_flow (ks[i := k], w'))"
proof (cases "ks ! i = Waiting \<and> w_queue w \<noteq> []")
  case True
  then obtain j js where "w_queue w = j # js" "k = Busy j" "w' = w\<lparr>w_queue := js\<rparr>"
    using assms(2) by (cases "w_queue w") (auto simp: worker_receive_def)
  then show ?thesis
    using flow_step.receive [of "daemon_flow (ks, w)" "job_id j" "map job_id js" "map slot_of (take i ks)"
        "map slot_of (drop (Suc i) ks)" cl cap] slots_nth [OF assms(1)] slots_update [OF assms(1), of k] True
    by (simp add: daemon_flow_def flow_at_def slot_of_def r_into_rtranclp)
next
  case False
  then have "slot_of k = slot_of (ks ! i)" "w' = w"
    using assms(2) by (auto simp: worker_receive_def slot_of_def split: worker.splits list.splits if_splits)
  then show ?thesis
    using slots_nth [OF assms(1)] slots_update [OF assms(1), of k] by (simp add: daemon_flow_def)
qed

lemma worker_start_flow:
  assumes "i < length ks" "worker_start (ks ! i) w = (k, w')"
  shows "flow_steps (client_ids w) cap (daemon_flow (ks, w)) (daemon_flow (ks[i := k], w'))"
proof (cases "ks ! i")
  case (Busy j)
  obtain r w1 where run: "start_job j w = (r, w1)" by fastforce
  then have "slot_of k = (case r of Inr (Some j') \<Rightarrow> Executing (job_id j) | _ \<Rightarrow> Free)" "w' = w1"
    using assms(2) Busy by (auto simp: worker_start_def slot_of_def elim!: start_job_active split: sum.splits option.splits)
  then show ?thesis
    using start_flow [OF run, of cap "map slot_of (take i ks)" "map slot_of (drop (Suc i) ks)"]
      slots_nth [OF assms(1)] slots_update [OF assms(1), of k] Busy
    by (simp add: daemon_flow_def slot_of_def)
qed (use assms(2) list_update_id [of ks i] in \<open>auto simp: worker_start_def\<close>)

lemma worker_finish_flow:
  assumes "i < length ks" "worker_finish x cfg ee (ks ! i) w = (k, w')" "distinct (map row_id (w_jobs w))"
  shows "flow_steps (client_ids w) cap (daemon_flow (ks, w)) (daemon_flow (ks[i := k], w'))"
proof (cases "ks ! i")
  case (Working j)
  obtain r w1 where run: "finish_job x cfg ee j w = (r, w1)" by fastforce
  then have "slot_of k = Free" "w' = w1"
    using assms(2) Working by (auto simp: worker_finish_def slot_of_def split: sum.splits)
  then show ?thesis
    using finish_flow [OF run assms(3), of cap "map slot_of (take i ks)" "map slot_of (drop (Suc i) ks)"]
      slots_nth [OF assms(1)] slots_update [OF assms(1), of k] Working
    by (simp add: daemon_flow_def slot_of_def)
qed (use assms(2) list_update_id [of ks i] in \<open>auto simp: worker_finish_def\<close>)

lemma shutdown_slots: "map slot_of (pool_shutdown ks) = map slot_of ks"
  by (auto simp: pool_shutdown_def worker_shutdown_def slot_of_def split: worker.split)

text \<open>What a worker does changes the table by the program's statements and leaves the heap.\<close>

definition heap_kept :: effect where
  "heap_kept w w' \<longleftrightarrow> w_heap w' = w_heap w"

interpretation heap: effect_order heap_kept
  by unfold_locales (simp_all add: heap_kept_def)

lemma heap_kept_pool: "leaves_pool m \<Longrightarrow> keeps heap_kept m"
  by (simp add: keeps_def heap_kept_def pool_effect_def pool_state_def)

lemma heap_kept_worker: "keeps heap_kept (start_job j)" "keeps heap_kept (finish_job x cfg ee j)"
proof -
  have counts: "keeps heap_kept job_begins" "keeps heap_kept job_ends"
    by (simp_all add: keeps_def heap_kept_def job_begins_run job_ends_run)
  have parts: "leaves_pool (attempt (set_running i))" "leaves_pool (attempt (handle x cfg j res))"
    "leaves_pool (lift_result (execute ee d p))" for i j res d p by (intro effect_intro)+
  show "keeps heap_kept (start_job j)" "keeps heap_kept (finish_job x cfg ee j)"
    unfolding start_job_def finish_job_def
    by (intro heap.bind heap.seq heap.return counts keeps_cases heap_kept_pool [OF parts(1)] heap_kept_pool [OF parts(2)]
        heap_kept_pool [OF parts(3)])+
qed

lemma worker_effect:
  assumes "worker_receive k0 w = (k, w') \<or> worker_start k0 w = (k, w') \<or> worker_finish x cfg ee k0 w = (k, w')"
  shows "sql_effect w w'" "heap_kept w w'"
  using assms sql.refl keeps_runD [OF sql_only_worker(3)] keeps_runD [OF sql_only_worker(4)]
    keeps_runD [OF heap_kept_worker(1)] keeps_runD [OF heap_kept_worker(2)]
  by (auto simp: worker_receive_def worker_start_def worker_finish_def sql_effect_def client_ids_def heap_kept_def
      split: worker.splits list.splits prod.splits sum.splits option.splits)

lemma worker_ok:
  assumes "daemon_ok (ks, w)"
    "worker_receive k0 w = (k, w') \<or> worker_start k0 w = (k, w') \<or> worker_finish x cfg ee k0 w = (k, w')"
  shows "daemon_ok (ks', w')" "client_ids w' = client_ids w"
  using worker_effect [OF assms(2)] daemon_ok_sql [OF assms(1), of w'] assms(1)
  by (auto simp: daemon_ok_def sql_effect_def heap_kept_def client_ids_def)

text \<open>The step of the flow machine a task may take.\<close>

definition simulates :: "config \<Rightarrow> task \<Rightarrow> worker list \<times> world \<Rightarrow> worker list \<times> world \<Rightarrow> bool" where
  "simulates cfg task d d' \<longleftrightarrow> daemon_ok d' \<and> client_ids (snd d') = client_ids (snd d) \<and>
     (if task = ReaperTick
      then daemon_flow d' \<in> {daemon_flow d, reaped (ev_now (current_event (snd d))) (daemon_flow d)}
      else flow_steps (client_ids (snd d)) (c_worker_queue_size cfg) (daemon_flow d) (daemon_flow d'))"

lemma simulates_calm:
  assumes "daemon_ok (ks, w)" "task \<noteq> ReaperTick" "calm_effect w w'" "daemon_ok (ks', w')"
    and "map slot_of ks' = map slot_of ks"
  shows "simulates cfg task (ks, w) (ks', w')"
  using assms calm_flow [OF assms(3), of _ None "map slot_of ks"]
  by (simp add: simulates_def daemon_flow_def calm_effect_def client_ids_def)

lemma simulates_timer:
  assumes "daemon_ok (ks, w)"
  shows "simulates cfg Timer (ks, w) (perform x cfg to_string render keys Timer (ks, w))"
proof -
  obtain w1 d where h: "loop_head w = (Inr d, w1)" "same_flow w w1" "w_heap w1 = w_heap w" "client_ids w1 = client_ids w"
    by (rule loop_head_state)
  let ?w2 = "tick w1" and ?now = "ev_now (current_event w1)"
  let ?w3 = "snd (dispatch_from x cfg ?now (w_heap w1) ?w2)"
  have w3: "snd (then_io loop_head (on_timer x cfg) w) = ?w3"
    using h(1) by (simp add: then_io_run on_timer_dispatches)
  have ok: "distinct (map row_id (w_jobs ?w2))" "backed (w_heap w1) (w_jobs ?w2)" "heap_ok (w_heap w1)" "w_heap ?w2 = w_heap w1"
    using assms h(2,3) by (simp_all add: daemon_ok_def same_flow_def)
  note flow = dispatch_flow [OF ok, where x = x and cfg = cfg and now = ?now and slots = "map slot_of ks"]
  have at: "flow_at ?w2 None (map slot_of ks) = daemon_flow (ks, w)"
    using same_flow_at [OF h(2)] by (simp add: daemon_flow_def flow_at_def)
  have sql: "sql_effect ?w2 ?w3" by (rule keepsD [OF sql_scheduler.dispatch_from])
  then have "sql_effect w ?w3"
    using h(2,4) by (simp add: sql_effect_def same_flow_def)
  then have "daemon_ok (ks, ?w3)"
    using flow h(3) by (intro daemon_ok_sql [OF assms]) simp_all
  moreover have "client_ids ?w3 = client_ids w"
    using sql h(4) by (simp add: sql_effect_def client_ids_def)
  ultimately show ?thesis
    using flow h(4) unfolding at
    by (simp add: simulates_def w3) (simp add: daemon_flow_def)
qed

lemma simulates_refresh:
  assumes "daemon_ok (ks, w)" "same_flow w w1" "w_heap w1 = w_heap w" "task \<noteq> ReaperTick"
  shows "simulates cfg task (ks, w) (ks, snd (refresh_heap cfg w1))"
proof -
  have ok: "daemon_ok (ks, w1)" using assms(1-3) by (simp add: daemon_ok_def same_flow_def)
  have "sql_effect w1 (snd (refresh_heap cfg w1))" by (intro keepsD effect_intro)
  then have "client_ids (snd (refresh_heap cfg w1)) = client_ids w"
    using assms(2) by (simp add: sql_effect_def same_flow_def client_ids_def)
  then show ?thesis
    using refresh_ok [OF ok] same_flow_at [OF assms(2)] assms(4)
    by (simp add: simulates_def daemon_flow_def)
qed

lemma perform_simulates:
  assumes "daemon_ok (ks, w)"
  shows "simulates cfg task (ks, w) (perform x cfg to_string render keys task (ks, w))"
proof (cases task)
  case SchedulerStart
  then show ?thesis
    using simulates_refresh [OF assms, of w] by (simp add: scheduler_start_def attempted_state same_flow_def)
next
  case Timer
  then show ?thesis using simulates_timer [OF assms] by simp
next
  case Notified
  obtain w1 d where h: "loop_head w = (Inr d, w1)" "same_flow w w1" "w_heap w1 = w_heap w" by (rule loop_head_state)
  have "snd (then_io loop_head (on_notified cfg) w) = snd (refresh_heap cfg (w1\<lparr>w_permit := False\<rparr>))"
    using h(1) by (simp add: on_notified_def then_io_run modify_io_run attempted_state)
  moreover have "same_flow w (w1\<lparr>w_permit := False\<rparr>)" using h(2) by (simp add: same_flow_def)
  ultimately show ?thesis
    using Notified simulates_refresh [OF assms, of "w1\<lparr>w_permit := False\<rparr>"] h(3)
      simulates_calm [OF assms _ calm.refl assms] by simp
next
  case ReaperTick
  let ?w' = "snd (reaper_round w)" and ?now = "ev_now (current_event w)"
  have s: "sql_only reaper_round" "leaves_pool reaper_round"
    by (intro effect_intro) (simp add: reaper_round_def reap_expired_leases_def update_def, intro effect_intro)
  have "daemon_flow (ks, ?w') \<in> {daemon_flow (ks, w), reaped ?now (daemon_flow (ks, w))}"
    using reaper_round_state [of w] by (auto simp: daemon_flow_def flow_at_def reaped_def)
  then show ?thesis
    using ReaperTick pool_sql_ok [OF assms s] sql_onlyD(4) [OF s(1), of w] assms by (simp add: simulates_def)
next
  case (Request header e)
  have "calm_effect w (snd (serve x to_string render keys header e w))" by (intro keepsD effect_intro)
  moreover have "daemon_ok (ks, snd (serve x to_string render keys header e w))"
    by (intro pool_sql_ok [OF assms] effect_intro)
  ultimately show ?thesis using Request simulates_calm [OF assms] by simp
next
  case (Receive i)
  show ?thesis
  proof (cases "i < length ks")
    case True
    obtain k w' where r: "worker_receive (ks ! i) w = (k, w')" by fastforce
    then show ?thesis
      using Receive True receive_flow [OF True r] worker_ok [OF assms disjI1, OF r] by (simp add: simulates_def)
  qed (use Receive simulates_calm [OF assms _ calm.refl assms] in simp)
next
  case (StartJob i)
  show ?thesis
  proof (cases "i < length ks")
    case True
    obtain k w' where r: "worker_start (ks ! i) w = (k, w')" by fastforce
    then show ?thesis
      using StartJob True worker_start_flow [OF True r] worker_ok [OF assms disjI2, OF disjI1, OF r] by (simp add: simulates_def)
  qed (use StartJob simulates_calm [OF assms _ calm.refl assms] in simp)
next
  case (FinishJob i ee)
  show ?thesis
  proof (cases "i < length ks")
    case True
    obtain k w' where r: "worker_finish x cfg ee (ks ! i) w = (k, w')" by fastforce
    then show ?thesis
      using FinishJob True worker_finish_flow [OF True r] worker_ok [OF assms disjI2, OF disjI2, OF r] assms
      by (simp add: simulates_def daemon_ok_def)
  qed (use FinishJob simulates_calm [OF assms _ calm.refl assms] in simp)
next
  case Shutdown
  then show ?thesis
    using simulates_calm [OF assms _ calm.refl, of Shutdown "pool_shutdown ks"] assms
    by (simp add: shutdown_slots daemon_ok_def)
qed

text \<open>C2: Every task of the daemon (an iteration of the scheduler, a round of the reaper, a request, a step
  of a worker) refines the machine of jobs in flight, whatever statements are lost and whatever panics:
  it is a sequence of that machine's steps, and a round of the reaper is at most its reaping.\<close>

theorem tasks_refine_flow:
  assumes "daemon_ok (ks, w)"
  shows "simulates cfg task (ks, w) (perform x cfg to_string render keys task (ks, w))"
  using assms by (rule perform_simulates)

text \<open>The timer on one due job: what it does refines the machine, and the job is in the channel.\<close>

theorem tasks_refine_flow_witness:
  "let d = ([Waiting, Waiting], due_world [sample_row 5 ''SCHEDULED'' None]);
       d' = perform sample_externals sample_config (\<lambda>_. []) (\<lambda>_. []) Map.empty Timer d
   in simulates sample_config Timer d d' \<and> in_flight (daemon_flow d) = [] \<and> in_flight (daemon_flow d') = [5]"
proof -
  have "daemon_ok ([Waiting, Waiting], due_world [sample_row 5 ''SCHEDULED'' None])"
    by (simp add: daemon_ok_def backed_def row_with_id_def heap_ok_def sample_row_def new_row_def)
  moreover have "in_flight (daemon_flow ([Waiting, Waiting], due_world [sample_row 5 ''SCHEDULED'' None])) = []"
    "in_flight (daemon_flow (perform sample_externals sample_config (\<lambda>_. []) (\<lambda>_. []) Map.empty Timer
       ([Waiting, Waiting], due_world [sample_row 5 ''SCHEDULED'' None]))) = [5]"
    by code_simp+
  ultimately show ?thesis
    using tasks_refine_flow [of "[Waiting, Waiting]" "due_world [sample_row 5 ''SCHEDULED'' None]" sample_config Timer
        sample_externals "\<lambda>_. []" "\<lambda>_. []" Map.empty] by (simp add: Let_def)
qed

section \<open>Runs of the daemon\<close>

definition run_tasks ::
  "externals \<Rightarrow> config \<Rightarrow> (error \<Rightarrow> string) \<Rightarrow> (metrics \<Rightarrow> string) \<Rightarrow> api_keys \<Rightarrow> task list \<Rightarrow>
   worker list \<times> world \<Rightarrow> worker list \<times> world" where
  "run_tasks x cfg to_string render keys tasks d = fold (perform x cfg to_string render keys) tasks d"

lemma run_tasks_Cons:
  "run_tasks x cfg to_string render keys (task # tasks) d =
     run_tasks x cfg to_string render keys tasks (perform x cfg to_string render keys task d)"
  by (simp add: run_tasks_def)

lemma run_tasks_Nil: "run_tasks x cfg to_string render keys [] d = d"
  by (simp add: run_tasks_def)

text \<open>Every round of the reaper finds the leases of the jobs in flight unexpired.\<close>

fun timely ::
  "externals \<Rightarrow> config \<Rightarrow> (error \<Rightarrow> string) \<Rightarrow> (metrics \<Rightarrow> string) \<Rightarrow> api_keys \<Rightarrow> task list \<Rightarrow>
   worker list \<times> world \<Rightarrow> bool" where
  "timely x cfg to_string render keys [] d = True"
| "timely x cfg to_string render keys (task # tasks) d \<longleftrightarrow>
     (case task of ReaperTick \<Rightarrow> leases_hold (ev_now (current_event (snd d))) (daemon_flow d) | _ \<Rightarrow> True) \<and>
     timely x cfg to_string render keys tasks (perform x cfg to_string render keys task d)"

lemma flow_timely_steps: "flow_steps cl cap s s' \<Longrightarrow> timely_runs cl cap s s'"
  by (metis mono_rtranclp timely_step.other)

lemma reap_timely_run: "leases_hold now s \<Longrightarrow> timely_runs cl cap s (reaped now s)"
  by (rule r_into_rtranclp) (rule timely_step.reap)

lemma run_tasks_flow:
  assumes "daemon_ok d" "timely x cfg to_string render keys tasks d"
  shows "daemon_ok (run_tasks x cfg to_string render keys tasks d) \<and>
    timely_runs (client_ids (snd d)) (c_worker_queue_size cfg) (daemon_flow d)
      (daemon_flow (run_tasks x cfg to_string render keys tasks d))"
  using assms
proof (induction tasks arbitrary: d)
  case Nil
  then show ?case by (simp add: run_tasks_def)
next
  case (Cons task tasks)
  let ?cl = "client_ids (snd d)" and ?cap = "c_worker_queue_size cfg"
  define d' where "d' = perform x cfg to_string render keys task d"
  have sim: "simulates cfg task d d'"
    using perform_simulates [of "fst d" "snd d"] Cons.prems(1) by (simp add: d'_def)
  then have "timely_runs ?cl ?cap (daemon_flow d) (daemon_flow d')"
    using Cons.prems(2) flow_timely_steps
    by (cases "task = ReaperTick") (auto simp: simulates_def split: task.splits intro: reap_timely_run)
  moreover have "daemon_ok d'" "client_ids (snd d') = ?cl" "timely x cfg to_string render keys tasks d'"
    using sim Cons.prems(2) by (simp_all add: simulates_def d'_def)
  moreover have "run_tasks x cfg to_string render keys (task # tasks) d = run_tasks x cfg to_string render keys tasks d'"
    by (simp add: run_tasks_def d'_def)
  ultimately show ?case using Cons.IH [of d'] by (auto intro: rtranclp_trans)
qed

lemma idle_start:
  assumes "w_heap w = []" "w_queue w = []" "distinct (map row_id (w_jobs w))"
  shows "daemon_flow (replicate n Waiting, w) = flow_start (w_jobs w) n" "daemon_ok (replicate n Waiting, w)"
  using assms
  by (simp_all add: daemon_flow_def flow_at_def flow_start_def daemon_ok_def backed_def heap_ok_def slot_of_def)

section \<open>Integrity of the database\<close>

lemma perform_sql: "sql_effect w (snd (perform x cfg to_string render keys task (ks, w)))"
proof (cases task)
  case SchedulerStart
  have "sql_only (scheduler_start cfg)" by (intro effect_intro)
  then show ?thesis using SchedulerStart by (simp add: keepsD)
next
  case Timer
  have "sql_only (then_io loop_head (on_timer x cfg))" by (intro effect_intro)
  then show ?thesis using Timer by (simp add: keepsD)
next
  case Notified
  have "sql_only (then_io loop_head (on_notified cfg))" by (intro effect_intro)
  then show ?thesis using Notified by (simp add: keepsD sql.refl)
next
  case ReaperTick
  have "sql_only reaper_round" by (intro effect_intro)
  then show ?thesis using ReaperTick by (simp add: keepsD sql.refl)
next
  case (Request header e)
  have "sql_only (serve x to_string render keys header e)" by (intro effect_intro)
  then show ?thesis using Request by (simp add: keepsD)
next
  case (Receive i)
  then show ?thesis using worker_effect(1) [OF disjI1] sql.refl by (auto split: prod.split)
next
  case (StartJob i)
  then show ?thesis using worker_effect(1) [OF disjI2, OF disjI1] sql.refl by (auto split: prod.split)
next
  case (FinishJob i ee)
  then show ?thesis using worker_effect(1) [OF disjI2, OF disjI2] sql.refl by (auto split: prod.split)
next
  case Shutdown
  then show ?thesis by (simp add: sql.refl)
qed

lemma run_tasks_sql: "sql_effect (snd d) (snd (run_tasks x cfg to_string render keys tasks d))"
proof (induction tasks arbitrary: d)
  case Nil
  show ?case by (simp add: run_tasks_def sql.refl)
next
  case (Cons task tasks)
  have "sql_effect (snd d) (snd (perform x cfg to_string render keys task d))"
    using perform_sql [of "snd d" x cfg to_string render keys task "fst d"] by simp
  then show ?case using Cons.IH [of "perform x cfg to_string render keys task d"] sql.trans
    by (auto simp: run_tasks_def)
qed

text \<open>Whatever the daemon does, in any environment, the table keeps its integrity (unique ids and
  idempotency keys, column limits, state and policy texts, references), no row is ever removed, and the
  owner, payload, key, limits and parent of a job never change.\<close>

theorem daemon_keeps_integrity:
  assumes "table_ok (client_ids (snd d)) (w_jobs (snd d))"
  shows "table_ok (client_ids (snd d)) (w_jobs (snd (run_tasks x cfg to_string render keys tasks d))) \<and>
    (\<exists>new. map row_identity (w_jobs (snd (run_tasks x cfg to_string render keys tasks d))) =
       map row_identity (w_jobs (snd d)) @ new)"
proof -
  have "sql_steps (client_ids (snd d)) (w_jobs (snd d)) (w_jobs (snd (run_tasks x cfg to_string render keys tasks d)))"
    using run_tasks_sql [of d] by (simp add: sql_effect_def)
  then show ?thesis using integrity.steps assms identity.steps by (metis append_Nil2)
qed

text \<open>A dispatched job that runs into its timeout: its row stays and remains well-formed.\<close>

theorem daemon_keeps_integrity_witness:
  "let d = ([Waiting], due_world [sample_row 5 ''SCHEDULED'' None]);
       d' = run_tasks sample_externals sample_config (\<lambda>_. []) (\<lambda>_. []) Map.empty
              [Timer, Receive 0, StartJob 0, FinishJob 0 (sample_exec_env\<lparr>ee_times_out := True\<rparr>)] d
   in table_ok [1] (w_jobs (snd d')) \<and> map row_state (w_jobs (snd d')) = [''SCHEDULED''] \<and>
      (\<exists>new. map row_identity (w_jobs (snd d')) = row_identity (sample_row 5 ''SCHEDULED'' None) # new)"
proof -
  let ?d = "([Waiting], due_world [sample_row 5 ''SCHEDULED'' None])"
  let ?run = "run_tasks sample_externals sample_config (\<lambda>_. []) (\<lambda>_. []) Map.empty
    [Timer, Receive 0, StartJob 0, FinishJob 0 (sample_exec_env\<lparr>ee_times_out := True\<rparr>)] ?d"
  have "table_ok [1] [sample_row 5 ''SCHEDULED'' None]" by code_simp
  moreover have "client_ids (snd ?d) = [1]" by code_simp
  moreover have "map row_state (w_jobs (snd ?run)) = [''SCHEDULED'']" by code_simp
  ultimately show ?thesis
    using daemon_keeps_integrity [of ?d sample_externals sample_config "\<lambda>_. []" "\<lambda>_. []" Map.empty
        "[Timer, Receive 0, StartJob 0, FinishJob 0 (sample_exec_env\<lparr>ee_times_out := True\<rparr>)]"] by (simp add: Let_def)
qed

section \<open>A job that waits longer than its lease\<close>

text \<open>A clock that advances by 40 seconds with each interaction; a lease lasts 30 seconds.\<close>

definition slow_world :: world where
  "slow_world = (due_world [sample_row 5 ''SCHEDULED'' None])
     \<lparr>w_env := \<lambda>n. (idle_event n)\<lparr>ev_now := seconds (40 * int n)\<rparr>\<rparr>"

definition wide_config :: config where
  "wide_config = sample_config\<lparr>c_heap_lookahead_limit := 10\<rparr>"

definition run_sample :: "task list \<Rightarrow> worker list \<times> world \<Rightarrow> worker list \<times> world" where
  "run_sample = run_tasks sample_externals wide_config (\<lambda>_. []) (\<lambda>_. []) Map.empty"


section \<open>The jobs that run\<close>

text \<open>Only the workers count jobs.\<close>

definition active_kept :: effect where
  "active_kept w w' \<longleftrightarrow> w_active w' = w_active w"

interpretation active: table_blind active_kept
  by unfold_locales (simp_all add: active_kept_def)

interpretation active_scheduler: scheduler_effect active_kept
  by unfold_locales ((rule active.methods) | simp add: active_kept_def)+

lemma active_pool: "leaves_pool m \<Longrightarrow> keeps active_kept m"
  by (simp add: keeps_def active_kept_def pool_effect_def pool_state_def)

lemma perform_active:
  assumes "active_right (ks, w)"
  shows "active_right (perform x cfg to_string render keys task (ks, w))"
proof -
  have unchanged: "active_right (ks, snd (m w))" if "keeps active_kept m" for m :: "'a io"
    using keepsD [OF that, of w] assms by (simp add: active_right_def active_kept_def)
  show ?thesis
  proof (cases task)
    case SchedulerStart
    then show ?thesis by (simp add: unchanged active_scheduler.iterations)
  next
    case Timer
    then show ?thesis by (simp add: unchanged active.seq active_scheduler.iterations)
  next
    case Notified
    then show ?thesis by (simp add: unchanged active.seq active_scheduler.iterations assms)
  next
    case ReaperTick
    have "leaves_pool reaper_round" unfolding reaper_round_def by (intro effect_intro)
    then show ?thesis using ReaperTick assms by (simp add: unchanged active_pool)
  next
    case (Request header e)
    have "leaves_pool (serve x to_string render keys header e)" by (intro effect_intro)
    then show ?thesis using Request by (simp add: unchanged active_pool)
  next
    case (Receive i)
    then show ?thesis using active_right_worker [OF assms _ disjI1] assms by (auto split: prod.split)
  next
    case (StartJob i)
    then show ?thesis using active_right_worker [OF assms _ disjI2, OF _ disjI1] assms by (auto split: prod.split)
  next
    case (FinishJob i ee)
    then show ?thesis using active_right_worker [OF assms _ disjI2, OF _ disjI2] assms by (auto split: prod.split)
  next
    case Shutdown
    then show ?thesis using assms by (simp add: active_right_shutdown)
  qed
qed

lemma run_tasks_active: "active_right d \<Longrightarrow> active_right (run_tasks x cfg to_string render keys tasks d)"
  using perform_active by (induction tasks arbitrary: d) (simp_all add: run_tasks_def, fastforce)



section \<open>Orphaned jobs\<close>

lemma orphaned_simulates:
  assumes "simulates cfg task d d'" "orphaned i (daemon_flow d)"
  shows "orphaned i (daemon_flow d')"
  using assms orphans.steps orphaned_reaped by (auto simp: simulates_def split: if_splits)

lemma f_jobs_daemon_flow [simp]: "f_jobs (daemon_flow d) = w_jobs (snd d)"
  by (simp add: daemon_flow_def flow_at_def)

lemma run_tasks_orphaned:
  assumes "daemon_ok d" "orphaned i (daemon_flow d)"
  shows "daemon_ok (run_tasks x cfg to_string render keys tasks d) \<and>
    orphaned i (daemon_flow (run_tasks x cfg to_string render keys tasks d))"
  using assms
proof (induction tasks arbitrary: d)
  case (Cons task tasks)
  let ?d = "perform x cfg to_string render keys task d"
  have sim: "simulates cfg task d ?d" using perform_simulates [of "fst d" "snd d"] Cons.prems(1) by simp
  then have "daemon_ok ?d" by (simp add: simulates_def)
  with Cons.IH orphaned_simulates [OF sim Cons.prems(2)] show ?case by (simp add: run_tasks_Cons)
qed (simp add: run_tasks_Nil)



text \<open>The shutdown signal reaches idle workers only: a worker that is running a job when it is sent takes
  the next job of the channel afterwards.\<close>

theorem shutdown_misses_busy_worker:
  "let d = run_sample [Timer, Receive 0, StartJob 0] ([Waiting, Waiting], due_world [sample_row 5 ''SCHEDULED'' None, sample_row 6 ''SCHEDULED'' None]);
       d' = run_sample [Shutdown, FinishJob 0 (sample_exec_env\<lparr>ee_times_out := True\<rparr>), Receive 0] d
   in map slot_of (fst d) = [Executing 5, Free] \<and> map slot_of (fst d') = [Got 6, Free] \<and> fst d' ! 1 = Stopped"
  by code_simp

end
