(* ===== verification/Tally.thy ===== *)
theory Tally
  imports Daemon
begin

text \<open>
  The metrics of the daemon (\<open>src/metrics.rs\<close> and the places that record): what every task adds to the
  counters, whatever the environment does, and that the counters account for each other.
\<close>

section \<open>Effects on the metrics\<close>

text \<open>The jobs that have ended.\<close>

definition outcomes :: "metrics \<Rightarrow> nat" where
  "outcomes ms = m_completed ms + m_failed ms + m_expired ms"

text \<open>
  Nothing that is described as a counter or a histogram decreases, nothing sets the depth of the queue,
  and the gauge of running jobs goes on showing the number of running jobs.
\<close>

definition metrics_grow :: effect where
  "metrics_grow w w' \<longleftrightarrow> counters_grow (w_metrics w) (w_metrics w') \<and>
     m_queue_depth (w_metrics w') = m_queue_depth (w_metrics w) \<and>
     (m_worker_active (w_metrics w) = w_active w \<longrightarrow> m_worker_active (w_metrics w') = w_active w')"

text \<open>
  What a computation adds to the books: \<open>runs\<close> executions, at most \<open>ends\<close> outcomes, nothing dispatched, and
  the channel as it was.
\<close>

definition booked :: "nat \<Rightarrow> nat \<Rightarrow> effect" where
  "booked runs ends w w' \<longleftrightarrow> metrics_grow w w' \<and> w_queue w' = w_queue w \<and>
     m_dispatched (w_metrics w') = m_dispatched (w_metrics w) \<and>
     m_executions (w_metrics w') = m_executions (w_metrics w) + runs \<and>
     outcomes (w_metrics w') \<le> outcomes (w_metrics w) + ends"

text \<open>The dispatch adds as many to the counter of dispatched jobs as to the channel.\<close>

definition dispatched :: effect where
  "dispatched w w' \<longleftrightarrow> metrics_grow w w' \<and>
     m_dispatched (w_metrics w') + length (w_queue w) = m_dispatched (w_metrics w) + length (w_queue w') \<and>
     m_executions (w_metrics w') = m_executions (w_metrics w) \<and>
     outcomes (w_metrics w') = outcomes (w_metrics w)"

lemma metrics_grow_trans: "metrics_grow u v \<Longrightarrow> metrics_grow v w \<Longrightarrow> metrics_grow u w"
  by (auto simp: metrics_grow_def Let_def)

lemma metrics_grow_same:
  "w_metrics w' = w_metrics w \<Longrightarrow> w_active w' = w_active w \<Longrightarrow> metrics_grow w w'"
  by (simp add: metrics_grow_def)

lemma booked_trans:
  "booked r e u v \<Longrightarrow> booked r' e' v w \<Longrightarrow> n = r + r' \<Longrightarrow> m = e + e' \<Longrightarrow> booked n m u w"
  using metrics_grow_trans by (auto simp: booked_def)

interpretation idle: table_blind "booked 0 0"
proof
  show "booked 0 0 u v \<Longrightarrow> booked 0 0 v w \<Longrightarrow> booked 0 0 u w" for u v w by (erule (1) booked_trans) simp_all
qed (simp_all add: booked_def metrics_grow_same)

interpretation dispatch: table_blind dispatched
proof
  show "dispatched u v \<Longrightarrow> dispatched v w \<Longrightarrow> dispatched u w" for u v w
    using metrics_grow_trans by (auto simp: dispatched_def)
qed (simp_all add: dispatched_def metrics_grow_same)

interpretation booking: one_shot "booked 0 0" "booked 0 1" "booked 0 0"
proof
  show "booked 0 0 u v \<Longrightarrow> booked 0 1 v w \<Longrightarrow> booked 0 1 u w"
    "booked 0 1 u v \<Longrightarrow> booked 0 0 v w \<Longrightarrow> booked 0 1 u w" for u v w
    by (erule (1) booked_trans; simp)+
qed (simp_all add: booked_def)

text \<open>A run of a job: it is not counted at all, or as one execution with at most one outcome.\<close>

definition run_booked :: effect where
  "run_booked w w' \<longleftrightarrow> booked 0 0 w w' \<or> booked 1 1 w w'"

interpretation running: one_shot "booked 0 0" run_booked "booked 0 0"
proof
  show "booked 0 0 u v \<Longrightarrow> run_booked v w \<Longrightarrow> run_booked u w" for u v w
    unfolding run_booked_def using booked_trans [of 0 0 u v 0 0 w] booked_trans [of 0 0 u v 1 1 w] by auto
  show "run_booked u v \<Longrightarrow> booked 0 0 v w \<Longrightarrow> run_booked u w" for u v w
    unfolding run_booked_def using booked_trans [of 0 0 u v 0 0 w] booked_trans [of 1 1 u v 0 0 w] by auto
qed (simp_all add: run_booked_def)

section \<open>What the operations record\<close>

named_theorems books \<open>what computations add to the metrics\<close>

lemma idle_metric:
  assumes "\<And>ms. m_scheduled ms \<le> m_scheduled (f ms)" "\<And>ms. m_webhook_failures ms \<le> m_webhook_failures (f ms)"
    "\<And>ms. m_recurring_created ms \<le> m_recurring_created (f ms)" "\<And>ms. m_dispatched (f ms) = m_dispatched ms"
    "\<And>ms. m_completed (f ms) = m_completed ms" "\<And>ms. m_failed (f ms) = m_failed ms" "\<And>ms. m_expired (f ms) = m_expired ms"
    "\<And>ms. m_executions (f ms) = m_executions ms" "\<And>ms. m_queue_depth (f ms) = m_queue_depth ms"
    "\<And>ms. m_worker_active (f ms) = m_worker_active ms"
  shows "keeps (booked 0 0) (count_metric f)"
  unfolding count_metric_def by (rule keeps_modify) (simp add: booked_def metrics_grow_def Let_def outcomes_def assms)

lemma idle_counting [books]:
  "keeps (booked 0 0) record_recurring_instance_created" "keeps (booked 0 0) record_job_scheduled"
  "keeps (booked 0 0) record_webhook_failure" "keeps (booked 0 0) (set_scheduler_heap_size n)"
  "keeps (booked 0 0) refresh_metrics"
  unfolding record_recurring_instance_created_def record_job_scheduled_def record_webhook_failure_def
    set_scheduler_heap_size_def refresh_metrics_def set_recurring_jobs_active_def
  by (intro idle.core_composition keeps_cases idle.methods idle_metric; simp)+

lemma idle_posting [books]:
  "keeps (booked 0 0) (post_hook u b e)" "keeps (booked 0 0) (sleep_secs n)"
  "keeps (booked 0 0) (set_heap h)" "keeps (booked 0 0) store_alive"
  by (simp_all add: keeps_def booked_def metrics_grow_def Let_def post_hook_def sleep_secs_def set_heap_def
      store_alive_def modify_io_def)

lemmas [books] = idle.core_composition idle.methods idle.lift_result keeps_if keeps_cases idle.ping
  idle.recurring [OF idle_counting(5,1)] idle.requests [OF idle_counting(5,1,2)]
  idle.serve [OF idle.requests [OF idle_counting(5,1,2)]]

lemma idle_emit [books]: "keeps (booked 0 0) (emit x cfg i)"
  by (intro idle.emit idle.deliver books)

section \<open>The result handler\<close>

lemma outcome_records:
  "keeps (booked 0 1) record_job_completed" "keeps (booked 0 1) record_job_failed" "keeps (booked 0 1) record_job_expired"
  by (simp_all add: keeps_def booked_def metrics_grow_def Let_def outcomes_def record_job_completed_def
      record_job_failed_def record_job_expired_def count_metric_run)

lemma handler_ends:
  "keeps (booked 0 1) (handle_success x cfg j)" "keeps (booked 0 1) (handle_expired x cfg j)"
  "keeps (booked 0 1) (handle_dead_letter x cfg j)" "keeps (booked 0 1) (handle_retry cfg j now n)"
proof -
  show "keeps (booked 0 1) (handle_success x cfg j)" "keeps (booked 0 1) (handle_expired x cfg j)"
    "keeps (booked 0 1) (handle_dead_letter x cfg j)"
    unfolding handle_success_def handle_expired_def handle_dead_letter_def
    by (intro booking.seq_earlier books booking.seq_later outcome_records)+
  show "keeps (booked 0 1) (handle_retry cfg j now n)"
    unfolding handle_retry_def by (intro booking.weaken(1) books)
qed

lemma handle_booked: "keeps (booked 1 1) (handle x cfg j res)"
proof (rule keepsI)
  fix w :: world
  let ?w = "w\<lparr>w_metrics := (w_metrics w)\<lparr>m_executions := Suc (m_executions (w_metrics w))\<rparr>\<rparr>"
  let ?rest = "bind_io utc_now (\<lambda>now.
        if res_success res then handle_success x cfg j
        else if (case job_expires_at j of None \<Rightarrow> False | Some expires_at \<Rightarrow> expires_at \<le> now)
        then handle_expired x cfg j
        else
          let next_attempt = wrap_i32 (job_attempt_count j + 1) in
          if job_max_retries j < next_attempt then handle_dead_letter x cfg j
          else handle_retry cfg j now next_attempt)"
  have "keeps (booked 0 1) ?rest"
    by (intro booking.bind_earlier idle.utc_now keeps_if keeps_cases(4) handler_ends)
  then have "booked 0 1 ?w (snd (?rest ?w))" by (rule keepsD)
  moreover have "snd (handle x cfg j res w) = snd (?rest ?w)"
    by (simp add: handle_def record_execution_duration_def then_io_run count_metric_run)
  moreover have "booked 1 0 w ?w" by (simp add: booked_def metrics_grow_def Let_def outcomes_def)
  ultimately show "booked 1 1 w (snd (handle x cfg j res w))"
    using booked_trans [of 1 0 w ?w 0 1] by simp
qed

lemma idle_counts: "keeps (booked 0 0) job_begins" "keeps (booked 0 0) job_ends"
  by (simp_all add: keeps_def job_begins_run job_ends_run booked_def metrics_grow_def Let_def outcomes_def)

lemma start_job_booked: "keeps (booked 0 0) (start_job j)"
  unfolding start_job_def by (intro books idle_counts)

lemma finish_job_booked: "keeps run_booked (finish_job x cfg ee j)"
proof -
  have "keeps run_booked (handle x cfg j res)" for res
    using handle_booked [of x cfg j res] by (simp add: keeps_def run_booked_def)
  then show ?thesis
    unfolding finish_job_def
    by (intro running.bind_earlier running.bind_later running.attempt idle_counts idle.lift_result)
qed

section \<open>The scheduler\<close>

lemma idle_dispatched: "keeps (booked 0 0) m \<Longrightarrow> keeps dispatched m"
proof (rule keepsI)
  show "dispatched w (snd (m w))" if "keeps (booked 0 0) m" for w
    using keepsD [OF that, of w] by (simp add: booked_def dispatched_def metrics_grow_def Let_def outcomes_def)
qed

lemma send_dispatched:
  assumes "keeps dispatched k" "keeps dispatched f" "keeps dispatched c"
  shows "keeps dispatched (bind_io (try_send cfg j) (\<lambda>sent. case sent of
     Sent \<Rightarrow> then_io record_job_dispatched k | Full \<Rightarrow> f | Closed \<Rightarrow> c))"
proof (rule keepsI)
  fix w :: world
  let ?w = "w\<lparr>w_queue := w_queue w @ [j], w_metrics := (w_metrics w)\<lparr>m_dispatched := Suc (m_dispatched (w_metrics w))\<rparr>\<rparr>"
  have "dispatched w ?w" by (simp add: dispatched_def metrics_grow_def Let_def outcomes_def)
  then have "dispatched w (snd (k ?w))" using dispatch.trans keepsD [OF assms(1)] by blast
  then show "dispatched w (snd (bind_io (try_send cfg j) (\<lambda>sent. case sent of
     Sent \<Rightarrow> then_io record_job_dispatched k | Full \<Rightarrow> f | Closed \<Rightarrow> c) w))"
    using keepsD [OF assms(2)] keepsD [OF assms(3)]
    by (simp add: bind_io_def try_send_def then_io_run record_job_dispatched_run)
qed

lemma dispatch_from_dispatched: "keeps dispatched (dispatch_from x cfg now heap)"
proof (induction x cfg now heap rule: dispatch_from.induct)
  case (1 x cfg now heap)
  have set: "keeps dispatched (set_heap h)" for h by (intro idle_dispatched books)
  have full: "keeps dispatched (then_io (schedule_retry i t n) (then_io notify_one (return_io ())))" for i t n
    by (intro dispatch.core_composition dispatch.methods)
  show ?case
  proof (cases "heap_peek heap")
    case None
    then show ?thesis by (simp add: dispatch_from.simps dispatch.return del: return_io_run)
  next
    case (Some soonest)
    show ?thesis
    proof (cases "now < sj_scheduled_at soonest")
      case True
      then show ?thesis using Some by (simp add: dispatch_from.simps dispatch.return del: return_io_run)
    next
      case False
      show ?thesis
      proof (cases "heap_pop heap")
        case None
        then show ?thesis using Some False by (simp add: dispatch_from.simps dispatch.throw del: throw_io_run)
      next
        case (Some popped)
        obtain sj heap' where popped: "popped = (sj, heap')" by fastforce
        have again: "keeps dispatched (dispatch_from x cfg now heap')"
          using 1 \<open>heap_peek heap = Some soonest\<close> False Some popped by blast
        show ?thesis
          by (subst dispatch_from.simps)
            (simp add: \<open>heap_peek heap = Some soonest\<close> False Some popped del: return_io_run, intro dispatch.seq set dispatch.bind
              dispatch.methods keeps_cases(1) again send_dispatched full dispatch.return)
      qed
    qed
  qed
qed

lemma idle_refresh [books]: "keeps (booked 0 0) (refresh_heap cfg)"
  unfolding refresh_heap_def by (intro idle_counting idle_posting books)

lemma scheduler_dispatched:
  "keeps dispatched (scheduler_start cfg)" "keeps dispatched (on_notified cfg)" "keeps dispatched loop_head"
  "keeps dispatched (on_timer x cfg)"
proof -
  have permit: "keeps (booked 0 0) (modify_io (\<lambda>w. w\<lparr>w_permit := b\<rparr>))" for b
    by (rule keeps_modify) (rule idle.permit)
  show "keeps dispatched (scheduler_start cfg)" "keeps dispatched (on_notified cfg)"
    unfolding scheduler_start_def on_notified_def by (intro idle_dispatched books permit)+
  show "keeps dispatched loop_head"
    by (rule keepsI) (simp add: loop_head_def store_alive_def run dispatched_def metrics_grow_same split: option.split)
  have "keeps dispatched (\<lambda>w. dispatch_from x cfg now (w_heap w) w)" for now
    using dispatch_from_dispatched by (simp add: keeps_def)
  then show "keeps dispatched (on_timer x cfg)"
    unfolding on_timer_def dispatch_due_jobs_def by (intro dispatch.core_composition)
qed

section \<open>The tasks\<close>

definition holds_job :: "worker \<Rightarrow> bool" where
  "holds_job k \<longleftrightarrow> (case k of Busy j \<Rightarrow> True | Working j \<Rightarrow> True | _ \<Rightarrow> False)"

definition busy_count :: "worker list \<Rightarrow> nat" where
  "busy_count ks = count_where holds_job ks"

text \<open>The jobs the workers have still to run: those in the channel and those they hold.\<close>

definition pending :: "worker list \<times> world \<Rightarrow> nat" where
  "pending d = length (w_queue (snd d)) + busy_count (fst d)"

text \<open>
  Between two states of the daemon, the jobs executed and still pending are at most those pending before
  and those dispatched, and the outcomes recorded are at most the executions.
\<close>

definition tallied :: "worker list \<times> world \<Rightarrow> worker list \<times> world \<Rightarrow> bool" where
  "tallied d d' \<longleftrightarrow>
     (let a = w_metrics (snd d); b = w_metrics (snd d') in
      metrics_grow (snd d) (snd d') \<and>
      m_executions b + pending d' + m_dispatched a \<le> m_dispatched b + m_executions a + pending d \<and>
      outcomes b + m_executions a \<le> outcomes a + m_executions b)"

lemmas busy_count_update = count_where_set [where P = holds_job, folded busy_count_def]

lemma busy_count_shutdown: "busy_count (pool_shutdown ks) = busy_count ks"
  unfolding busy_count_def pool_shutdown_def count_where_def
  by (induction ks) (auto simp: worker_shutdown_def holds_job_def split: worker.split)

lemma tallied_trans: "tallied d d1 \<Longrightarrow> tallied d1 d2 \<Longrightarrow> tallied d d2"
  using metrics_grow_trans by (fastforce simp: tallied_def Let_def)

lemma tallied_dispatched: "dispatched w w' \<Longrightarrow> tallied (ks, w) (ks, w')"
  by (simp add: tallied_def dispatched_def pending_def Let_def)

lemma tallied_idle: "keeps dispatched m \<Longrightarrow> tallied (ks, w) (ks, snd (m w))"
  by (simp add: tallied_dispatched keepsD)

lemma tallied_receive:
  assumes "i < length ks" "worker_receive (ks ! i) w = (k, w')"
  shows "tallied (ks, w) (ks[i := k], w')"
proof (cases "ks ! i = Waiting \<and> w_queue w \<noteq> []")
  case True
  then obtain j js where "w_queue w = j # js" "k = Busy j" "w' = w\<lparr>w_queue := js\<rparr>"
    using assms(2) by (cases "w_queue w") (auto simp: worker_receive_def)
  then show ?thesis
    using True busy_count_update [OF assms(1), of k] by (simp add: tallied_def pending_def metrics_grow_same holds_job_def)
next
  case False
  then have "w' = w" "holds_job k = holds_job (ks ! i)"
    using assms(2) by (auto simp: worker_receive_def holds_job_def split: worker.splits list.splits if_splits)
  then show ?thesis
    using busy_count_update [OF assms(1), of k] by (simp add: tallied_def pending_def metrics_grow_same)
qed

lemma tallied_start:
  assumes "i < length ks" "worker_start (ks ! i) w = (k, w')"
  shows "tallied (ks, w) (ks[i := k], w')"
proof (cases "ks ! i")
  case (Busy j)
  obtain r w1 where run: "start_job j w = (r, w1)" by fastforce
  then have "holds_job k \<longrightarrow> holds_job (ks ! i)" "w' = w1"
    using assms(2) Busy by (auto simp: worker_start_def holds_job_def split: sum.splits option.splits)
  then show ?thesis
    using keeps_runD [OF start_job_booked run] busy_count_update [OF assms(1), of k]
    by (auto simp: tallied_def booked_def pending_def Let_def split: if_splits)
qed (use assms(2) list_update_id [of ks i] in \<open>auto simp: worker_start_def tallied_def metrics_grow_same\<close>)

lemma tallied_finish:
  assumes "i < length ks" "worker_finish x cfg ee (ks ! i) w = (k, w')"
  shows "tallied (ks, w) (ks[i := k], w')"
proof (cases "ks ! i")
  case (Working j)
  obtain r w1 where run: "finish_job x cfg ee j w = (r, w1)" by fastforce
  then have "\<not> holds_job k" "w' = w1"
    using assms(2) Working by (auto simp: worker_finish_def holds_job_def split: sum.splits)
  then show ?thesis
    using keeps_runD [OF finish_job_booked run] Working busy_count_update [OF assms(1), of k]
    by (auto simp: tallied_def run_booked_def booked_def pending_def holds_job_def Let_def)
qed (use assms(2) list_update_id [of ks i] in \<open>auto simp: worker_finish_def tallied_def metrics_grow_same\<close>)

lemma perform_tallied: "tallied (ks, w) (perform x cfg to_string render keys task (ks, w))"
proof (cases task)
  case SchedulerStart
  then show ?thesis using tallied_idle [OF scheduler_dispatched(1)] by simp
next
  case Timer
  then show ?thesis
    using tallied_idle [OF dispatch.seq [OF scheduler_dispatched(3,4)]] by simp
next
  case Notified
  then show ?thesis
    using tallied_idle [OF dispatch.seq [OF scheduler_dispatched(3,2)]] tallied_dispatched [OF dispatch.refl] by simp
next
  case ReaperTick
  have "keeps dispatched reaper_round"
    unfolding reaper_round_def by (intro dispatch.core_composition dispatch.methods keeps_cases keeps_if)
  then show ?thesis using ReaperTick tallied_idle [of reaper_round ks w] tallied_dispatched [OF dispatch.refl, of ks w] by simp
next
  case (Request header e)
  have "keeps dispatched (serve x to_string render keys header e)" by (intro idle_dispatched books)
  then show ?thesis using Request tallied_idle by simp
next
  case (Receive i)
  then show ?thesis
    using tallied_receive [of i ks w] tallied_dispatched [OF dispatch.refl, of ks w] by (auto split: prod.split)
next
  case (StartJob i)
  then show ?thesis
    using tallied_start [of i ks w] tallied_dispatched [OF dispatch.refl, of ks w] by (auto split: prod.split)
next
  case (FinishJob i ee)
  then show ?thesis
    using tallied_finish [of i ks x cfg ee w] tallied_dispatched [OF dispatch.refl, of ks w] by (auto split: prod.split)
next
  case Shutdown
  then show ?thesis by (simp add: tallied_def pending_def busy_count_shutdown metrics_grow_same)
qed


end
