(* ===== verification/Job_Life.thy ===== *)
theory Job_Life
  imports Tally
begin

text \<open>
  Jobs from their submission to their end: the components composed along the life of one job. A
  submitted job that is due and succeeds is completed by one iteration of every task; a job whose
  executions fail is executed once more than its maximum of retries and is then dead-lettered.
\<close>

section \<open>The number of executions\<close>

abbreviation executions :: "world \<Rightarrow> nat" where
  "executions w \<equiv> m_executions (w_metrics w)"

lemma handle_executions: "executions (snd (handle x cfg j res w)) = Suc (executions w)"
  using keepsD [OF handle_booked] by (simp add: booked_def)

lemma emit_executions: "executions (snd (emit x cfg i w)) = executions w"
  using keepsD [OF idle_emit] by (simp add: booked_def)

section \<open>One execution of a job\<close>

text \<open>The worker's part: the row is marked RUNNING and the result is handled from there.\<close>

lemma run_job_handles:
  assumes "quiet w" "execute ee (c_script_safe_dir cfg) (job_payload_of j) = Inr res"
  obtains w1 where "quiet w1" "w_env w1 = w_env w" "executions w1 = executions w"
    "w_jobs w1 = update_where (id_where (job_id j)) (running_set (ev_now (current_event w))) (w_jobs w)"
    "w_jobs (snd (run_job x cfg ee j w)) = w_jobs (snd (handle x cfg (j\<lparr>job_state_of := Running\<rparr>) res w1))"
    "executions (snd (run_job x cfg ee j w)) = executions (snd (handle x cfg (j\<lparr>job_state_of := Running\<rparr>) res w1))"
proof -
  define w0 where "w0 = w\<lparr>w_active := w_active w + 1, w_metrics := (w_metrics w)\<lparr>m_worker_active := w_active w + 1\<rparr>\<rparr>"
  define w1 where "w1 = (tick w0)\<lparr>w_jobs := update_where (id_where (job_id j)) (running_set (ev_now (current_event w0))) (w_jobs w0)\<rparr>"
  have "w_jobs (snd (run_job x cfg ee j w)) = w_jobs (snd (handle x cfg (j\<lparr>job_state_of := Running\<rparr>) res w1)) \<and>
    executions (snd (run_job x cfg ee j w)) = executions (snd (handle x cfg (j\<lparr>job_state_of := Running\<rparr>) res w1))"
    using assms by (simp add: run_job_def start_job_def finish_job_def run lift_result_def w0_def w1_def split: prod.split sum.split error.split)
  moreover have "quiet w1" "w_env w1 = w_env w" "executions w1 = executions w"
    "w_jobs w1 = update_where (id_where (job_id j)) (running_set (ev_now (current_event w))) (w_jobs w)"
    using assms(1) by (simp_all add: w0_def w1_def)
  ultimately show ?thesis using that by blast
qed

section \<open>A job that always fails\<close>

text \<open>The lease of a job and its execution by a worker, one after the other.\<close>

definition run_leased :: "externals \<Rightarrow> config \<Rightarrow> exec_env \<Rightarrow> uuid \<Rightarrow> unit io" where
  "run_leased x cfg ee i =
     bind_io (lease_job x i (c_lease_duration cfg)) (\<lambda>leased.
     case leased of None \<Rightarrow> return_io () | Some j \<Rightarrow> run_job x cfg ee j)"

text \<open>The job of the row \<open>r\<close> fails whenever it is executed, has no TTL, and backs off without overflow.\<close>

definition keeps_failing :: "externals \<Rightarrow> config \<Rightarrow> exec_env \<Rightarrow> job_row \<Rightarrow> bool" where
  "keeps_failing x cfg ee r \<longleftrightarrow>
     (\<exists>p res. x_from_value x (row_payload r) = Some p \<and> execute ee (c_script_safe_dir cfg) p = Inr res \<and> \<not> res_success res) \<and>
     row_expires_at r = None \<and> is_i32 (row_retry_delay_sec r) \<and> 0 \<le> row_retry_delay_sec r \<and> row_max_retries r \<le> 32 \<and>
     0 \<le> c_max_retry_backoff_secs cfg"

text \<open>The clock is far enough from the ends of the calendar.\<close>

definition clock_ok :: "config \<Rightarrow> (nat \<Rightarrow> event) \<Rightarrow> bool" where
  "clock_ok cfg env \<longleftrightarrow> (\<forall>n. min_instant \<le> ev_now (env n) \<and>
     ev_now (env n) + seconds (c_max_retry_backoff_secs cfg) \<le> max_instant)"

lemma keeps_failing_identity: "row_identity r' = row_identity r \<Longrightarrow> keeps_failing x cfg ee r' = keeps_failing x cfg ee r"
  using row_identityD [of r' r] by (simp add: keeps_failing_def)

lemma sql_only_run_leased [effect_intro]: "sql_only (run_leased x cfg ee i)"
  unfolding run_leased_def by (intro effect_intro)

lemma failing_run:
  assumes "quiet w" "distinct (map row_id (w_jobs w))" "clock_ok cfg (w_env w)"
    and "row_with_id i (w_jobs w) = Some r" "row_state r = ''SCHEDULED''" "keeps_failing x cfg ee r"
    and "0 \<le> row_attempt_count r" "row_attempt_count r \<le> 32"
  shows "executions (snd (run_leased x cfg ee i w)) = Suc (executions w) \<and>
    (\<exists>r'. row_with_id i (w_jobs (snd (run_leased x cfg ee i w))) = Some r' \<and> row_identity r' = row_identity r \<and>
      (if row_max_retries r \<le> row_attempt_count r then row_state r' = ''DEAD_LETTER''
       else row_state r' = ''SCHEDULED'' \<and> row_attempt_count r' = row_attempt_count r + 1))"
proof -
  let ?r = "leased_row cfg w r"
  have id: "row_id r = i" using row_with_id_SomeD [OF assms(4)] by simp
  have same: "row_identity ?r = row_identity r" by (simp add: leased_row_def lease_set_def row_identity_def)
  obtain p res where p: "x_from_value x (row_payload r) = Some p" "execute ee (c_script_safe_dir cfg) p = Inr res"
    "\<not> res_success res" using assms(6) by (auto simp: keeps_failing_def)
  have "row_payload ?r = row_payload r" using row_identityD(4) [OF same] .
  then obtain j where j: "from_row (x_from_value x) ?r = Inr j" "job_payload_of j = p"
    using from_row_total [of ?r "x_from_value x"] p(1) from_row_InrD(4) [of "x_from_value x" ?r]
    by (force simp: job_state_from_str_def)
  note jr = from_row_InrD [OF j(1)] row_identityD [OF same]
  have f: "List.find (lease_where i) (w_jobs w) = Some r" using assms(2,4,5) by (simp add: find_lease_where)
  have run_eq: "snd (run_leased x cfg ee i w) = snd (run_job x cfg ee j (leased_world cfg i w))"
    using assms(1) f j(1) by (simp add: run_leased_def bind_io_def lease_job_quiet decoded_def)
  have "executions (leased_world cfg i w) = executions w" "w_env (leased_world cfg i w) = w_env w"
    by (simp_all add: leased_world_def)
  then obtain w1 where w1: "quiet w1" "w_env w1 = w_env w" "executions w1 = executions w"
    "w_jobs w1 = update_where (id_where i) (running_set (ev_now (current_event (leased_world cfg i w)))) (w_jobs (leased_world cfg i w))"
    "w_jobs (snd (run_leased x cfg ee i w)) = w_jobs (snd (handle x cfg (j\<lparr>job_state_of := Running\<rparr>) res w1))"
    "executions (snd (run_leased x cfg ee i w)) = executions (snd (handle x cfg (j\<lparr>job_state_of := Running\<rparr>) res w1))"
    using run_job_handles [of "leased_world cfg i w" ee cfg j res x] assms(1) p(2) j(2) jr(1) id
    by (auto simp: run_eq)
  let ?j = "j\<lparr>job_state_of := Running\<rparr>" and ?now = "ev_now (current_event w1)"
  have att: "is_i32 (job_attempt_count ?j)" "job_attempt_count ?j < i32_max"
    using assms(7,8) jr by (simp_all add: is_i32_def int_limits)
  obtain g where g: "w_jobs (snd (handle x cfg ?j res w1)) = update_where (id_where i) g (w_jobs w1)"
    "\<And>r. failure_row cfg ?now ?j r (g r)"
    using handle_failure_rows [OF w1(1) p(3) att, of x cfg] jr(1) id by auto
  define r1 where "r1 = running_set (ev_now (current_event (leased_world cfg i w))) ?r"
  have r1: "row_with_id i (w_jobs w1) = Some r1" "row_identity r1 = row_identity r" "row_id r1 = i"
    using assms(4,5) id by (simp_all add: w1(4) r1_def row_with_id_update lease_where_def id_where_def running_set_def
        leased_row_def lease_set_def row_identity_def)
  have gid: "row_id (g s) = row_id s" for s using g(2) [of s] row_identityD(1) by (auto simp: failure_row_def)
  then have found: "row_with_id i (w_jobs (snd (run_leased x cfg ee i w))) = Some (g r1)"
    using r1 by (simp add: w1(5) g(1) row_with_id_update id_where_def)
  have clock: "min_instant \<le> ?now" "?now + seconds (c_max_retry_backoff_secs cfg) \<le> max_instant"
    using assms(3) w1(2) by (simp_all add: clock_ok_def current_event_def)
  obtain at where at: "add_seconds ?now (compute_retry_delay (row_retry_delay_sec r) (row_attempt_count r + 1)
      (c_max_retry_backoff_secs cfg)) = Inr at"
    using retry_instant [of ?j cfg ?now] clock assms(6-8) jr by (auto simp: keeps_failing_def)
  have "executions (snd (run_leased x cfg ee i w)) = Suc (executions w)"
    using handle_executions w1(3,6) by simp
  moreover have "\<not> expired_at ?now ?j" using assms(6) jr by (simp add: expired_at_def keeps_failing_def)
  ultimately show ?thesis
    using found g(2) [of r1] r1(2) at jr by (auto simp: failure_row_def split: if_splits)
qed

lemma run_leased_not_scheduled:
  assumes "quiet w" "distinct (map row_id (w_jobs w))" "row_with_id i (w_jobs w) = Some r" "row_state r \<noteq> ''SCHEDULED''"
  shows "w_jobs (snd (run_leased x cfg ee i w)) = w_jobs w" "executions (snd (run_leased x cfg ee i w)) = executions w"
proof -
  have f: "List.find (lease_where i) (w_jobs w) = None" using assms(2-4) by (simp add: find_lease_where)
  then have "w_jobs (leased_world cfg i w) = w_jobs w" by (simp add: update_where_none find_None_iff)
  then show "w_jobs (snd (run_leased x cfg ee i w)) = w_jobs w"
    "executions (snd (run_leased x cfg ee i w)) = executions w"
    using f assms(1) by (simp_all add: run_leased_def bind_io_def lease_job_quiet decoded_def) (simp add: leased_world_def)
qed

abbreviation rounds :: "externals \<Rightarrow> config \<Rightarrow> exec_env \<Rightarrow> uuid \<Rightarrow> nat \<Rightarrow> world \<Rightarrow> world" where
  "rounds x cfg ee i n w \<equiv> ((\<lambda>w. snd (run_leased x cfg ee i w)) ^^ n) w"

lemma failing_rounds:
  assumes "quiet w" "distinct (map row_id (w_jobs w))" "clock_ok cfg (w_env w)"
    and "row_with_id i (w_jobs w) = Some r" "row_state r = ''SCHEDULED''" "keeps_failing x cfg ee r"
    and "0 \<le> row_attempt_count r" "row_attempt_count r \<le> row_max_retries r"
  shows "quiet (rounds x cfg ee i n w) \<and> distinct (map row_id (w_jobs (rounds x cfg ee i n w))) \<and>
    w_env (rounds x cfg ee i n w) = w_env w \<and>
    (\<exists>r'. row_with_id i (w_jobs (rounds x cfg ee i n w)) = Some r' \<and> row_identity r' = row_identity r \<and>
      (if int n \<le> row_max_retries r - row_attempt_count r
       then executions (rounds x cfg ee i n w) = executions w + n \<and>
         row_state r' = ''SCHEDULED'' \<and> row_attempt_count r' = row_attempt_count r + int n
       else executions (rounds x cfg ee i n w) = executions w + nat (row_max_retries r - row_attempt_count r) + 1 \<and>
         row_state r' = ''DEAD_LETTER''))"
proof (induction n)
  case 0
  show ?case using assms by simp
next
  case (Suc n)
  let ?w = "rounds x cfg ee i n w" and ?left = "row_max_retries r - row_attempt_count r"
  obtain r' where r': "row_with_id i (w_jobs ?w) = Some r'" "row_identity r' = row_identity r"
    "if int n \<le> ?left then executions ?w = executions w + n \<and>
         row_state r' = ''SCHEDULED'' \<and> row_attempt_count r' = row_attempt_count r + int n
       else executions ?w = executions w + nat ?left + 1 \<and> row_state r' = ''DEAD_LETTER''"
    using Suc by blast
  have w: "quiet ?w" "distinct (map row_id (w_jobs ?w))" "w_env ?w = w_env w" using Suc by simp_all
  have eff: "quiet (rounds x cfg ee i (Suc n) w)" "w_env (rounds x cfg ee i (Suc n) w) = w_env w"
    "distinct (map row_id (w_jobs (rounds x cfg ee i (Suc n) w)))"
    using sql_onlyD [OF sql_only_run_leased [of x cfg ee i], of ?w] w ids.steps by auto
  have max: "row_max_retries r' = row_max_retries r" using row_identityD(6) [OF r'(2)] .
  show ?case
  proof (cases "int n \<le> ?left")
    case True
    then have st: "row_state r' = ''SCHEDULED''" "row_attempt_count r' = row_attempt_count r + int n"
      "executions ?w = executions w + n" using r'(3) by simp_all
    have fl: "keeps_failing x cfg ee r'" using assms(6) keeps_failing_identity [OF r'(2)] by blast
    then have "row_attempt_count r' \<le> 32" "0 \<le> row_attempt_count r'"
      using True st(2) max assms(7) by (simp_all add: keeps_failing_def)
    from failing_run [OF w(1,2) _ r'(1) st(1) fl this(2,1)] assms(3) w(3)
    obtain r2 where "executions (rounds x cfg ee i (Suc n) w) = Suc (executions ?w)"
      "row_with_id i (w_jobs (rounds x cfg ee i (Suc n) w)) = Some r2" "row_identity r2 = row_identity r'"
      "if row_max_retries r' \<le> row_attempt_count r' then row_state r2 = ''DEAD_LETTER''
       else row_state r2 = ''SCHEDULED'' \<and> row_attempt_count r2 = row_attempt_count r' + 1" by auto
    then show ?thesis using eff r'(2) st max True by (auto split: if_splits)
  next
    case False
    then have "row_state r' \<noteq> ''SCHEDULED''" "executions ?w = executions w + nat ?left + 1" "row_state r' = ''DEAD_LETTER''"
      using r'(3) by simp_all
    then show ?thesis
      using run_leased_not_scheduled [OF w(1,2) r'(1), of x cfg ee] eff r' False by auto
  qed
qed


text \<open>A request to a server that does not answer, with three retries: four executions.\<close>

definition frozen_world :: "table \<Rightarrow> world" where
  "frozen_world t = (idle_world t)\<lparr>w_env := \<lambda>_. idle_event 0\<rparr>"

lemma frozen_world_simps [simp]:
  "quiet (frozen_world t)" "w_jobs (frozen_world t) = t" "w_env (frozen_world t) = (\<lambda>_. idle_event 0)"
  by (simp_all add: frozen_world_def quiet_def idle_event_def)


section \<open>A job that succeeds\<close>

lemma row_with_id_append:
  "row_with_id i (t @ [r]) = (case row_with_id i t of Some s \<Rightarrow> Some s | None \<Rightarrow> if row_id r = i then Some r else None)"
  by (induction t) (auto simp: row_with_id_def)

text \<open>What the statements on a job do to a table in which it is the last row.\<close>

lemma update_last:
  assumes "row_id r = i" "i \<notin> row_id ` set t" "\<And>s. p s \<Longrightarrow> row_id s = i"
  shows "update_where p g (t @ [r]) = t @ [if p r then g r else r]"
proof -
  have "\<not> p s" if "s \<in> set t" for s using that assms(2,3) by force
  then show ?thesis by (simp add: update_where_def map_idI)
qed

lemma handle_success_run:
  assumes "quiet w" "res_success res" "job_parent_job_id j = None"
  obtains g where "w_jobs (snd (handle x cfg j res w)) = update_where (id_where (job_id j)) g (w_jobs w)"
    "\<And>r. row_identity (g r) = row_identity r \<and> row_state (g r) = ''COMPLETED''"
    "executions (snd (handle x cfg j res w)) = Suc (executions w)"
proof -
  let ?w0 = "tick (w\<lparr>w_metrics := (w_metrics w)\<lparr>m_executions := Suc (executions w)\<rparr>\<rparr>)"
  define w2 where "w2 = (tick ?w0)\<lparr>w_jobs := update_where (id_where (job_id j))
    (completed_set (ev_now (current_event ?w0))) (w_jobs w), w_metrics :=
      (w_metrics ?w0)\<lparr>m_completed := Suc (m_completed (w_metrics ?w0))\<rparr>\<rparr>"
  have w2: "quiet w2" "executions w2 = Suc (executions w)"
    "w_jobs w2 = update_where (id_where (job_id j)) (completed_set (ev_now (current_event ?w0))) (w_jobs w)"
    using assms(1) by (simp_all add: w2_def)
  have "snd (handle x cfg j res w) = snd (emit x cfg (job_id j) w2)"
    using assms by (simp add: handle_def handle_success_def run record_execution_duration_def
        record_job_completed_def w2_def split: prod.split sum.split)
  moreover obtain g where g: "webhook_columns g" "w_jobs (snd (emit x cfg (job_id j) w2)) = update_where (id_where (job_id j)) g (w_jobs w2)"
    using emit_writes [OF w2(1)] by blast
  moreover have "update_where (id_where (job_id j)) g (w_jobs w2) =
      update_where (id_where (job_id j)) (\<lambda>r. g (completed_set (ev_now (current_event ?w0)) r)) (w_jobs w)"
    unfolding w2(3) by (rule update_where_twice) (simp add: id_where_def completed_set_def)
  moreover have "row_identity (g (completed_set n r)) = row_identity r \<and> row_state (g (completed_set n r)) = ''COMPLETED''" for n r
    using webhook_columns_keep [OF g(1)] by (simp add: completed_set_def row_identity_def)
  ultimately show ?thesis using that emit_executions [of x cfg "job_id j" w2] w2(2) by metis
qed

text \<open>The scheduler's part: a notification loads the only job that is SCHEDULED, and the timer leases and
  sends it.\<close>

lemma only_job_loaded:
  assumes "quiet w" "0 < c_heap_lookahead_limit cfg" "filter scheduled_where (w_jobs w) = [r]"
  shows "w_heap (snd (refresh_heap cfg w)) = [heap_entry r]"
proof -
  have "build_heap [s] = [s]" for s using mset_build_heap [of "[s]"] by simp
  then show ?thesis using assms by (simp add: refresh_heap_quiet take_Cons')
qed

lemma only_job_sent:
  assumes "quiet w" "w_heap w = [heap_entry r]" "\<not> w_closed w" "w_queue w = []" "0 < c_worker_queue_size cfg"
    and "row_scheduled_at r \<le> now" "List.find (lease_where (row_id r)) (w_jobs w) = Some r"
    and "from_row (x_from_value x) (leased_row cfg (w\<lparr>w_heap := []\<rparr>) r) = Inr j"
  shows "snd (dispatch_from x cfg now (w_heap w) w) = (leased_world cfg (row_id r) (w\<lparr>w_heap := []\<rparr>))
    \<lparr>w_queue := [j], w_metrics := (w_metrics w)\<lparr>m_dispatched := Suc (m_dispatched (w_metrics w))\<rparr>\<rparr>"
proof -
  let ?w = "w\<lparr>w_heap := []\<rparr>"
  have "dispatch_from x cfg now (w_heap w) w = after_lease x cfg now [] (Some j) (leased_world cfg (row_id r) ?w)"
    using dispatch_round [where h = "w_heap w" and s = "heap_entry r" and s' = "heap_entry r" and h' = "[]"
        and now = now and x = x and cfg = cfg and w = w] assms(1,2,6-8)
    by (simp add: heap_entry_def bind_io_def lease_job_quiet decoded_def)
  then show ?thesis
    using assms(3-5) by (simp add: after_lease_def try_send_def run dispatch_none_due) (simp add: leased_world_def)
qed

text \<open>The parts of the state that the next task of the life of a job needs.\<close>

definition same_run :: "world \<Rightarrow> world \<Rightarrow> bool" where
  "same_run w w' \<longleftrightarrow> w_env w' = w_env w \<and> w_closed w' = w_closed w \<and> executions w' = executions w"

lemma same_run_quiet: "same_run w w' \<Longrightarrow> quiet w' = quiet w"
  by (simp add: same_run_def quiet_def)

lemma refresh_run:
  assumes "quiet w"
  shows "w_jobs (snd (refresh_heap cfg w)) = w_jobs w" "w_queue (snd (refresh_heap cfg w)) = w_queue w"
    "same_run w (snd (refresh_heap cfg w))"
  using assms by (simp_all add: refresh_heap_def run same_run_def set_scheduler_heap_size_def split: sum.split)

lemma notified_loads:
  assumes "quiet w" "w_permit w" "0 < c_heap_lookahead_limit cfg" "filter scheduled_where (w_jobs w) = [r]"
  obtains w' where "perform x cfg to_string render keys Notified (ks, w) = (ks, w')" "w_heap w' = [heap_entry r]"
    "w_jobs w' = w_jobs w" "w_queue w' = w_queue w" "same_run w w'"
proof -
  obtain w1 d where h: "loop_head w = (Inr d, w1)" "same_flow w w1" "w_heap w1 = w_heap w" "w_permit w1 = w_permit w"
    "client_ids w1 = client_ids w" "w_metrics w1 = w_metrics w" "w_closed w1 = w_closed w"
    by (rule loop_head_state)
  let ?w2 = "w1\<lparr>w_permit := False\<rparr>"
  have q: "quiet ?w2" using assms(1) h(2) by (simp add: same_flow_def quiet_def)
  have "perform x cfg to_string render keys Notified (ks, w) = (ks, snd (refresh_heap cfg ?w2))"
    using h(1) assms(2) by (simp add: on_notified_def then_io_run modify_io_run attempted_state)
  moreover have "filter scheduled_where (w_jobs ?w2) = [r]" using assms(4) h(2) by (simp add: same_flow_def)
  ultimately show ?thesis
    using that only_job_loaded [OF q assms(3)] refresh_run [OF q] h by (simp add: same_flow_def same_run_def)
qed

lemma timer_sends:
  assumes "quiet w" "w_heap w = [heap_entry r]" "\<not> w_closed w" "w_queue w = []" "0 < c_worker_queue_size cfg"
    and "\<And>n. row_scheduled_at r \<le> ev_now (w_env w n)" "List.find (lease_where (row_id r)) (w_jobs w) = Some r"
    and "x_from_value x (row_payload r) \<noteq> None"
  obtains w' w0 j where "perform x cfg to_string render keys Timer (ks, w) = (ks, w')"
    "from_row (x_from_value x) (leased_row cfg w0 r) = Inr j" "w_queue w' = [j]"
    "w_jobs w' = update_where (lease_where (row_id r)) (leased_row cfg w0) (w_jobs w)" "same_run w w'"
proof -
  obtain w1 d where h: "loop_head w = (Inr d, w1)" "same_flow w w1" "w_heap w1 = w_heap w" "w_permit w1 = w_permit w"
    "client_ids w1 = client_ids w" "w_metrics w1 = w_metrics w" "w_closed w1 = w_closed w"
    by (rule loop_head_state)
  let ?w2 = "tick w1" and ?now = "ev_now (current_event w1)"
  let ?w0 = "?w2\<lparr>w_heap := []\<rparr>"
  have w2: "quiet ?w2" "w_heap ?w2 = [heap_entry r]" "\<not> w_closed ?w2" "w_queue ?w2 = []" "w_jobs ?w2 = w_jobs w"
    "w_env ?w2 = w_env w" "executions ?w2 = executions w"
    using assms(1-4) h by (simp_all add: same_flow_def quiet_def)
  have due: "row_scheduled_at r \<le> ?now" using assms(6) h(2) by (simp add: same_flow_def current_event_def)
  have "x_from_value x (row_payload (leased_row cfg ?w0 r)) \<noteq> None" "row_state (leased_row cfg ?w0 r) = ''LEASED''"
    using assms(8) by (simp_all add: leased_row_def lease_set_def)
  then obtain j where j: "from_row (x_from_value x) (leased_row cfg ?w0 r) = Inr j"
    using from_row_total [of "leased_row cfg ?w0 r" "x_from_value x"] by (auto simp: job_state_from_str_def)
  have "snd (on_timer x cfg w1) = (leased_world cfg (row_id r) ?w0)
    \<lparr>w_queue := [j], w_metrics := (w_metrics ?w2)\<lparr>m_dispatched := Suc (m_dispatched (w_metrics ?w2))\<rparr>\<rparr>"
    unfolding on_timer_dispatches
    using only_job_sent [OF w2(1-4) assms(5) due _ j] assms(7) w2(5) h(3) by simp
  moreover have "perform x cfg to_string render keys Timer (ks, w) = (ks, snd (on_timer x cfg w1))"
    using h(1) by (simp add: then_io_run)
  ultimately show ?thesis
    using that [OF _ j] w2 assms(3) by (simp add: same_run_def leased_world_def)
qed

lemma worker_completes:
  assumes "quiet w" "n < length ks" "ks ! n = Waiting" "w_queue w = [j]"
    and "execute ee (c_script_safe_dir cfg) (job_payload_of j) = Inr res" "res_success res" "job_parent_job_id j = None"
    and "w_jobs w = t @ [r]" "row_id r = job_id j" "job_id j \<notin> row_id ` set t"
  obtains r' where "w_jobs (snd (run_tasks x cfg to_string render keys [Receive n, StartJob n, FinishJob n ee] (ks, w))) = t @ [r']"
    "row_identity r' = row_identity r" "row_state r' = ''COMPLETED''"
    "executions (snd (run_tasks x cfg to_string render keys [Receive n, StartJob n, FinishJob n ee] (ks, w))) = Suc (executions w)"
proof -
  let ?w = "w\<lparr>w_queue := []\<rparr>" and ?j = "j\<lparr>job_state_of := Running\<rparr>"
  have eq: "snd (run_tasks x cfg to_string render keys [Receive n, StartJob n, FinishJob n ee] (ks, w)) = snd (run_job x cfg ee j ?w)"
    using assms(1-4) by (simp add: run_tasks_def worker_receive_def worker_start_def worker_finish_def run_job_def
        start_job_def run split: prod.split sum.split)
  obtain w1 where w1: "quiet w1" "executions w1 = executions ?w"
    "w_jobs w1 = update_where (id_where (job_id j)) (running_set (ev_now (current_event ?w))) (w_jobs ?w)"
    "w_jobs (snd (run_job x cfg ee j ?w)) = w_jobs (snd (handle x cfg ?j res w1))"
    "executions (snd (run_job x cfg ee j ?w)) = executions (snd (handle x cfg ?j res w1))"
    by (rule run_job_handles [of ?w ee cfg j res x]) (use assms(1,5) in simp_all)
  obtain g where g: "w_jobs (snd (handle x cfg ?j res w1)) = update_where (id_where (job_id j)) g (w_jobs w1)"
    "\<And>r. row_identity (g r) = row_identity r \<and> row_state (g r) = ''COMPLETED''"
    "executions (snd (handle x cfg ?j res w1)) = Suc (executions w1)"
    by (rule handle_success_run [of w1 res ?j x cfg]) (use w1(1) assms(6,7) in simp_all)
  define r1 where "r1 = running_set (ev_now (current_event ?w)) r"
  have "w_jobs w1 = t @ [r1]"
    using update_last [OF assms(9,10), of "id_where (job_id j)"] assms(8,9) by (simp add: w1(3) r1_def id_where_def)
  moreover have "row_id r1 = job_id j" "row_identity r1 = row_identity r"
    using assms(9) by (simp_all add: r1_def running_set_def row_identity_def)
  ultimately show ?thesis
    using that [of "g r1"] g w1(2,4,5) eq update_last [OF _ assms(10), of r1 "id_where (job_id j)" g]
    by (simp add: id_where_def)
qed

lemma served_created:
  assumes "serve x to_string render keys (Some key) (PostJobs req) w = (Inr rp, w1)" "rp_status rp = 201" "keys key = Some c"
  obtains resp where "create_job x c req w = (Inr (Inr (201, resp)), w1)"
proof -
  obtain r w2 where m: "create_job x c req w = (r, w2)" by fastforce
  have "rp_status (into_response to_string e) \<noteq> 201" for e by (cases e) simp_all
  then show ?thesis
    using that assms m by (auto simp: serve_def require_api_key_def from_request_parts_def reply_of_def bind_io_def
        split: sum.splits)
qed

text \<open>C8: A job that is submitted when it is due, while nothing else is scheduled, is completed by one
  iteration of every task: after the request is answered with 201, the notification, the timer, and a
  worker that receives the job and executes it with success, its row is the only new one, belongs to the
  client of the key, and is COMPLETED; the job was executed once and no other row has changed.\<close>

theorem submitted_job_completes:
  assumes "quiet w" "distinct (map row_id (w_jobs w))" "\<forall>r\<in>set (w_jobs w). \<not> scheduled_where r"
    and "w_queue w = []" "\<not> w_closed w" "0 < c_worker_queue_size cfg" "0 < c_heap_lookahead_limit cfg"
    and "codec_ok x" "payload_ok (req_payload req)" "req_recurrence req = None" "keys key = Some c"
    and "serve x to_string render keys (Some key) (PostJobs req) w = (Inr rp, w1)" "rp_status rp = 201"
    and "\<forall>n. req_scheduled_at req \<le> ev_now (w_env w n)" "n < length ks" "ks ! n = Waiting"
    and "execute ee (c_script_safe_dir cfg) (req_payload req) = Inr res" "res_success res"
  shows "let w' = snd (run_tasks x cfg to_string render keys
      [Request (Some key) (PostJobs req), Notified, Timer, Receive n, StartJob n, FinishJob n ee] (ks, w)) in
    (\<exists>r. w_jobs w' = w_jobs w @ [r] \<and> row_client_id r = Some c \<and>
       row_idempotency_key r = req_idempotency_key req \<and> row_state r = ''COMPLETED'') \<and>
    executions w' = Suc (executions w)"
proof -
  obtain resp where cr: "create_job x c req w = (Inr (Inr (201, resp)), w1)"
    by (rule served_created [OF assms(12,13,11)])
  obtain v r where v: "x_from_value x v = Some (req_payload req)" "r = one_off_row (current_event (tick w)) c req v"
    and ins: "insert_row (client_ids w) r (w_jobs w) = Inr (w_jobs w @ [r])"
    and w1: "w1 = (tick (tick w))\<lparr>w_jobs := w_jobs w @ [r],
       w_metrics := (w_metrics w)\<lparr>m_scheduled := Suc (m_scheduled (w_metrics w))\<rparr>, w_permit := True\<rparr>"
    by (rule create_job_created [OF assms(1,8-10) cr])
  let ?t = "w_jobs w" and ?i = "row_id r"
  have r: "row_state r = ''SCHEDULED''" "row_scheduled_at r = req_scheduled_at req" "\<not> row_is_template r"
    "row_client_id r = Some c" "row_idempotency_key r = req_idempotency_key req" "row_payload r = v"
    "row_parent_job_id r = None"
    by (simp_all add: v(2) one_off_row_def new_row_def)
  have new: "?i \<notin> row_id ` set ?t" using insert_row_InrD(3) [OF ins] .
  have s1: "quiet w1" "w_permit w1" "w_jobs w1 = ?t @ [r]" "w_queue w1 = []" "same_run w w1"
    using assms(1,4) by (simp_all add: w1 same_run_def)
  have "filter scheduled_where ?t = []" using assms(3) by (simp add: filter_empty_conv)
  then have "filter scheduled_where (w_jobs w1) = [r]" using r s1(3) by (simp add: scheduled_where_def)
  from notified_loads [OF s1(1,2) assms(7) this]
  obtain w2 where w2: "perform x cfg to_string render keys Notified (ks, w1) = (ks, w2)" "w_heap w2 = [heap_entry r]"
    "w_jobs w2 = ?t @ [r]" "w_queue w2 = []" "same_run w1 w2" using s1(3,4) by metis
  have s2: "quiet w2" "\<not> w_closed w2" "row_scheduled_at r \<le> ev_now (w_env w2 n)" "x_from_value x (row_payload r) \<noteq> None" for n
    using same_run_quiet [OF w2(5)] s1 w2(5) assms(5,14) r v(1) by (simp_all add: same_run_def)
  have "row_with_id ?i (w_jobs w2) = Some r"
    using new row_with_id_None_iff [of ?i ?t] by (simp add: w2(3) row_with_id_append)
  then have f: "List.find (lease_where ?i) (w_jobs w2) = Some r"
    using assms(2) new r(1) w2(3) by (simp add: find_lease_where)
  obtain w3 w0 j where w3: "perform x cfg to_string render keys Timer (ks, w2) = (ks, w3)"
    "from_row (x_from_value x) (leased_row cfg w0 r) = Inr j" "w_queue w3 = [j]"
    "w_jobs w3 = update_where (lease_where ?i) (leased_row cfg w0) (w_jobs w2)" "same_run w2 w3"
    by (rule timer_sends [OF s2(1) w2(2) s2(2) w2(4) assms(6) s2(3) f s2(4)])
  let ?r = "leased_row cfg w0 r"
  have same: "row_identity ?r = row_identity r" by (simp add: leased_row_def lease_set_def row_identity_def)
  have j: "job_id j = ?i" "job_payload_of j = req_payload req" "job_parent_job_id j = None"
    using from_row_InrD [OF w3(2)] row_identityD [OF same] r v(1) by auto
  have t3: "w_jobs w3 = ?t @ [?r]"
    using update_last [OF refl new, of "lease_where ?i"] r(1) by (simp add: w3(4) w2(3) lease_where_def)
  have "quiet w3" using same_run_quiet [OF w3(5)] s2(1) by simp
  from worker_completes [OF this assms(15,16) w3(3) _ assms(18) j(3) t3, of ee cfg x to_string render keys]
  obtain r' where r': "w_jobs (snd (run_tasks x cfg to_string render keys [Receive n, StartJob n, FinishJob n ee] (ks, w3))) = ?t @ [r']"
    "row_identity r' = row_identity ?r" "row_state r' = ''COMPLETED''"
    "executions (snd (run_tasks x cfg to_string render keys [Receive n, StartJob n, FinishJob n ee] (ks, w3))) = Suc (executions w3)"
    using assms(17) j(1,2) new by auto
  have "run_tasks x cfg to_string render keys [Request (Some key) (PostJobs req), Notified, Timer, Receive n, StartJob n, FinishJob n ee] (ks, w) =
      run_tasks x cfg to_string render keys [Receive n, StartJob n, FinishJob n ee] (ks, w3)"
    using assms(12) w2(1) w3(1) by (simp add: run_tasks_def del: perform.simps(2,3)) 
  moreover have "executions w3 = executions w" using s1(5) w2(5) w3(5) by (simp add: same_run_def)
  ultimately show ?thesis
    using r' row_identityD(2,3) [OF r'(2)] row_identityD(2,3) [OF same] r(4,5) by (auto simp: Let_def)
qed

text \<open>A request to a server that answers 200, on an empty table.\<close>

theorem submitted_job_completes_witness:
  "\<exists>r. w_jobs (snd (run_tasks sample_externals wide_config (\<lambda>_. []) (\<lambda>_. []) (Map.empty(''key'' \<mapsto> 1))
      [Request (Some ''key'') (PostJobs sample_request), Notified, Timer, Receive 1, StartJob 1, FinishJob 1 sample_exec_env]
      ([Stopped, Waiting], idle_world []))) = [r] \<and> row_state r = ''COMPLETED''"
proof -
  let ?keys = "Map.empty(''key'' \<mapsto> 1)"
  obtain resp w1 where "create_job sample_externals 1 sample_request (idle_world []) = (Inr (Inr (201, resp)), w1)"
    using create_sample by blast
  then have s: "serve sample_externals (\<lambda>_. []) (\<lambda>_. []) ?keys (Some ''key'') (PostJobs sample_request) (idle_world []) =
      (Inr \<lparr>rp_status = 201, rp_body = JobBody resp\<rparr>, w1)"
    by (simp add: serve_def require_api_key_def from_request_parts_def reply_of_def bind_io_def)
  have e: "execute sample_exec_env (c_script_safe_dir wide_config) (req_payload sample_request) =
      Inr \<lparr>res_success = True, res_output = ''ok'', res_status_code = Some 200\<rparr>"
    by (simp add: execute_def execute_http_def sample_exec_env_def sample_request_def truncate_def max_capture_bytes_def)
  have "0 < c_worker_queue_size wide_config" "0 < c_heap_lookahead_limit wide_config" "payload_ok (req_payload sample_request)"
    "req_recurrence sample_request = None" "w_queue (idle_world []) = []" "\<not> w_closed (idle_world [])"
    "\<forall>n. req_scheduled_at sample_request \<le> ev_now (w_env (idle_world []) n)"
    by (simp_all add: wide_config_def sample_config_def sample_request_def payload_ok_def int_limits idle_world_def idle_event_def)
  with submitted_job_completes [of "idle_world []" wide_config sample_externals sample_request ?keys "''key''" 1
      "\<lambda>_. []" "\<lambda>_. []" _ w1 1 "[Stopped, Waiting]", OF _ _ _ _ _ _ _ sample_codec_ok _ _ _ s _ _ _ _ e]
  show ?thesis by (auto simp: Let_def)
qed

end
