(* ===== verification/Lifetime.thy ===== *)
theory Lifetime
  imports Job_Life
begin

text \<open>
  The process of the daemon from its start to its end (\<open>src/main.rs\<close>), and processes that follow each other
  over the same database: what a new process finds, what the tasks keep while one runs, and what one
  leaves behind.
\<close>

section \<open>Starting and stopping\<close>

datatype main_error =
    ConfigError config_error
  | PoolError error
  | RunError error
  | ListenError bind_error

text \<open>A new process stores no permit in its \<open>Notify\<close>, and its flag is not set.\<close>

definition shared_new :: "unit io" where
  "shared_new = modify_io (\<lambda>w. w\<lparr>w_permit := False, w_alive := False\<rparr>)"

text \<open>
  The first part of \<open>main\<close>, up to the start of the workers, the scheduler and the reaper: the
  configuration is read, the pool created (an argument gives its error), stale jobs are recovered, the
  gauge of recurring jobs set, the workers and the scheduler created. The handles that \<open>main\<close> builds and shares
  (repositories, notification, flag) are the state.
\<close>

definition main_setup :: "config \<Rightarrow> worker list io" where
  "main_setup cfg =
     bind_io recover_on_startup (\<lambda>_.
     then_io shared_new
       (then_io refresh_metrics
         (bind_io (spawn_worker_pool cfg) (\<lambda>ks. then_io scheduler_new (return_io ks)))))"

definition main_boot ::
  "(string \<Rightarrow> socket_addr option) \<Rightarrow> (string \<Rightarrow> error option) \<Rightarrow> env_vars \<Rightarrow> world \<Rightarrow>
   (main_error + config \<times> worker list) \<times> world" where
  "main_boot parse_addr connect env w =
     (case from_env parse_addr env of
        Inl e \<Rightarrow> (Inl (ConfigError e), w)
      | Inr cfg \<Rightarrow>
          (case connect (c_database_url cfg) of
             Some e \<Rightarrow> (Inl (PoolError e), w)
           | None \<Rightarrow>
               (case main_setup cfg w of
                  (Inl e, w') \<Rightarrow> (Inl (RunError e), w')
                | (Inr ks, w') \<Rightarrow> (Inr (cfg, ks), w'))))"

text \<open>
  The second part, during which the spawned tasks already run: the keys are loaded, the recorder is
  installed and the listener is bound. From then on requests are served.
\<close>

definition main_listen ::
  "(socket_addr \<Rightarrow> bind_result) \<Rightarrow> config \<Rightarrow> world \<Rightarrow> (main_error + api_keys \<times> socket_addr) \<times> world" where
  "main_listen bind cfg w =
     (case bind_io load_auth_state (\<lambda>keys. then_io metrics_init (return_io keys)) w of
        (Inl e, w') \<Rightarrow> (Inl (RunError e), w')
      | (Inr keys, w') \<Rightarrow>
          (case bind_api_listener bind (c_api_listen_addr cfg) of
             Inl e \<Rightarrow> (Inl (ListenError e), w')
           | Inr addr \<Rightarrow> (Inr (keys, addr), w')))"

text \<open>
  A source of signals: its handler cannot be installed, or the signal arrives after a number of tasks, or
  never. \<open>shutdown_signal\<close> ends with the first of the two signals.
\<close>

datatype signal_source = NoHandler | Arrives "nat option"

fun shutdown_signal :: "signal_source \<Rightarrow> signal_source \<Rightarrow> error + nat option" where
  "shutdown_signal (Arrives None) (Arrives t) = Inr t"
| "shutdown_signal (Arrives (Some c)) (Arrives None) = Inr (Some c)"
| "shutdown_signal (Arrives (Some c)) (Arrives (Some t)) = Inr (Some (min c t))"
| "shutdown_signal NoHandler t = Inl (Panicked ''failed to install Ctrl+C handler'')"
| "shutdown_signal (Arrives c) NoHandler = Inl (Panicked ''failed to install SIGTERM handler'')"

text \<open>
  The part after the server has stopped: the signal to the workers and the wait for the running jobs,
  whose number is read after every interval of 100 ms. \<open>draining n\<close> are the tasks that run during the
  interval \<open>n\<close>: nothing stops the scheduler and the reaper.
\<close>

definition after_intervals ::
  "externals \<Rightarrow> config \<Rightarrow> (error \<Rightarrow> string) \<Rightarrow> (metrics \<Rightarrow> string) \<Rightarrow> api_keys \<Rightarrow> (nat \<Rightarrow> task list) \<Rightarrow>
   worker list \<times> world \<Rightarrow> nat \<Rightarrow> worker list \<times> world" where
  "after_intervals x cfg to_string render keys draining d n =
     run_tasks x cfg to_string render keys (concat (map draining [0..<n])) d"

definition main_stop ::
  "externals \<Rightarrow> config \<Rightarrow> (error \<Rightarrow> string) \<Rightarrow> (metrics \<Rightarrow> string) \<Rightarrow> api_keys \<Rightarrow> (nat \<Rightarrow> task list) \<Rightarrow>
   worker list \<times> world \<Rightarrow> worker list \<times> world" where
  "main_stop x cfg to_string render keys draining d =
     (let after = after_intervals x cfg to_string render keys draining (perform x cfg to_string render keys Shutdown d)
      in after (wait_for_drain cfg (\<lambda>n. w_active (snd (after n)))))"

section \<open>Processes\<close>

text \<open>
  What a process meets: its environment variables, the answers of the database and of the system when
  it connects and binds, the tasks that run before the listener is bound, while requests are served and
  while it stops, the two signals, and what the server does when the future of the signals panics (it
  may end after a number of tasks).
\<close>

record life =
  lf_vars :: env_vars
  lf_connect :: "string \<Rightarrow> error option"
  lf_bind :: "socket_addr \<Rightarrow> bind_result"
  lf_early :: "task list"
  lf_serving :: "task list"
  lf_draining :: "nat \<Rightarrow> task list"
  lf_ctrl_c :: signal_source
  lf_terminate :: signal_source
  lf_on_panic :: "nat option"

text \<open>\<open>main\<close> returns an error or \<open>Ok\<close>, or the process is killed while it serves.\<close>

datatype exit_status = ExitError main_error | ExitOk | Killed

definition main_life ::
  "externals \<Rightarrow> (string \<Rightarrow> socket_addr option) \<Rightarrow> (error \<Rightarrow> string) \<Rightarrow> (metrics \<Rightarrow> string) \<Rightarrow> life \<Rightarrow> world \<Rightarrow>
   exit_status \<times> world" where
  "main_life x parse_addr to_string render l w =
     (case main_boot parse_addr (lf_connect l) (lf_vars l) w of
        (Inl e, w') \<Rightarrow> (ExitError e, w')
      | (Inr (cfg, ks), w1) \<Rightarrow>
          (case run_tasks x cfg to_string render Map.empty (lf_early l) (ks, w1) of (ks2, w2) \<Rightarrow>
             (case main_listen (lf_bind l) cfg w2 of
                (Inl e, w') \<Rightarrow> (ExitError e, w')
              | (Inr (keys, addr), w3) \<Rightarrow>
                  (case (case shutdown_signal (lf_ctrl_c l) (lf_terminate l) of Inl e \<Rightarrow> lf_on_panic l | Inr n \<Rightarrow> n) of
                     None \<Rightarrow> (Killed, snd (run_tasks x cfg to_string render keys (lf_serving l) (ks2, w3)))
                   | Some n \<Rightarrow>
                       (ExitOk, snd (main_stop x cfg to_string render keys (lf_draining l)
                          (run_tasks x cfg to_string render keys (take n (lf_serving l)) (ks2, w3))))))))"

text \<open>Processes one after the other. A process that is killed at any point is one with fewer tasks.\<close>

definition lives ::
  "externals \<Rightarrow> (string \<Rightarrow> socket_addr option) \<Rightarrow> (error \<Rightarrow> string) \<Rightarrow> (metrics \<Rightarrow> string) \<Rightarrow> life list \<Rightarrow> world \<Rightarrow> world" where
  "lives x parse_addr to_string render ls w = fold (\<lambda>l w. snd (main_life x parse_addr to_string render l w)) ls w"

section \<open>What a process finds and keeps\<close>

lemma main_bootD:
  assumes "main_boot parse_addr connect env w = (Inr (cfg, ks), w')"
  shows "from_env parse_addr env = Inr cfg" "connect (c_database_url cfg) = None" "main_setup cfg w = (Inr ks, w')"
  using assms by (auto simp: main_boot_def split: sum.splits option.splits prod.splits)

lemma main_bootI:
  assumes "from_env parse_addr env = Inr cfg" "connect (c_database_url cfg) = None" "main_setup cfg w = (Inr ks, w')"
  shows "main_boot parse_addr connect env w = (Inr (cfg, ks), w')"
  using assms by (simp add: main_boot_def)

lemma main_listenD:
  assumes "main_listen bind cfg w = (Inr (keys, addr), w')"
  obtains w1 where "load_auth_state w = (Inr keys, w1)" "w' = w1\<lparr>w_metrics := no_metrics\<rparr>"
    "bind_api_listener bind (c_api_listen_addr cfg) = Inr addr"
  using assms
  by (auto simp: main_listen_def metrics_init_def bind_io_run then_io_run modify_io_run split: prod.splits sum.splits)

text \<open>Every part of \<open>main\<close> writes by the program's statements.\<close>

lemma sql_main_setup: "sql_only (main_setup cfg)"
proof -
  have "sql_only shared_new" "sql_only (spawn_worker_pool cfg)" "sql_only scheduler_new"
    unfolding shared_new_def spawn_worker_pool_def scheduler_new_def by (intro effect_intro; simp)+
  then show ?thesis unfolding main_setup_def by (intro effect_intro) assumption+
qed

lemma main_listen_sql: "sql_effect w (snd (main_listen bind cfg w))"
proof -
  have "sql_only (bind_io load_auth_state (\<lambda>keys. then_io metrics_init (return_io keys)))"
    unfolding load_auth_state_def load_api_keys_def metrics_init_def
    by (intro effect_intro sql_only_statement) (auto simp: keeps_def sql.refl)
  then show ?thesis
    using keeps_runD by (fastforce simp: main_listen_def split: prod.split sum.split)
qed

text \<open>
  What a process keeps: \<open>running\<close> holds after its set-up and is kept by every task, \<open>at_rest\<close> holds of the
  state it starts from and leaves.
\<close>

locale process_kept =
  fixes x :: externals and to_string :: "error \<Rightarrow> string" and render :: "metrics \<Rightarrow> string"
    and at_rest :: "world \<Rightarrow> bool" and running :: "worker list \<times> world \<Rightarrow> bool"
  assumes set_up: "at_rest w \<Longrightarrow> main_setup cfg w = (Inr ks, w') \<Longrightarrow> running (ks, w')"
    and set_up_fails: "at_rest w \<Longrightarrow> main_setup cfg w = (Inl e, w') \<Longrightarrow> at_rest w'"
    and task: "running d \<Longrightarrow> running (perform x cfg to_string render keys task d)"
    and listen: "running (ks, w) \<Longrightarrow> running (ks, snd (main_listen bind cfg w))"
    and left: "running d \<Longrightarrow> at_rest (snd d)"
begin

lemma tasks: "running d \<Longrightarrow> running (run_tasks x cfg to_string render keys ts d)"
  by (induction ts arbitrary: d) (simp_all add: run_tasks_Cons run_tasks_Nil task)

lemma boot: "at_rest w \<Longrightarrow> main_boot parse_addr connect env w = (Inr (cfg, ks), w') \<Longrightarrow> running (ks, w')"
  by (auto dest: main_bootD(3) set_up)

lemma boot_fails: "at_rest w \<Longrightarrow> main_boot parse_addr connect env w = (Inl e, w') \<Longrightarrow> at_rest w'"
  by (auto simp: main_boot_def dest: set_up_fails split: sum.splits option.splits prod.splits)

lemma stop: "running d \<Longrightarrow> running (main_stop x cfg to_string render keys draining d)"
  by (simp add: main_stop_def after_intervals_def Let_def tasks task del: perform.simps)

lemma life: "at_rest w \<Longrightarrow> at_rest (snd (main_life x parse_addr to_string render l w))"
proof -
  assume w: "at_rest w"
  obtain r w1 where b: "main_boot parse_addr (lf_connect l) (lf_vars l) w = (r, w1)" by fastforce
  show ?thesis
  proof (cases r)
    case (Inl e)
    then show ?thesis using boot_fails [OF w] b by (simp add: main_life_def)
  next
    case (Inr a)
    obtain cfg ks where a: "a = (cfg, ks)" by fastforce
    obtain ks2 w2 where early: "run_tasks x cfg to_string render Map.empty (lf_early l) (ks, w1) = (ks2, w2)" by fastforce
    obtain r3 w3 where l3: "main_listen (lf_bind l) cfg w2 = (r3, w3)" by fastforce
    have "running (ks2, w2)" using tasks [OF boot [OF w]] b Inr a early by metis
    then have "running (ks2, w3)" using listen l3 by (metis snd_conv)
    note w3 = this
    have "at_rest w3" using left [OF w3] by simp
    moreover note left [OF tasks [OF w3]] left [OF stop [OF tasks [OF w3]]]
    ultimately show ?thesis by (simp add: main_life_def b Inr a early l3 split: sum.split option.split)
  qed
qed

lemma lives: "at_rest w \<Longrightarrow> at_rest (lives x parse_addr to_string render ls w)"
  by (induction ls arbitrary: w) (simp_all add: lives_def life)

end

interpretation process_sql: process_kept x to_string render "sql_effect w0" "\<lambda>d. sql_effect w0 (snd d)" for x to_string render w0
proof
  show "sql_effect w0 (snd (ks, w'))" if "sql_effect w0 w" "main_setup cfg w = (Inr ks, w')" for w cfg ks w'
    using sql.trans [OF that(1)] keeps_runD [OF sql_main_setup that(2)] by simp
  show "sql_effect w0 w'" if "sql_effect w0 w" "main_setup cfg w = (Inl e, w')" for w cfg e w'
    using sql.trans [OF that(1)] keeps_runD [OF sql_main_setup that(2)] by simp
  show "sql_effect w0 (snd (perform x cfg to_string render keys task d))" if "sql_effect w0 (snd d)" for d cfg keys task
    using sql.trans [OF that] perform_sql [of "snd d" x cfg to_string render keys task "fst d"] by simp
  show "sql_effect w0 (snd (ks, snd (main_listen bind cfg w)))" if "sql_effect w0 (snd (ks, w))" for ks :: "worker list" and w bind cfg
    using sql.trans [OF that] main_listen_sql by simp
qed

lemma lives_sql: "sql_effect w (lives x parse_addr to_string render ls w)"
  by (rule process_sql.lives) (rule sql.refl)

text \<open>C4: Whatever the processes do that follow each other over a database, however each of them ends, the table
  keeps its integrity (unique ids and idempotency keys, column limits, state and policy texts,
  references), no row is ever removed, and the owner, payload, key, limits and parent of a job never
  change.\<close>

theorem lives_keep_integrity:
  assumes "table_ok (client_ids w) (w_jobs w)"
  shows "table_ok (client_ids w) (w_jobs (lives x parse_addr to_string render ls w)) \<and>
    (\<exists>new. map row_identity (w_jobs (lives x parse_addr to_string render ls w)) = map row_identity (w_jobs w) @ new)"
proof -
  have "sql_steps (client_ids w) (w_jobs w) (w_jobs (lives x parse_addr to_string render ls w))"
    using lives_sql by (simp add: sql_effect_def)
  then show ?thesis using integrity.steps assms identity.steps by (metis append_Nil2)
qed

text \<open>What a new process finds: nothing is in flight, and no lease is stale.\<close>

lemma load_auth_state_same: "load_auth_state w = (r, w') \<Longrightarrow> same_flow w w' \<and> w_heap w' = w_heap w"
  by (auto simp: load_auth_state_def load_api_keys_def bind_io_def statement_def same_flow_def split: delivery.splits)

lemma refresh_metrics_same: "same_flow w (snd (refresh_metrics w)) \<and> w_heap (snd (refresh_metrics w)) = w_heap w"
  by (auto simp: refresh_metrics_def set_recurring_jobs_active_def count_recurring_active_def select_def bind_io_def statement_def attempt_def
      same_flow_def count_metric_def modify_io_def split: delivery.splits sum.split prod.split error.split)

lemma recover_on_startup_state:
  assumes "recover_on_startup w = (Inr n, w1)"
  shows "w_jobs w1 = update_where (recover_where (ev_now (current_event w))) (released_set (ev_now (current_event w))) (w_jobs w)"
    "w_clients w1 = w_clients w"
  using assms
  by (auto simp: recover_on_startup_def recover_rows_on_startup_def update_def bind_io_def statement_def split: delivery.splits)

lemma main_setup_world:
  assumes "main_setup cfg w = (Inr ks, w')"
  shows "w_jobs w' = update_where (recover_where (ev_now (current_event w))) (released_set (ev_now (current_event w))) (w_jobs w)"
    "w_queue w' = []" "w_heap w' = []" "w_active w' = 0" "w_clients w' = w_clients w"
    "ks = replicate (c_worker_count cfg) Waiting" "0 < c_worker_queue_size cfg"
proof -
  obtain n w1 where r: "recover_on_startup w = (Inr n, w1)"
    using assms by (auto simp: main_setup_def bind_io_run split: sum.splits prod.splits)
  let ?w1 = "w1\<lparr>w_permit := False, w_alive := False\<rparr>"
  obtain u w2 where f: "refresh_metrics ?w1 = (Inr u, w2)"
    using assms r
    by (auto simp: main_setup_def bind_io_run then_io_run shared_new_def modify_io_run split: sum.splits prod.splits)
  have w': "w' = w2\<lparr>w_queue := [], w_closed := False, w_active := 0, w_heap := []\<rparr>"
    "ks = replicate (c_worker_count cfg) Waiting \<and> 0 < c_worker_queue_size cfg"
    using assms r f
    by (auto simp: main_setup_def bind_io_run then_io_run shared_new_def modify_io_run spawn_worker_pool_def
        scheduler_new_def set_heap_run split: if_splits)
  have same: "w_jobs w2 = w_jobs w1" "w_clients w2 = w_clients w1"
    using refresh_metrics_same [of ?w1] f by (simp_all add: same_flow_def)
  show "w_jobs w' = update_where (recover_where (ev_now (current_event w))) (released_set (ev_now (current_event w))) (w_jobs w)"
    "w_clients w' = w_clients w"
    using recover_on_startup_state [OF r] same w' by simp_all
  show "w_queue w' = []" "w_heap w' = []" "w_active w' = 0" "ks = replicate (c_worker_count cfg) Waiting"
    "0 < c_worker_queue_size cfg" using w' by simp_all
qed

lemma main_boot_world:
  assumes "main_boot parse_addr connect env w = (Inr (cfg, ks), w')"
  shows "w_jobs w' = update_where (recover_where (ev_now (current_event w))) (released_set (ev_now (current_event w))) (w_jobs w)"
    "w_queue w' = []" "w_heap w' = []" "w_active w' = 0" "w_clients w' = w_clients w"
    "ks = replicate (c_worker_count cfg) Waiting" "0 < c_worker_queue_size cfg"
  using main_setup_world [OF main_bootD(3) [OF assms]] by simp_all

lemma main_listen_world:
  assumes "main_listen bind cfg w = (Inr (keys, addr), w')"
  shows "daemon_ok (ks, w) \<Longrightarrow> daemon_ok (ks, w')" "daemon_flow (ks, w') = daemon_flow (ks, w)" "client_ids w' = client_ids w"
    "keys key = Some c \<Longrightarrow> (key, c) \<in> set (w_clients w)" "w_metrics w' = no_metrics"
proof -
  obtain w1 where l: "load_auth_state w = (Inr keys, w1)" "w' = w1\<lparr>w_metrics := no_metrics\<rparr>"
    by (rule main_listenD [OF assms])
  have same: "same_flow w w'" "w_heap w' = w_heap w"
    using load_auth_state_same [OF l(1)] by (simp_all add: l(2) same_flow_def)
  show "daemon_ok (ks, w')" if "daemon_ok (ks, w)" using that same by (simp add: daemon_ok_def same_flow_def)
  show "daemon_flow (ks, w') = daemon_flow (ks, w)" using same_flow_at [OF same(1)] by (simp add: daemon_flow_def)
  show "client_ids w' = client_ids w" using same by (simp add: client_ids_def same_flow_def)
  show "(key, c) \<in> set (w_clients w)" if "keys key = Some c" using load_auth_state_keys [OF l(1) that] .
  show "w_metrics w' = no_metrics" by (simp add: l(2))
qed

text \<open>A process that has started, with the tasks it has run before and after its listener was bound.\<close>

lemma started_flow:
  assumes "main_boot parse_addr connect env w = (Inr (cfg, ks), w1)" "distinct (map row_id (w_jobs w))"
    and "timely x cfg to_string render Map.empty early (ks, w1)"
    and "run_tasks x cfg to_string render Map.empty early (ks, w1) = (ks2, w2)"
    and "main_listen bind cfg w2 = (Inr (keys, addr), w3)"
    and "timely x cfg to_string render keys tasks (ks2, w3)"
  shows "daemon_ok (run_tasks x cfg to_string render keys tasks (ks2, w3))"
    "flow_ok (daemon_flow (run_tasks x cfg to_string render keys tasks (ks2, w3)))"
    "w_clients w2 = w_clients w"
proof -
  note boot = main_boot_world [OF assms(1)] and listen = main_listen_world [OF assms(5)]
  have ids: "distinct (map row_id (w_jobs w1))" using assms(2) by (simp add: boot(1) recover.ids)
  have start: "daemon_flow (ks, w1) = flow_start (w_jobs w1) (c_worker_count cfg)" "daemon_ok (ks, w1)"
    using idle_start [OF boot(3,2) ids] boot(6) by simp_all
  note early = run_tasks_flow [OF start(2) assms(3), unfolded assms(4)]
  note late = run_tasks_flow [OF listen(1) [OF conjunct1 [OF early]] assms(6)]
  have "sql_effect w1 w2" using run_tasks_sql [of "(ks, w1)" x cfg to_string render Map.empty early] assms(4) by simp
  then show clients: "w_clients w2 = w_clients w" using boot(5) by (simp add: sql_effect_def)
  have "client_ids w2 = client_ids w1" using clients boot(5) by (simp add: client_ids_def)
  then have "timely_runs (client_ids w1) (c_worker_queue_size cfg) (flow_start (w_jobs w1) (c_worker_count cfg))
     (daemon_flow (run_tasks x cfg to_string render keys tasks (ks2, w3)))"
    using early late start(1) listen(2,3) by (auto intro: rtranclp_trans)
  then show "flow_ok (daemon_flow (run_tasks x cfg to_string render keys tasks (ks2, w3)))"
    using ownership.steps flow_start_ok [OF ids] by blast
  show "daemon_ok (run_tasks x cfg to_string render keys tasks (ks2, w3))" using late by simp
qed

text \<open>C1: However many processes have run before over the database, and however they ended: when \<open>main\<close> has started
  the tasks, it has as many idle workers as configured, a channel with at least one place, nothing in
  flight and a table without a stale lease. From there on, while the keys are loaded and the listener is
  bound as well as after it, with any tasks in any order and any loss of statements, only keys of
  clients are accepted, no job is held twice, every job that waits for its execution is LEASED and every
  job that a worker executes is RUNNING, as long as the rounds of the reaper find the leases of the jobs
  in flight unexpired.\<close>

theorem started_daemon_holds_jobs_once:
  assumes "table_ok (client_ids w0) (w_jobs w0)" "w = lives x parse_addr to_string render ls w0"
    and "main_boot parse_addr connect env w = (Inr (cfg, ks), w1)"
    and "timely x cfg to_string render Map.empty early (ks, w1)"
    and "run_tasks x cfg to_string render Map.empty early (ks, w1) = (ks2, w2)"
    and "main_listen bind cfg w2 = (Inr (keys, addr), w3)"
    and "timely x cfg to_string render keys tasks (ks2, w3)"
  shows "ks = replicate (c_worker_count cfg) Waiting \<and> 0 < c_worker_queue_size cfg \<and>
    in_flight (daemon_flow (ks, w1)) = [] \<and>
    (\<forall>r\<in>set (w_jobs w1). \<not> recover_where (ev_now (current_event w)) r) \<and>
    (\<forall>key c. keys key = Some c \<longrightarrow> (key, c) \<in> set (w_clients w0)) \<and>
    (let s = daemon_flow (run_tasks x cfg to_string render keys tasks (ks2, w3)) in
     distinct (in_flight s) \<and> (\<forall>i\<in>set (waiting_jobs s). in_state ''LEASED'' (f_jobs s) i) \<and>
     (\<forall>i\<in>set (running_jobs s). in_state ''RUNNING'' (f_jobs s) i))"
proof -
  note boot = main_boot_world [OF assms(3)]
  have before: "sql_effect w0 w" using lives_sql assms(2) by simp
  then have "table_ok (client_ids w0) (w_jobs w)" using integrity.steps [OF _ assms(1)] by (simp add: sql_effect_def)
  then have ids: "distinct (map row_id (w_jobs w))" by (simp add: table_ok_def)
  note flow = started_flow [OF assms(3) ids assms(4-7)]
  have "in_flight (daemon_flow (ks, w1)) = []"
    using boot(2,6) by (simp add: in_flight_def waiting_jobs_def running_jobs_def daemon_flow_def flow_at_def slot_of_def
        map_replicate_const comp_def)
  moreover have "\<not> recover_where (ev_now (current_event w)) r" if "r \<in> set (w_jobs w1)" for r
    using that by (auto simp: boot(1) set_update_where recover_where_def released_set_def split: if_splits)
  moreover have "w_clients w2 = w_clients w0" using flow(3) before by (simp add: sql_effect_def)
  ultimately show ?thesis
    using boot(6,7) main_listen_world(4) [OF assms(6)] flow_okD(2-) [OF flow(2)] by (auto simp: Let_def)
qed

section \<open>The end of a process\<close>


text \<open>The number of intervals, when the readings are known.\<close>

lemma main_stop_at:
  assumes "after = after_intervals x cfg to_string render keys draining (perform x cfg to_string render keys Shutdown d)"
    and "w_active (snd (after k)) = 0" "\<forall>m<k. w_active (snd (after m)) \<noteq> 0" "k \<le> 10 * c_shutdown_timeout cfg"
  shows "main_stop x cfg to_string render keys draining d = after k"
proof -
  let ?n = "wait_for_drain cfg (\<lambda>n. w_active (snd (after n)))"
  have n: "(w_active (snd (after ?n)) = 0 \<or> 1000 * c_shutdown_timeout cfg \<le> 100 * ?n) \<and>
      (\<forall>m<?n. w_active (snd (after m)) \<noteq> 0)"
    using drain_rounds_spec [of 0 "\<lambda>n. w_active (snd (after n))" "1000 * c_shutdown_timeout cfg"]
    by (simp add: wait_for_drain_def)
  have "\<not> k < ?n" using n assms(2) by blast
  moreover have "\<not> ?n < k"
  proof
    assume "?n < k"
    then have "w_active (snd (after ?n)) \<noteq> 0" using assms(3) by blast
    then show False using n assms(4) \<open>?n < k\<close> by linarith
  qed
  ultimately have "?n = k" by simp
  moreover have "main_stop x cfg to_string render keys draining d = after ?n"
    using assms(1) by (simp add: main_stop_def Let_def)
  ultimately show ?thesis by simp
qed

definition two_due :: world where
  "two_due = due_world [sample_row 5 ''SCHEDULED'' None, (sample_row 6 ''SCHEDULED'' None)\<lparr>row_scheduled_at := 4\<rparr>]"

definition failing_end :: "nat \<Rightarrow> task list" where
  "failing_end n = (if n = 0 then [Timer] else [FinishJob 0 (sample_exec_env\<lparr>ee_times_out := True\<rparr>)])"

definition one_runs :: "worker list \<times> world" where
  "one_runs = run_sample [Timer, Receive 0, StartJob 0] ([Waiting, Waiting], two_due)"

definition stopping :: "nat \<Rightarrow> worker list \<times> world" where
  "stopping = after_intervals sample_externals wide_config (\<lambda>_. []) (\<lambda>_. []) Map.empty failing_end
     (perform sample_externals wide_config (\<lambda>_. []) (\<lambda>_. []) Map.empty Shutdown one_runs)"

lemma stopping_readings: "w_active (snd (stopping 0)) = 1" "w_active (snd (stopping 1)) = 1" "w_active (snd (stopping 2)) = 0"
  by code_simp+



section \<open>The next process\<close>



text \<open>C23: 
  A process that starts while the lease of a job lasts that was running when the last process ended: the job is
  never taken up by the new process. Its row is RUNNING as long as that process runs, whatever the
  tasks and the environment do.
\<close>

theorem interrupted_job_never_resumes:
  assumes "main_boot parse_addr connect env w = (Inr (cfg, ks), w1)" "distinct (map row_id (w_jobs w))"
    and "row_with_id i (w_jobs w) = Some r" "row_state r = ''RUNNING''" "\<not> row_is_template r"
    and "row_leased_until r = Some u" "ev_now (current_event w) \<le> u"
    and "run_tasks x cfg to_string render Map.empty early (ks, w1) = (ks2, w2)"
    and "main_listen bind cfg w2 = (Inr (keys, addr), w3)"
  shows "let d = run_tasks x cfg to_string render keys tasks (ks2, w3) in
    in_state ''RUNNING'' (w_jobs (snd d)) i \<and> i \<notin> set (in_flight (daemon_flow d))"
proof -
  note boot = main_boot_world [OF assms(1)] and listen = main_listen_world [OF assms(9)]
  have ids: "distinct (map row_id (w_jobs w1))" using assms(2) by (simp add: boot(1) recover.ids)
  have start: "daemon_flow (ks, w1) = flow_start (w_jobs w1) (c_worker_count cfg)" "daemon_ok (ks, w1)"
    using idle_start [OF boot(3,2) ids] boot(6) by simp_all
  have "row_with_id i (w_jobs w1) = Some r"
    using assms(3,4,6,7) by (simp add: boot(1) row_with_id_update recover_where_def)
  then have "orphaned i (daemon_flow (ks, w1))"
    using assms(4,5) by (simp add: start(1) orphaned_def in_state_def flow_start_def flight_simps map_replicate_const)
  then have "orphaned i (daemon_flow (ks2, w2))" "daemon_ok (ks2, w2)"
    using run_tasks_orphaned [OF start(2)] assms(8) by metis+
  then have "orphaned i (daemon_flow (ks2, w3))" "daemon_ok (ks2, w3)" using listen(1,2) by simp_all
  from conjunct2 [OF run_tasks_orphaned [OF this(2,1)]] show ?thesis
    by (simp add: orphaned_def Let_def)
qed

section \<open>Examples\<close>

text \<open>The witnesses: three workers, and a process that is killed while one of two jobs runs and the other waits
  in the channel. The next process starts when both leases have ended.\<close>

definition busy_env :: env_vars where
  "busy_env = sample_env(''HEAP_LOOKAHEAD_LIMIT'' \<mapsto> ''10'', ''WORKER_COUNT'' \<mapsto> ''3'')"

definition busy_config :: config where
  "busy_config = wide_config\<lparr>c_worker_count := 3\<rparr>"

definition any_addr :: "string \<Rightarrow> socket_addr option" where
  "any_addr = (\<lambda>_. Some (''0.0.0.0'', 2401))"

definition sample_keys :: api_keys where
  "sample_keys = Map.empty(''key'' \<mapsto> 1)"

definition killed_life :: life where
  "killed_life = \<lparr>lf_vars = busy_env, lf_connect = \<lambda>_. None, lf_bind = \<lambda>_. Bound, lf_early = [SchedulerStart],
     lf_serving = [Timer, Receive 0, StartJob 0], lf_draining = \<lambda>_. [], lf_ctrl_c = Arrives None,
     lf_terminate = Arrives None, lf_on_panic = None\<rparr>"

definition killed_world :: world where
  "killed_world = (idle_world [sample_row 5 ''SCHEDULED'' None, sample_row 6 ''SCHEDULED'' None])
     \<lparr>w_env := \<lambda>n. (idle_event n)\<lparr>ev_now := if n < 9 then int n else seconds (100 + int n)\<rparr>\<rparr>"

abbreviation sample_lives :: "life list \<Rightarrow> world \<Rightarrow> world" where
  "sample_lives \<equiv> lives sample_externals any_addr (\<lambda>_. []) (\<lambda>_. [])"

abbreviation run_busy :: "api_keys \<Rightarrow> task list \<Rightarrow> worker list \<times> world \<Rightarrow> worker list \<times> world" where
  "run_busy \<equiv> run_tasks sample_externals busy_config (\<lambda>_. []) (\<lambda>_. [])"

lemma main_boot_busy:
  assumes "fst (main_setup busy_config w) = Inr ks"
  shows "main_boot any_addr (\<lambda>_. None) busy_env w = (Inr (busy_config, ks), snd (main_setup busy_config w))"
proof (rule main_bootI)
  show "from_env any_addr busy_env = Inr busy_config"
    by (simp add: from_env_def or_else_def parse_usize_def parse_u64_def parse_i64_def parse_i32_def any_addr_def
        parse_var_def busy_env_def sample_env_def busy_config_def wide_config_def sample_config_def parse_int_def
        digit_of_def checked_def int_limits)
qed (simp_all add: assms [symmetric])

lemma main_listen_busy:
  assumes "w_clients w = [(''key'', 1)]" "ev_delivery (current_event w) = Delivered"
  shows "main_listen (\<lambda>_. Bound) busy_config w =
    (Inr (sample_keys, ''0.0.0.0'', 2401), (tick w)\<lparr>w_metrics := no_metrics\<rparr>)"
proof -
  have "bind_api_listener (\<lambda>_. Bound) (c_api_listen_addr busy_config) = Inr (''0.0.0.0'', 2401)"
    by (simp add: bind_api_listener_def busy_config_def wide_config_def sample_config_def
        bind_from.simps [of _ _ 2401])
  moreover have "load_auth_state w = (Inr sample_keys, tick w)"
    using assms
    by (simp add: load_auth_state_def load_api_keys_def bind_io_def statement_def return_io_def tick_def sample_keys_def)
  ultimately show ?thesis by (simp add: main_listen_def bind_io_def then_io_run metrics_init_def modify_io_run)
qed

definition second_boot :: world where
  "second_boot = snd (main_setup busy_config (sample_lives [killed_life] killed_world))"

definition second_ready :: world where
  "second_ready = snd (run_busy Map.empty [SchedulerStart] ([Waiting, Waiting, Waiting], second_boot))"

theorem started_daemon_holds_jobs_once_witness:
  "main_boot any_addr (\<lambda>_. None) busy_env (sample_lives [killed_life] killed_world) =
     (Inr (busy_config, [Waiting, Waiting, Waiting]), second_boot) \<and>
   map row_state (w_jobs (sample_lives [killed_life] killed_world)) = [''RUNNING'', ''LEASED''] \<and>
   map row_state (w_jobs second_boot) = [''SCHEDULED'', ''SCHEDULED''] \<and>
   (let s = daemon_flow (run_busy sample_keys [Timer, Receive 1, StartJob 1, ReaperTick]
      ([Waiting, Waiting, Waiting], (tick second_ready)\<lparr>w_metrics := no_metrics\<rparr>)) in
    waiting_jobs s = [6] \<and> running_jobs s = [5] \<and> distinct (in_flight s) \<and> in_state ''RUNNING'' (f_jobs s) 5)"
proof -
  let ?ks = "[Waiting, Waiting, Waiting]" and ?w = "sample_lives [killed_life] killed_world"
  have "fst (main_setup busy_config ?w) = Inr ?ks" by code_simp
  note boot = main_boot_busy [OF this, folded second_boot_def]
  have early: "run_busy Map.empty [SchedulerStart] (?ks, second_boot) = (?ks, second_ready)"
    by (simp add: second_ready_def run_tasks_Cons run_tasks_Nil)
  have listen: "main_listen (\<lambda>_. Bound) busy_config second_ready =
      (Inr (sample_keys, ''0.0.0.0'', 2401), (tick second_ready)\<lparr>w_metrics := no_metrics\<rparr>)"
    by (rule main_listen_busy) code_simp+
  let ?s = "daemon_flow (run_busy sample_keys [Timer, Receive 1, StartJob 1, ReaperTick]
      (?ks, (tick second_ready)\<lparr>w_metrics := no_metrics\<rparr>))"
  have ok: "table_ok (client_ids killed_world) (w_jobs killed_world)" by code_simp
  have timely: "timely sample_externals busy_config (\<lambda>_. []) (\<lambda>_. []) Map.empty [SchedulerStart] (?ks, second_boot)"
    "timely sample_externals busy_config (\<lambda>_. []) (\<lambda>_. []) sample_keys [Timer, Receive 1, StartJob 1, ReaperTick]
       (?ks, (tick second_ready)\<lparr>w_metrics := no_metrics\<rparr>)"
    by code_simp+
  have "distinct (in_flight ?s) \<and> (\<forall>i\<in>set (running_jobs ?s). in_state ''RUNNING'' (f_jobs ?s) i)"
    using started_daemon_holds_jobs_once [OF ok refl boot timely(1) early listen timely(2)] unfolding Let_def by blast
  moreover have "waiting_jobs ?s = [6]" "running_jobs ?s = [5]" by code_simp+
  moreover have "map row_state (w_jobs ?w) = [''RUNNING'', ''LEASED'']" "map row_state (w_jobs second_boot) = [''SCHEDULED'', ''SCHEDULED'']"
    by code_simp+
  ultimately show ?thesis using boot unfolding Let_def by simp
qed


theorem lives_keep_integrity_witness:
  "table_ok [1] (w_jobs (sample_lives [killed_life, killed_life] killed_world)) \<and>
   map row_id (w_jobs (sample_lives [killed_life, killed_life] killed_world)) = [5, 6]"
proof -
  have "table_ok (client_ids killed_world) (w_jobs killed_world)" "client_ids killed_world = [1]" by code_simp+
  moreover have "map row_id (w_jobs (sample_lives [killed_life, killed_life] killed_world)) = [5, 6]" by code_simp
  ultimately show ?thesis
    using lives_keep_integrity [of killed_world sample_externals any_addr "\<lambda>_. []" "\<lambda>_. []" "[killed_life, killed_life]"] by simp
qed

definition first_boot :: world where
  "first_boot = snd (main_setup busy_config killed_world)"

definition first_ready :: world where
  "first_ready = snd (run_busy Map.empty [SchedulerStart] ([Waiting, Waiting, Waiting], first_boot))"

definition first_end :: "worker list \<times> world" where
  "first_end = run_busy sample_keys [Timer, Receive 0, StartJob 0]
     ([Waiting, Waiting, Waiting], (tick first_ready)\<lparr>w_metrics := no_metrics\<rparr>)"



definition interrupted_world :: world where
  "interrupted_world = idle_world [(sample_row 5 ''RUNNING'' None)\<lparr>row_leased_until := Some (seconds 30)\<rparr>]"

theorem interrupted_job_never_resumes_witness:
  "let w1 = snd (main_setup busy_config interrupted_world);
       d = run_busy sample_keys [ReaperTick, Notified, Timer, Receive 0]
         ([Waiting, Waiting, Waiting], (tick w1)\<lparr>w_metrics := no_metrics\<rparr>)
   in in_state ''RUNNING'' (w_jobs (snd d)) 5 \<and> 5 \<notin> set (in_flight (daemon_flow d))"
proof -
  let ?ks = "[Waiting, Waiting, Waiting]" and ?r = "(sample_row 5 ''RUNNING'' None)\<lparr>row_leased_until := Some (seconds 30)\<rparr>"
  define w1 where "w1 = snd (main_setup busy_config interrupted_world)"
  have "fst (main_setup busy_config interrupted_world) = Inr ?ks" by code_simp
  note boot = main_boot_busy [OF this, folded w1_def]
  have listen: "main_listen (\<lambda>_. Bound) busy_config w1 =
      (Inr (sample_keys, ''0.0.0.0'', 2401), (tick w1)\<lparr>w_metrics := no_metrics\<rparr>)"
    unfolding w1_def by (rule main_listen_busy) code_simp+
  have row: "distinct (map row_id (w_jobs interrupted_world))" "row_with_id 5 (w_jobs interrupted_world) = Some ?r"
    "row_state ?r = ''RUNNING''" "\<not> row_is_template ?r" "row_leased_until ?r = Some (seconds 30)"
    "ev_now (current_event interrupted_world) \<le> seconds 30"
    by (simp_all add: interrupted_world_def row_with_id_def sample_row_def new_row_def seconds_def)
  have "run_busy Map.empty [] (?ks, w1) = (?ks, w1)" by (simp add: run_tasks_Nil)
  from interrupted_job_never_resumes [OF boot row this listen, of "[ReaperTick, Notified, Timer, Receive 0]"]
  show ?thesis unfolding Let_def w1_def .
qed

end
