(* ===== verification/Recurrence_End.thy ===== *)
theory Recurrence_End
  imports Lifetime
begin

text \<open>
  The end of a recurrence. Only the success of an instance spawns the next one, so a template whose
  instances have all ended gets no instance any more, whatever the tasks, the environment and the clients
  of the API do, and in every later process.
\<close>

section \<open>Rows that no statement reaches\<close>

definition kids :: "uuid \<Rightarrow> table \<Rightarrow> job_row list" where
  "kids i t = filter (\<lambda>r. row_parent_job_id r = Some i) t"

text \<open>Instances that have ended.\<close>

definition ended :: "job_row list \<Rightarrow> bool" where
  "ended K \<longleftrightarrow> list_all (\<lambda>r. \<not> row_is_template r \<and> row_state r \<notin> {''SCHEDULED'', ''LEASED'', ''RUNNING''}) K"

text \<open>A job that is neither one of the rows \<open>K\<close> nor an instance of the template \<open>i\<close>.\<close>

definition elsewhere :: "uuid \<Rightarrow> job_row list \<Rightarrow> job \<Rightarrow> bool" where
  "elsewhere i K j \<longleftrightarrow> job_id j \<notin> row_id ` set K \<and> job_parent_job_id j \<noteq> Some i"

text \<open>The template is in the table and its instances are \<open>K\<close>; with \<open>b\<close> the channel holds other jobs only.\<close>

definition over_table :: "uuid \<Rightarrow> job_row list \<Rightarrow> table \<Rightarrow> bool" where
  "over_table i K t \<longleftrightarrow> i \<in> row_id ` set t \<and> distinct (map row_id t) \<and> kids i t = K"

definition over :: "bool \<Rightarrow> uuid \<Rightarrow> job_row list \<Rightarrow> world \<Rightarrow> bool" where
  "over b i K w \<longleftrightarrow> over_table i K (w_jobs w) \<and> (b \<longrightarrow> list_all (elsewhere i K) (w_queue w))"

definition over_effect :: "bool \<Rightarrow> uuid \<Rightarrow> job_row list \<Rightarrow> effect" where
  "over_effect b i K w w' \<longleftrightarrow> (over b i K w \<longrightarrow> over b i K w')"

abbreviation keeps_over :: "bool \<Rightarrow> uuid \<Rightarrow> job_row list \<Rightarrow> 'a io \<Rightarrow> bool" where
  "keeps_over b i K \<equiv> keeps (over_effect b i K)"

interpretation over: effect_order "over_effect b i K" for b i K
  by unfold_locales (simp_all add: over_effect_def over_def)

named_theorems over_intro \<open>what keeps the instances of a template\<close>

lemmas [over_intro] = over.composition over.recorders over.queries over.reads over.lift_result over.refreshing
  over.try_io keeps_if keeps_cases

lemma over_table_update:
  assumes "over_table i K t" "\<And>r. r \<in> set K \<Longrightarrow> \<not> p r" "\<And>r. row_identity (g r) = row_identity r"
  shows "over_table i K (update_where p g t)"
proof -
  have "kids i (update_where p g t) = map (\<lambda>r. if p r then g r else r) (kids i t)"
    by (simp add: kids_def update_where_def filter_map comp_def row_identityD(12) [OF assms(3)] if_distrib cong: if_cong)
  moreover have "map (\<lambda>r. if p r then g r else r) K = K" by (rule map_idI) (simp add: assms(2))
  moreover have ids: "map row_id (update_where p g t) = map row_id t"
    by (simp add: map_update_where row_identityD(1) [OF assms(3)])
  moreover have "row_id ` set (update_where p g t) = row_id ` set t" using ids by (metis set_map)
  ultimately show ?thesis using assms(1) by (simp add: over_table_def)
qed

lemma over_table_insert:
  assumes "over_table i K t" "insert_row clients r t = Inr t'" "row_parent_job_id r \<noteq> Some i"
  shows "over_table i K t'"
  using assms insert_row_InrD(1,3) [OF assms(2)] by (auto simp: over_table_def kids_def)

text \<open>A row of another parent, and a template, are none of the ended instances.\<close>

lemma over_table_row:
  assumes "over_table i K t" "r \<in> set t" "row_id r \<in> row_id ` set K"
  shows "r \<in> set K"
proof -
  obtain s where "s \<in> set K" "row_id s = row_id r" using assms(3) by auto
  moreover from this assms(1) have "s \<in> set t" by (auto simp: over_table_def kids_def)
  ultimately show ?thesis
    using assms(1,2) by (auto simp: over_table_def distinct_map dest: inj_onD)
qed

lemma over_statement:
  assumes "\<And>ev cl t a t'. over_table i K t \<Longrightarrow> q ev cl t = Inr (a, t') \<Longrightarrow> over_table i K t'"
  shows "keeps_over b i K (statement q)"
  by (rule over.statement) (use assms in \<open>auto simp: over_effect_def over_def\<close>)

lemma over_update:
  assumes "\<And>ev r. r \<in> set K \<Longrightarrow> \<not> p ev r" "\<And>ev r. row_identity (g ev r) = row_identity r"
  shows "keeps_over b i K (update p g)"
  unfolding update_def by (rule over_statement) (auto intro!: over_table_update assms)

text \<open>A value that depends on the state it was read in.\<close>

lemma over_bind:
  assumes "keeps_over b i K m"
    and "\<And>w a w'. over b i K w \<Longrightarrow> m w = (Inr a, w') \<Longrightarrow> P a"
    and "\<And>a. P a \<Longrightarrow> keeps_over b i K (k a)"
  shows "keeps_over b i K (bind_io m k)"
proof (rule keepsI)
  fix w
  obtain r w1 where m: "m w = (r, w1)" by fastforce
  have 1: "over_effect b i K w w1" using keeps_runD [OF assms(1) m] .
  show "over_effect b i K w (snd (bind_io m k w))"
  proof (cases r)
    case (Inr a)
    then have "over b i K w \<Longrightarrow> over_effect b i K w1 (snd (k a w1))"
      using assms(2) [of w a w1] m keepsD [OF assms(3)] by blast
    then show ?thesis using m Inr 1 by (auto simp: bind_io_def over_effect_def)
  qed (use m 1 in \<open>simp add: bind_io_def\<close>)
qed

section \<open>The statements\<close>

lemma over_insert_job:
  assumes "par \<noteq> Some i"
  shows "keeps_over b i K (insert_job x c req tm rc cr nx mx en pol par at)"
proof -
  have "row_parent_job_id (new_row u n k c' v st at' ex mr rd hook rc' cr' nx' mx' en' par pl tm') \<noteq> Some i"
    for u n k c' v st at' ex mr rd hook rc' cr' nx' mx' en' pl tm'
    using assms by (simp add: new_row_def)
  then show ?thesis
    unfolding insert_job_def
    by (intro over_intro over_statement) (auto simp: Let_def split: sum.splits intro: over_table_insert)
qed

lemma insert_job_fresh:
  assumes "insert_job x c req tm rc cr nx mx en pol par at w = (Inr j, w')"
  shows "job_id j \<notin> row_id ` set (w_jobs w)"
proof -
  obtain r w1 t' where "insert_row (client_ids w) r (w_jobs w) = Inr t'" "decode_row x r w1 = (Inr j, w')"
    using assms by (auto simp: insert_job_def bind_io_def statement_def Let_def
        split: option.splits delivery.splits sum.splits prod.splits)
  then show ?thesis
    using insert_row_InrD(3) from_row_InrD(1) by (fastforce simp: decode_row_def bind_io_def split: sum.splits)
qed

lemma over_insert_instance: "job_id tmpl \<noteq> i \<Longrightarrow> keeps_over b i K (insert_instance x tmpl at key)"
  unfolding insert_instance_def Let_def by (rule over_insert_job) simp

lemma update_identity:
  "row_identity (running_set now r) = row_identity r" "row_identity (completed_set now r) = row_identity r"
  "row_identity (state_set st now r) = row_identity r" "row_identity (retry_set at n now r) = row_identity r"
  "row_identity (cancelled_set now r) = row_identity r" "row_identity (released_set now r) = row_identity r"
  "row_identity (webhook_set ok m now r) = row_identity r" "row_identity (cron_set e now r) = row_identity r"
  "row_identity (increment_set nx now r) = row_identity r" "row_identity (lease_set secs now r) = row_identity r"
  by (simp_all add: sql_defs)

lemma over_writes:
  assumes "a \<notin> row_id ` set K"
  shows "keeps_over b i K (set_running a)" "keeps_over b i K (set_completed a)"
    "keeps_over b i K (set_state a st)" "keeps_over b i K (schedule_retry a at n)"
    "keeps_over b i K (update_webhook_result a ok m)" "keeps_over b i K (complete_template a)"
  unfolding set_running_def set_completed_def set_state_def schedule_retry_def update_webhook_result_def complete_template_def
  by (intro over_intro over_update update_identity; use assms in \<open>force simp: id_where_def\<close>)+

lemma over_increment:
  assumes "a \<notin> row_id ` set K"
  shows "keeps_over b i K (increment_template_occurrences a nx)"
  unfolding increment_template_occurrences_def
  by (rule over_statement) (use assms in \<open>force split: if_splits simp: id_where_def intro!: over_table_update update_identity\<close>)

lemma over_ended_writes:
  assumes "ended K"
  shows "keeps_over b i K (cancel_job_row a c)" "keeps_over b i K (cancel_template_and_instances a c)"
    "keeps_over b i K reap_expired_leases" "keeps_over b i K recover_rows_on_startup"
  unfolding cancel_job_row_def cancel_template_and_instances_def reap_expired_leases_def recover_rows_on_startup_def
  by (intro over_intro over_update update_identity;
      use assms in \<open>auto simp: ended_def list_all_iff cancel_where_def cancel_template_where_def
        cancel_instances_where_def reap_where_def recover_where_def\<close>)+

lemma over_cron:
  assumes "ended K"
  shows "keeps_over b i K (update_cron_expr a c e)"
  unfolding update_cron_expr_def
  by (intro over_intro over_statement)
    (use assms in \<open>auto simp: Let_def ended_def list_all_iff cron_where_def split: if_splits intro!: over_table_update update_identity\<close>)

lemma over_lease_job:
  assumes "ended K"
  shows "keeps_over b i K (lease_job x a d)"
  unfolding lease_job_def Let_def
  by (intro over_intro over_statement)
    (use assms in \<open>auto simp: ended_def list_all_iff lease_where_def intro!: over_table_update update_identity\<close>)

text \<open>A leased job is none of the ended instances.\<close>

lemma leased_elsewhere:
  assumes "over b i K w" "ended K" "lease_job x a d w = (Inr (Some j), w')"
  shows "elsewhere i K j"
proof -
  obtain r where r: "r \<in> set (w_jobs w)" "lease_where a r" "\<exists>secs now. from_row (x_from_value x) (lease_set secs now r) = Inr j"
  proof -
    obtain rows w1 where s: "statement (\<lambda>ev _ t. Inr (map (lease_set (wrap_i64 (int d)) (ev_now ev)) (filter (lease_where a) t),
        update_where (lease_where a) (lease_set (wrap_i64 (int d)) (ev_now ev)) t)) w = (Inr rows, w1)"
      "decode_optional x (first_row rows) w1 = (Inr (Some j), w')"
      using assms(3) by (auto simp: lease_job_def Let_def bind_io_def split: prod.splits sum.splits)
    then obtain r where "first_row rows = Some r" "from_row (x_from_value x) r = Inr j" using decode_optional_Some by blast
    then show thesis using s(1) first_row_Some that
      by (fastforce simp: statement_def split: delivery.splits)
  qed
  then obtain secs now where dec: "from_row (x_from_value x) (lease_set secs now r) = Inr j" by blast
  note j = from_row_InrD(1,19) [OF dec, unfolded row_identityD(1,12) [OF update_identity(10)]]
  have "row_state r = ''SCHEDULED''" using r(2) by (simp add: lease_where_def)
  then have "r \<notin> set K" using assms(2) by (auto simp: ended_def list_all_iff)
  then show ?thesis
    using assms(1) r(1) over_table_row [of i K "w_jobs w" r] by (auto simp: elsewhere_def over_def j over_table_def kids_def)
qed

section \<open>The handlers of requests\<close>

lemma over_create_recurring: "keeps_over b i K (create_recurring x c req rc)"
proof -
  have rest: "keeps_over b i K (bind_io (insert_instance x t at key) (\<lambda>inst.
      then_io record_recurring_instance_created (then_io refresh_metrics (then_io notify_one (return_io (t, inst))))))"
    if "job_id t \<noteq> i" for t at key
    by (intro over_intro over_insert_instance that)
  show ?thesis
    unfolding create_recurring_def
    by (intro over.bind over.lift_result over_bind [where P = "\<lambda>t. job_id t \<noteq> i"] over_insert_job rest)
      (auto dest!: insert_job_fresh simp: over_def over_table_def)
qed

lemma over_requests:
  assumes "ended K"
  shows "keeps_over b i K (create_job x c req)" "keeps_over b i K (get_job x c a)" "keeps_over b i K (cancel_job x c a)"
    "keeps_over b i K (patch_job x c a patch)"
  unfolding create_job_def get_job_def cancel_job_def patch_job_def
  by (intro over_intro over_create_recurring over_insert_job over_ended_writes over_cron assms; simp)+

section \<open>The workers\<close>

lemma over_spawn:
  assumes "ended K" "p \<noteq> i"
  shows "keeps_over b i K (spawn_next_instance x p at)"
proof -
  have job: "(\<forall>t. found = Some t \<longrightarrow> job_id t = p \<and> (job_is_template t \<longrightarrow> p \<notin> row_id ` set K))"
    if "over b i K w" "get_job_by_id_internal x p w = (Inr found, w')" for w found w'
  proof (intro allI impI)
    fix t assume "found = Some t"
    with that(2) obtain r where r: "r \<in> set (w_jobs w)" "row_id r = p" "from_row (x_from_value x) r = Inr t"
      by (auto dest: get_internal_found)
    show "job_id t = p \<and> (job_is_template t \<longrightarrow> p \<notin> row_id ` set K)"
      using r(1,2) from_row_InrD(1,20) [OF r(3)] over_table_row [of i K "w_jobs w" r] that(1) assms(1)
      by (auto simp: over_def ended_def list_all_iff)
  qed
  have spawn: "keeps_over b i K (spawn_at x q t fire)" "keeps_over b i K (finish_template q)"
    if "job_id t = q" "q \<noteq> i" "q \<notin> row_id ` set K" for q t fire
    using that unfolding spawn_at_def insert_next_def finish_template_def Let_def
    by (intro over_intro over_increment over_writes over_insert_instance; simp)+
  show ?thesis
    unfolding spawn_next_instance_def
  proof (rule over_bind [OF over.reads(4) job], assumption, assumption, goal_cases)
    case (1 found)
    then show ?case
      using assms(2) by (cases found) (auto simp: Let_def intro!: over_intro spawn split: option.split)
  qed
qed

lemma over_emit:
  assumes "a \<notin> row_id ` set K"
  shows "keeps_over b i K (emit x cfg a)"
proof -
  have "keeps_over b i K (post_hook u bd e)" "keeps_over b i K (sleep_secs n)" "keeps_over b i K record_webhook_failure" for u bd e n
    by (simp_all add: keeps_def over_effect_def over_def post_hook_def sleep_secs_def record_webhook_failure_def
        modify_io_def count_metric_def)
  then show ?thesis by (intro over.emit over.deliver over_writes assms)
qed

lemma over_handle:
  assumes "ended K" "elsewhere i K j"
  shows "keeps_over b i K (handle x cfg j res)"
proof -
  have j: "job_id j \<notin> row_id ` set K" and parent: "job_parent_job_id j = Some p \<Longrightarrow> p \<noteq> i" for p
    using assms(2) by (auto simp: elsewhere_def)
  have "keeps_over b i K (handle_success x cfg j)"
    using parent unfolding handle_success_def
    by (cases "job_parent_job_id j") (simp_all, (intro over_intro over_writes [OF j] over_emit [OF j] over_spawn [OF assms(1)]; simp)+)
  then show ?thesis
    unfolding handle_def handle_expired_def handle_dead_letter_def handle_retry_def Let_def
    by (intro over_intro over_writes [OF j] over_emit [OF j])
qed

lemma over_job:
  assumes "ended K" "elsewhere i K j"
  shows "keeps_over b i K (start_job j)" "keeps_over b i K (finish_job x cfg ee j)"
proof -
  have j: "job_id j \<notin> row_id ` set K" using assms(2) by (simp add: elsewhere_def)
  have counts: "keeps_over b i K job_begins" "keeps_over b i K job_ends"
    by (simp_all add: keeps_def over_effect_def over_def job_begins_run job_ends_run)
  show "keeps_over b i K (start_job j)" "keeps_over b i K (finish_job x cfg ee j)"
    unfolding start_job_def finish_job_def by (intro over_intro over_writes j counts over_handle assms)+
qed

section \<open>The scheduler\<close>

lemma over_try_send: "elsewhere i K j \<Longrightarrow> keeps_over b i K (try_send cfg j)"
  by (simp add: keeps_def over_effect_def over_def try_send_def)

lemma over_memory:
  "keeps_over b i K (set_heap h)" "keeps_over b i K store_alive" "keeps_over b i K (modify_io (\<lambda>w. w\<lparr>w_permit := pm\<rparr>))"
  by (simp_all add: keeps_def over_effect_def over_def set_heap_def store_alive_def modify_io_def)

lemma over_dispatch_from:
  assumes "ended K"
  shows "keeps_over b i K (dispatch_from x cfg now heap)"
proof (induction x cfg now heap rule: dispatch_from.induct)
  case (1 x cfg now heap)
  have send: "keeps_over b i K (bind_io (lease_job x a d) (\<lambda>leased. case leased of
      None \<Rightarrow> dispatch_from x cfg now h
    | Some j \<Rightarrow> bind_io (try_send cfg j) (\<lambda>sent. case sent of
        Sent \<Rightarrow> then_io record_job_dispatched (dispatch_from x cfg now h)
      | Full \<Rightarrow> then_io (schedule_retry (job_id j) (job_scheduled_at j) (job_attempt_count j)) (then_io notify_one (return_io ()))
      | Closed \<Rightarrow> return_io ())))"
    if h: "keeps_over b i K (dispatch_from x cfg now h)" for a d h
  proof (rule over_bind [where P = "\<lambda>leased. \<forall>j. leased = Some j \<longrightarrow> elsewhere i K j"])
    show "keeps_over b i K (lease_job x a d)" by (rule over_lease_job) (rule assms)
    show "\<forall>j. leased = Some j \<longrightarrow> elsewhere i K j" if "over b i K w" "lease_job x a d w = (Inr leased, w')" for w leased w'
      using leased_elsewhere that assms by blast
    fix leased :: "job option" assume "\<forall>j. leased = Some j \<longrightarrow> elsewhere i K j"
    then show "keeps_over b i K (case leased of
      None \<Rightarrow> dispatch_from x cfg now h
    | Some j \<Rightarrow> bind_io (try_send cfg j) (\<lambda>sent. case sent of
        Sent \<Rightarrow> then_io record_job_dispatched (dispatch_from x cfg now h)
      | Full \<Rightarrow> then_io (schedule_retry (job_id j) (job_scheduled_at j) (job_attempt_count j)) (then_io notify_one (return_io ()))
      | Closed \<Rightarrow> return_io ()))"
      by (auto simp: elsewhere_def intro!: over_intro over_try_send over_writes h split: option.split send_result.split)
  qed
  show ?case
    by (subst dispatch_from.simps)
      (auto intro!: over.return over.throw over.seq over_memory send 1 split: option.split)
qed

lemma over_iterations:
  assumes "ended K"
  shows "keeps_over b i K (scheduler_start cfg)" "keeps_over b i K loop_head" "keeps_over b i K (on_timer x cfg)"
    "keeps_over b i K (on_notified cfg)"
proof -
  have r: "keeps_over b i K (refresh_heap cfg)" unfolding refresh_heap_def by (intro over_intro over_memory)
  have "keeps_over b i K (\<lambda>w. dispatch_from x cfg now (w_heap w) w)" for now
    using over_dispatch_from [OF assms] by (simp add: keeps_def)
  then have d: "keeps_over b i K (dispatch_due_jobs x cfg)" unfolding dispatch_due_jobs_def by (intro over_intro)
  show "keeps_over b i K (scheduler_start cfg)" "keeps_over b i K (on_timer x cfg)" "keeps_over b i K (on_notified cfg)"
    unfolding scheduler_start_def on_timer_def on_notified_def by (intro over_intro over_memory r d)+
  have "keeps_over b i K (\<lambda>w. (case heap_peek (w_heap w) of
      None \<Rightarrow> return_io (sleep_delay (w_heap w) 0) w
    | Some j \<Rightarrow> bind_io utc_now (\<lambda>now. return_io (sleep_delay (w_heap w) now)) w))"
    by (simp add: keeps_def over.refl bind_io_def utc_now_def over.tick split: option.split)
  then show "keeps_over b i K loop_head" unfolding loop_head_def by (intro over_intro over_memory)
qed

section \<open>The tasks and the processes\<close>

text \<open>The job a worker holds.\<close>

definition worker_job :: "worker \<Rightarrow> job option" where
  "worker_job k = (case k of Busy j \<Rightarrow> Some j | Working j \<Rightarrow> Some j | _ \<Rightarrow> None)"

definition over_daemon :: "uuid \<Rightarrow> job_row list \<Rightarrow> worker list \<times> world \<Rightarrow> bool" where
  "over_daemon i K d \<longleftrightarrow> over True i K (snd d) \<and> list_all (\<lambda>k. case worker_job k of None \<Rightarrow> True | Some j \<Rightarrow> elsewhere i K j) (fst d)"

lemma over_daemon_io: "keeps_over True i K m \<Longrightarrow> over_daemon i K (ks, w) \<Longrightarrow> over_daemon i K (ks, snd (m w))"
  by (simp add: over_daemon_def keeps_def over_effect_def)

lemma over_worker:
  assumes "ended K" "over_daemon i K (ks, w)" "n < length ks"
    and "worker_receive (ks ! n) w = (k, w') \<or> worker_start (ks ! n) w = (k, w') \<or> worker_finish x cfg ee (ks ! n) w = (k, w')"
  shows "over_daemon i K (ks[n := k], w')"
proof -
  have old: "case worker_job (ks ! n) of None \<Rightarrow> True | Some j \<Rightarrow> elsewhere i K j"
    using assms(2,3) by (simp add: over_daemon_def list_all_length)
  have "over True i K w' \<and> (case worker_job k of None \<Rightarrow> True | Some j \<Rightarrow> elsewhere i K j)"
    using assms(4)
  proof (elim disjE)
    assume "worker_receive (ks ! n) w = (k, w')"
    then show ?thesis
      using old assms(2)
      by (auto simp: worker_receive_def over_daemon_def over_def worker_job_def split: worker.splits list.splits if_splits)
  next
    assume s: "worker_start (ks ! n) w = (k, w')"
    show ?thesis
    proof (cases "ks ! n")
      case (Busy j)
      then have j: "elsewhere i K j" using old by (simp add: worker_job_def)
      obtain r w1 where run: "start_job j w = (r, w1)" by fastforce
      have "over True i K w1"
        using keeps_runD [OF over_job(1) [OF assms(1) j] run] assms(2) by (simp add: over_effect_def over_daemon_def)
      then show ?thesis
        using s Busy run j
        by (auto simp: worker_start_def worker_job_def elsewhere_def elim!: start_job_active split: sum.splits option.splits)
    qed (use s old assms(2) in \<open>auto simp: worker_start_def over_daemon_def\<close>)
  next
    assume s: "worker_finish x cfg ee (ks ! n) w = (k, w')"
    show ?thesis
    proof (cases "ks ! n")
      case (Working j)
      then have j: "elsewhere i K j" using old by (simp add: worker_job_def)
      obtain r w1 where run: "finish_job x cfg ee j w = (r, w1)" by fastforce
      have "over True i K w1"
        using keeps_runD [OF over_job(2) [OF assms(1) j] run] assms(2) by (simp add: over_effect_def over_daemon_def)
      then show ?thesis using s Working run by (auto simp: worker_finish_def worker_job_def split: sum.splits)
    qed (use s old assms(2) in \<open>auto simp: worker_finish_def over_daemon_def\<close>)
  qed
  then show ?thesis
    using assms(2) by (auto simp: over_daemon_def list_all_iff dest: set_update_subset_insert [THEN subsetD])
qed

lemma over_perform:
  assumes "ended K" "over_daemon i K d"
  shows "over_daemon i K (perform x cfg to_string render keys task d)"
proof -
  obtain ks w where d: "d = (ks, w)" by fastforce
  note io = over_daemon_io [OF _ assms(2) [unfolded d]] and iter = over_iterations [OF assms(1), where b = True]
  note worker = over_worker [OF assms(1) assms(2) [unfolded d]]
  show ?thesis
  proof (cases task)
    case SchedulerStart
    then show ?thesis using io [OF iter(1)] by (simp add: d)
  next
    case Timer
    then show ?thesis using io [OF over.seq [OF iter(2,3)]] by (simp add: d)
  next
    case Notified
    then show ?thesis using io [OF over.seq [OF iter(2,4)]] assms(2) by (simp add: d)
  next
    case ReaperTick
    have r: "keeps_over True i K reaper_round"
      unfolding reaper_round_def by (intro over_intro over_ended_writes assms(1))
    show ?thesis using ReaperTick io [OF r] assms(2) by (simp add: d)
  next
    case (Request h e)
    then show ?thesis using io [OF over.serve [OF over_requests [OF assms(1)]]] by (simp add: d)
  next
    case (Receive n)
    then show ?thesis using worker assms(2) by (auto simp: d split: prod.split)
  next
    case (StartJob n)
    then show ?thesis using worker assms(2) by (auto simp: d split: prod.split)
  next
    case (FinishJob n ee)
    then show ?thesis using worker [of n _ _ x cfg ee] assms(2) by (auto simp: d split: prod.split)
  next
    case Shutdown
    then show ?thesis
      using assms(2)
      by (auto simp: d over_daemon_def pool_shutdown_def worker_shutdown_def worker_job_def list_all_iff split: worker.splits)
  qed
qed

text \<open>A new process starts with an empty channel and idle workers.\<close>

lemma over_set_up:
  assumes "ended K" "over False i K w" "main_setup cfg w = (r, w')"
  shows "over False i K w'" "r = Inr ks \<Longrightarrow> over_daemon i K (ks, w')"
proof -
  have "keeps_over False i K (main_setup cfg)"
    unfolding main_setup_def recover_on_startup_def shared_new_def spawn_worker_pool_def scheduler_new_def
    by (intro over_intro over_ended_writes over_memory assms(1) keeps_modify) (simp_all add: over_effect_def over_def)
  then show w': "over False i K w'" using keeps_runD assms(2,3) by (fastforce simp: over_effect_def)
  assume "r = Inr ks"
  then show "over_daemon i K (ks, w')"
    using w' main_setup_world(2,6) [of cfg w ks w'] assms(3) by (simp add: over_daemon_def over_def worker_job_def list_all_iff)
qed

lemma over_listen: "over_daemon i K (ks, w) \<Longrightarrow> over_daemon i K (ks, snd (main_listen bind cfg w))"
proof -
  have "keeps_over True i K (bind_io load_auth_state (\<lambda>keys. then_io metrics_init (return_io keys)))"
    unfolding load_auth_state_def metrics_init_def
    by (intro over_intro keeps_modify) (simp add: over_effect_def over_def)
  then have "over_effect True i K w (snd (main_listen bind cfg w))"
    using keeps_runD by (fastforce simp: main_listen_def split: prod.split sum.split)
  then show "over_daemon i K (ks, w) \<Longrightarrow> ?thesis" by (simp add: over_daemon_def over_effect_def)
qed

lemma over_left: "over_daemon i K d \<Longrightarrow> over False i K (snd d)"
  by (simp add: over_daemon_def over_def)

interpretation process_over: process_kept x to_string render "\<lambda>w. ended K \<and> over False i K w" "\<lambda>d. ended K \<and> over_daemon i K d"
  for x to_string render K i
  by unfold_locales (blast intro: over_set_up over_perform over_listen over_left)+

section \<open>A template whose instances have ended\<close>

text \<open>C27: Once all instances of a template have ended and no worker and no channel holds one of them, nothing
  brings the recurrence back: whatever the daemon then does, and the processes that follow it, the
  template has exactly these instances, unchanged. Only the success of an instance spawns the next one,
  so one instance that is dead-lettered, expires or is cancelled ends a recurrence that has no end date and
  no maximum.\<close>

theorem recurrence_ends:
  assumes "i \<in> row_id ` set (w_jobs w)" "distinct (map row_id (w_jobs w))" "kids i (w_jobs w) = K" "ended K"
    and "list_all (elsewhere i K) (w_queue w)" "list_all (elsewhere i K) (List.map_filter worker_job ks)"
  shows "kids i (w_jobs (lives x parse_addr to_string render ls
    (snd (run_tasks x cfg to_string render keys tasks (ks, w))))) = K"
proof -
  have "over_daemon i K (ks, w)"
    using assms by (auto simp: over_daemon_def over_def over_table_def list_all_iff List.map_filter_def split: option.split)
  then have "ended K \<and> over False i K (snd (run_tasks x cfg to_string render keys tasks (ks, w)))"
    using process_over.tasks process_over.left assms(4) by blast
  then show ?thesis using process_over.lives by (simp add: over_def over_table_def)
qed

text \<open>A daily job that may not be retried: its first instance times out and is dead-lettered, and the
  template, still SCHEDULED, never gets a second one.\<close>

definition daily_job :: "worker list \<times> world" where
  "daily_job = ([Waiting], idle_world [sample_template, sample_first_instance\<lparr>row_state := ''SCHEDULED'', row_max_retries := 0\<rparr>])"

definition after_failure :: "worker list \<times> world" where
  "after_failure = run_sample [SchedulerStart, Timer, Receive 0, StartJob 0,
     FinishJob 0 (sample_exec_env\<lparr>ee_times_out := True\<rparr>)] daily_job"

lemma after_failure_state:
  "map row_id (w_jobs (snd after_failure)) = [7, 8]"
  "map row_state (w_jobs (snd after_failure)) = [''SCHEDULED'', ''DEAD_LETTER'']"
  "map row_state (kids 7 (w_jobs (snd after_failure))) = [''DEAD_LETTER'']"
  "ended (kids 7 (w_jobs (snd after_failure)))"
  "w_queue (snd after_failure) = []" "List.map_filter worker_job (fst after_failure) = []"
  by code_simp+

theorem recurrence_ends_witness:
  "map row_state (w_jobs (snd after_failure)) = [''SCHEDULED'', ''DEAD_LETTER''] \<and>
   (\<forall>tasks ls. map row_state (kids 7 (w_jobs (lives sample_externals any_addr (\<lambda>_. []) (\<lambda>_. []) ls
      (snd (run_sample tasks after_failure))))) = [''DEAD_LETTER''])"
proof (intro conjI allI)
  fix tasks ls
  have "7 \<in> row_id ` set (w_jobs (snd after_failure))" "distinct (map row_id (w_jobs (snd after_failure)))"
    using after_failure_state(1) by (simp_all flip: set_map)
  from recurrence_ends [OF this refl after_failure_state(4), of "fst after_failure"]
  show "map row_state (kids 7 (w_jobs (lives sample_externals any_addr (\<lambda>_. []) (\<lambda>_. []) ls
      (snd (run_sample tasks after_failure))))) = [''DEAD_LETTER'']"
    using after_failure_state(3,5,6) by (simp add: run_sample_def)
qed (rule after_failure_state(2))

end
